theory Spec2Isabelle
  imports Complex_Main
begin

section \<open>Conventions\<close>

text \<open>
  This theory embeds the caption pipeline of \<^verbatim>\<open>yt-transcribe.py\<close>.

  A Python \<^verbatim>\<open>str\<close> is a \<^typ>\<open>string\<close>; one \<^typ>\<open>char\<close> stands for one code point in the
  range U+0000 to U+00FF, so \<^term>\<open>length\<close> counts code points as Python's \<^verbatim>\<open>len\<close> does.
  On this range Unicode normalisation to NFC is the identity, and the whitespace,
  case and category tables used below are the ones of the Unicode character database.
  A Python \<^verbatim>\<open>float\<close> that holds a number is a \<^typ>\<open>real\<close>; a Python \<^verbatim>\<open>int\<close> is an \<^typ>\<open>int\<close>.
\<close>

section \<open>Timestamps\<close>

text \<open>Decimal digits of a natural number, as \<^verbatim>\<open>str(n)\<close> prints them.\<close>

definition digit_char :: "nat \<Rightarrow> char" where
  "digit_char d = (''0123456789'' ! d)"

fun str_nat :: "nat \<Rightarrow> string" where
  "str_nat n = (if n < 10 then [digit_char n] else str_nat (n div 10) @ [digit_char (n mod 10)])"

declare str_nat.simps [simp del]

text \<open>The format specification \<^verbatim>\<open>{:02d}\<close>: zero padding to width two, the sign counted in.\<close>

definition format_02d :: "int \<Rightarrow> string" where
  "format_02d n =
     (if n < 0 then CHR ''-'' # str_nat (nat (- n))
      else replicate (2 - length (str_nat (nat n))) CHR ''0'' @ str_nat (nat n))"

text \<open>\<^verbatim>\<open>int(x)\<close> on a float truncates towards zero.\<close>

definition py_int :: "real \<Rightarrow> int" where
  "py_int x = (if x < 0 then \<lceil>x\<rceil> else \<lfloor>x\<rfloor>)"

definition format_timestamp :: "real \<Rightarrow> string" where
  "format_timestamp seconds =
     (let seconds' = (if seconds < 0 then 0 else seconds);
          total_seconds = py_int seconds';
          hours = total_seconds div 3600;
          remainder = total_seconds mod 3600;
          minutes = remainder div 60;
          secs = remainder mod 60
      in if hours \<noteq> 0
         then format_02d hours @ '':'' @ format_02d minutes @ '':'' @ format_02d secs
         else format_02d minutes @ '':'' @ format_02d secs)"

section \<open>Strings\<close>

text \<open>
  \<^verbatim>\<open>str.isspace\<close> and the regular expression class \<^verbatim>\<open>\s\<close> agree; between U+0000 and
  U+00FF the whitespace characters are the following twelve.
\<close>

definition py_isspace :: "char \<Rightarrow> bool" where
  "py_isspace c \<longleftrightarrow>
     c \<in> set [CHR 0x09, CHR 0x0A, CHR 0x0B, CHR 0x0C, CHR 0x0D, CHR 0x1C, CHR 0x1D, CHR 0x1E,
              CHR 0x1F, CHR 0x20, CHR 0x85, CHR 0xA0]"

text \<open>\<^verbatim>\<open>s.lstrip(chars)\<close>, \<^verbatim>\<open>s.rstrip(chars)\<close> and \<^verbatim>\<open>s.strip(chars)\<close>, the set of characters given
  as a predicate; \<^verbatim>\<open>s.strip()\<close> is \<open>py_strip py_isspace\<close>.\<close>

definition py_lstrip :: "(char \<Rightarrow> bool) \<Rightarrow> string \<Rightarrow> string" where
  "py_lstrip P s = dropWhile P s"

definition py_rstrip :: "(char \<Rightarrow> bool) \<Rightarrow> string \<Rightarrow> string" where
  "py_rstrip P s = rev (dropWhile P (rev s))"

definition py_strip :: "(char \<Rightarrow> bool) \<Rightarrow> string \<Rightarrow> string" where
  "py_strip P s = py_rstrip P (py_lstrip P s)"

text \<open>Letters with a lower-case form: A to Z, and U+00C0 to U+00DE but for the
  multiplication sign U+00D7. The lower-case form is 32 code points further.\<close>

definition is_upper :: "char \<Rightarrow> bool" where
  "is_upper c \<longleftrightarrow>
     (let n = (of_char c :: nat)
      in (65 \<le> n \<and> n \<le> 90) \<or> (192 \<le> n \<and> n \<le> 222 \<and> n \<noteq> 215))"

definition lower_char :: "char \<Rightarrow> char" where
  "lower_char c = (if is_upper c then char_of (of_char c + (32 :: nat)) else c)"

definition py_lower :: "string \<Rightarrow> string" where
  "py_lower s = map lower_char s"

fun startswith :: "string \<Rightarrow> string \<Rightarrow> bool" where
  "startswith s [] = True"
| "startswith [] (p # ps) = False"
| "startswith (c # cs) (p # ps) = (c = p \<and> startswith cs ps)"

definition endswith :: "string \<Rightarrow> string \<Rightarrow> bool" where
  "endswith s p = startswith (rev s) (rev p)"

text \<open>\<^verbatim>\<open>p in s\<close> for strings.\<close>

fun contains_str :: "string \<Rightarrow> string \<Rightarrow> bool" where
  "contains_str [] p = (p = [])"
| "contains_str (c # cs) p = (startswith (c # cs) p \<or> contains_str cs p)"

text \<open>\<^verbatim>\<open>sep.join(lines)\<close> with the newline as separator.\<close>

fun join_lines :: "string list \<Rightarrow> string" where
  "join_lines [] = []"
| "join_lines [x] = x"
| "join_lines (x # y # zs) = x @ [CHR 0x0A] @ join_lines (y # zs)"

text \<open>\<^verbatim>\<open>s.split(sep)\<close> for a separator of one character.\<close>

fun split_on :: "char \<Rightarrow> string \<Rightarrow> string list" where
  "split_on d [] = [[]]"
| "split_on d (c # cs) =
     (if c = d then [] # split_on d cs
      else (case split_on d cs of [] \<Rightarrow> [[c]] | p # ps \<Rightarrow> (c # p) # ps))"

section \<open>Failures\<close>

text \<open>
  The classes of exception the program meets. \<open>YouTubeTranscriptApiException\<close> stands
  for any member of the captions library's hierarchy other than the five named before
  it (all of which derive from it); \<open>OtherException\<close> for an exception outside that
  hierarchy, such as a network error of the HTTP client.
\<close>

datatype exc_class =
    VideoUnavailable
  | TranscriptsDisabled
  | NoTranscriptFound
  | NotTranslatable
  | TranslationLanguageNotAvailable
  | YouTubeTranscriptApiException
  | ValueError
  | OtherException

text \<open>An exception raised by a collaborator: its class and its \<^verbatim>\<open>str()\<close>.\<close>

datatype raised = Raised exc_class string

text \<open>How a function of the program fails: with the program's own \<^verbatim>\<open>CliError\<close> and its
  message, or with a collaborator's exception that no handler caught.\<close>

datatype failure = CliError string | Uncaught raised

text \<open>Steps that may raise, one after the other: the first exception ends the sequence.\<close>

definition and_then :: "'e + 'a \<Rightarrow> ('a \<Rightarrow> 'e + 'b) \<Rightarrow> 'e + 'b" where
  "and_then r f = (case r of Inl e \<Rightarrow> Inl e | Inr x \<Rightarrow> f x)"

section \<open>Caption Normalizer\<close>

definition stage_directions :: "string list" where
  "stage_directions = [''music'', ''applause'', ''laughter'', ''silence'', ''inaudible'']"

definition stage_direction_markers :: "string list" where
  "stage_direction_markers = map (\<lambda>w. ''['' @ w @ '']'') stage_directions"

text \<open>\<^verbatim>\<open>STAGE_DIRECTION_PATTERN.fullmatch(s)\<close>: the pattern is compiled with
  \<^verbatim>\<open>re.IGNORECASE\<close>, and on U+0000 to U+00FF only the two cases of an ASCII letter match
  a letter of the pattern.\<close>

definition stage_direction_fullmatch :: "string \<Rightarrow> bool" where
  "stage_direction_fullmatch s \<longleftrightarrow> py_lower s \<in> set stage_direction_markers"

text \<open>A match of the pattern at the start of \<open>s\<close>: the length of the marker matched.\<close>

fun startswith_ci :: "string \<Rightarrow> string \<Rightarrow> bool" where
  "startswith_ci s [] = True"
| "startswith_ci [] (p # ps) = False"
| "startswith_ci (c # cs) (p # ps) = (lower_char c = p \<and> startswith_ci cs ps)"

definition stage_direction_match :: "string \<Rightarrow> nat option" where
  "stage_direction_match s =
     map_option length (find (\<lambda>m. startswith_ci s m) stage_direction_markers)"

text \<open>\<^verbatim>\<open>STAGE_DIRECTION_PATTERN.sub("", s)\<close>: the matches are found from left to right and
  deleted; the first argument counts the characters of a match still to skip.\<close>

fun stage_direction_sub :: "nat \<Rightarrow> string \<Rightarrow> string" where
  "stage_direction_sub k [] = []"
| "stage_direction_sub (Suc k) (c # cs) = stage_direction_sub k cs"
| "stage_direction_sub 0 (c # cs) =
     (case stage_direction_match (c # cs) of
        Some n \<Rightarrow> stage_direction_sub (n - 1) cs
      | None \<Rightarrow> c # stage_direction_sub 0 cs)"

text \<open>\<^verbatim>\<open>re.sub(r"\s+", " ", s)\<close>: every maximal run of whitespace becomes one space.\<close>

function collapse_whitespace :: "string \<Rightarrow> string" where
  "collapse_whitespace [] = []"
| "collapse_whitespace (c # cs) =
     (if py_isspace c then CHR '' '' # collapse_whitespace (dropWhile py_isspace cs)
      else c # collapse_whitespace cs)"
  by pat_completeness auto
termination
  by (relation "measure length") (auto simp: less_Suc_eq_le length_dropWhile_le)

definition punctuation :: string where
  "punctuation = '',.!?;:''"

text \<open>\<^verbatim>\<open>re.sub(r"\s+([,.!?;:])", r"\1", s)\<close>: a run of whitespace is deleted when one of the
  six punctuation marks follows it. The greedy \<^verbatim>\<open>\s+\<close> takes the whole run, and no
  shorter run can match, since the character after it would be whitespace.\<close>

function unspace_punctuation :: "string \<Rightarrow> string" where
  "unspace_punctuation [] = []"
| "unspace_punctuation (c # cs) =
     (if py_isspace c then
        (case dropWhile py_isspace cs of
           [] \<Rightarrow> c # unspace_punctuation cs
         | p # rest \<Rightarrow>
             if p \<in> set punctuation then p # unspace_punctuation rest
             else c # unspace_punctuation cs)
      else c # unspace_punctuation cs)"
  by pat_completeness auto
termination
proof (relation "measure length", goal_cases)
  case (3 c cs p rest)
  have "length (dropWhile py_isspace cs) \<le> length cs" by (rule length_dropWhile_le)
  with 3 show ?case by simp
qed auto

text \<open>\<^verbatim>\<open>unicodedata.normalize("NFC", s)\<close>: no character up to U+00FF is a combining mark or
  has a canonical decomposition that composes differently, so the string is unchanged.\<close>

definition nfc :: "string \<Rightarrow> string" where
  "nfc s = s"

definition replace_char :: "char \<Rightarrow> char \<Rightarrow> string \<Rightarrow> string" where
  "replace_char a b s = map (\<lambda>c. if c = a then b else c) s"

text \<open>\<^verbatim>\<open>clean_caption_text(text, keep_tags)\<close>; \<open>None\<close> is Python's \<^verbatim>\<open>None\<close>.\<close>

definition clean_caption_text :: "string option \<Rightarrow> bool \<Rightarrow> string" where
  "clean_caption_text text_opt keep_tags =
     (case text_opt of
        None \<Rightarrow> []
      | Some t \<Rightarrow>
          (let cleaned = nfc t;
               cleaned = (if \<not> keep_tags then stage_direction_sub 0 cleaned else cleaned);
               cleaned = replace_char (CHR 0x0A) CHR '' '' cleaned;
               cleaned = collapse_whitespace cleaned;
               cleaned = unspace_punctuation cleaned
           in py_strip py_isspace cleaned))"

section \<open>Transcript data\<close>

text \<open>A caption entry as \<^verbatim>\<open>normalize_entries\<close> builds it: a dictionary with the keys
  \<^verbatim>\<open>text\<close>, \<^verbatim>\<open>start\<close> and \<^verbatim>\<open>duration\<close>.\<close>

record caption_entry =
  e_text :: string
  e_start :: real
  e_duration :: real

record transcript_selection =
  kind :: string
  source_kind :: "string option"
  language :: string
  translated_to :: "string option"
  entries :: "caption_entry list"

section \<open>Renderer: plain text\<close>

text \<open>The lines \<^verbatim>\<open>write_txt\<close> starts from: the title line when there is a title, the
  source line and an empty line.\<close>

definition txt_header :: "string \<Rightarrow> string \<Rightarrow> string list" where
  "txt_header canonical_url title =
     (if title \<noteq> [] then [''Title: '' @ title] else []) @ [''Source: '' @ canonical_url, []]"

text \<open>One turn of the loop over the entries, from the list \<open>lines\<close> to the list after it.\<close>

definition txt_entry :: "bool \<Rightarrow> bool \<Rightarrow> string list \<Rightarrow> caption_entry \<Rightarrow> string list" where
  "txt_entry include_timestamps keep_tags lines entry =
     (let raw_text = e_text entry;
          is_stage_direction =
            (keep_tags \<and> raw_text \<noteq> [] \<and> stage_direction_fullmatch (py_strip py_isspace raw_text));
          cleaned = clean_caption_text (Some raw_text) keep_tags
      in if \<not> keep_tags \<and> raw_text \<noteq> [] \<and> stage_direction_fullmatch (py_strip py_isspace raw_text)
         then (if lines \<noteq> [] \<and> last lines \<noteq> [] then lines @ [[]] else lines)
         else if cleaned = [] then lines
         else
           (let lines' = (if is_stage_direction \<and> lines \<noteq> [] \<and> last lines \<noteq> []
                          then lines @ [[]] else lines)
            in if include_timestamps
               then lines' @ [format_timestamp (e_start entry) @ '' - '' @ cleaned]
               else lines' @ [cleaned]))"

definition txt_lines ::
  "transcript_selection \<Rightarrow> string \<Rightarrow> string \<Rightarrow> bool \<Rightarrow> bool \<Rightarrow> string list" where
  "txt_lines transcript canonical_url title include_timestamps keep_tags =
     foldl (txt_entry include_timestamps keep_tags) (txt_header canonical_url title)
       (entries transcript)"

text \<open>The text \<^verbatim>\<open>write_txt\<close> writes to the path: the lines joined, trailing whitespace
  stripped, and one newline.\<close>

definition write_txt ::
  "transcript_selection \<Rightarrow> string \<Rightarrow> string \<Rightarrow> bool \<Rightarrow> bool \<Rightarrow> string" where
  "write_txt transcript canonical_url title include_timestamps keep_tags =
     py_rstrip py_isspace
       (join_lines (txt_lines transcript canonical_url title include_timestamps keep_tags))
     @ [CHR 0x0A]"

section \<open>Renderer: document\<close>

text \<open>What \<^verbatim>\<open>write_docx\<close> hands to the document library: paragraphs made of runs. A run
  has a text and is bold or not; a hyperlink has a text and a target.\<close>

datatype run = Run string bool | Hyperlink string string

datatype para = Heading "run list" | Paragraph "run list"

fun run_text :: "run \<Rightarrow> string" where
  "run_text (Run t b) = t"
| "run_text (Hyperlink t u) = t"

fun paragraph_text :: "para \<Rightarrow> string" where
  "paragraph_text (Heading rs) = concat (map run_text rs)"
| "paragraph_text (Paragraph rs) = concat (map run_text rs)"

text \<open>
  The document library (\<^verbatim>\<open>python-docx\<close>, which builds its XML with \<^verbatim>\<open>lxml\<close>) is not part of
  the repository. It keeps the text of a run as XML text, and \<^verbatim>\<open>lxml\<close> refuses a string
  that holds a character XML 1.0 forbids: between U+0000 and U+00FF these are the
  control characters below U+0020 other than tab, line feed and carriage return. The
  refusal is a \<^verbatim>\<open>ValueError\<close> with the message below.
\<close>

definition xml_char :: "char \<Rightarrow> bool" where
  "xml_char c \<longleftrightarrow> (let n = (of_char c :: nat) in n = 9 \<or> n = 10 \<or> n = 13 \<or> 32 \<le> n)"

definition xml_compatible :: "string \<Rightarrow> bool" where
  "xml_compatible s \<longleftrightarrow> list_all xml_char s"

definition xml_error :: raised where
  "xml_error =
     Raised ValueError
       ''All strings must be XML compatible: Unicode or ASCII, no NULL bytes or control characters''"

text \<open>\<^verbatim>\<open>paragraph.add_run(text)\<close>, with the value \<^verbatim>\<open>bold\<close> is set to afterwards, and the local
  function \<^verbatim>\<open>add_hyperlink\<close>, which sets the text of a \<^verbatim>\<open>w:t\<close> element.\<close>

definition add_run :: "string \<Rightarrow> bool \<Rightarrow> raised + run" where
  "add_run t bold = (if xml_compatible t then Inr (Run t bold) else Inl xml_error)"

definition add_hyperlink :: "string \<Rightarrow> string \<Rightarrow> raised + run" where
  "add_hyperlink t url = (if xml_compatible t then Inr (Hyperlink t url) else Inl xml_error)"

text \<open>The heading, the source paragraph and the empty paragraph.\<close>

definition docx_header :: "string \<Rightarrow> string \<Rightarrow> raised + para list" where
  "docx_header canonical_url title =
     (let heading_text = (if title \<noteq> [] then title else ''YouTube Transcript'')
      in and_then (if canonical_url \<noteq> [] then add_hyperlink heading_text canonical_url
                   else add_run heading_text False) (\<lambda>heading_run.
         and_then (add_run ''Source: '' True) (\<lambda>label_run.
         and_then (add_run canonical_url False) (\<lambda>url_run.
           Inr [Heading [heading_run], Paragraph [label_run, url_run], Paragraph []]))))"

text \<open>One turn of the loop: the document and the flag \<^verbatim>\<open>previous_blank\<close>.\<close>

definition docx_entry ::
  "bool \<Rightarrow> bool \<Rightarrow> para list \<times> bool \<Rightarrow> caption_entry \<Rightarrow> raised + (para list \<times> bool)" where
  "docx_entry include_timestamps keep_tags st entry =
     (let document = fst st;
          previous_blank = snd st;
          raw_text = e_text entry;
          is_stage_direction =
            (keep_tags \<and> raw_text \<noteq> [] \<and> stage_direction_fullmatch (py_strip py_isspace raw_text));
          cleaned = clean_caption_text (Some raw_text) keep_tags
      in if \<not> keep_tags \<and> raw_text \<noteq> [] \<and> stage_direction_fullmatch (py_strip py_isspace raw_text)
         then (if \<not> previous_blank then Inr (document @ [Paragraph []], True)
               else Inr (document, previous_blank))
         else if cleaned = [] then Inr (document, previous_blank)
         else
           (let document' = (if is_stage_direction \<and> \<not> previous_blank
                             then document @ [Paragraph []] else document)
            in and_then
                 (if include_timestamps
                  then and_then (add_run (format_timestamp (e_start entry) @ '' - '') True)
                         (\<lambda>stamp_run. Inr [stamp_run])
                  else Inr []) (\<lambda>stamp.
               and_then (add_run cleaned False) (\<lambda>text_run.
                 Inr (document' @ [Paragraph (stamp @ [text_run])], False)))))"

text \<open>The loop over the entries; an exception ends it.\<close>

fun docx_entries ::
  "bool \<Rightarrow> bool \<Rightarrow> para list \<times> bool \<Rightarrow> caption_entry list \<Rightarrow> raised + (para list \<times> bool)" where
  "docx_entries include_timestamps keep_tags st [] = Inr st"
| "docx_entries include_timestamps keep_tags st (entry # rest) =
     and_then (docx_entry include_timestamps keep_tags st entry)
       (\<lambda>st'. docx_entries include_timestamps keep_tags st' rest)"

definition docx_paragraphs ::
  "transcript_selection \<Rightarrow> string \<Rightarrow> string \<Rightarrow> bool \<Rightarrow> bool \<Rightarrow> raised + para list" where
  "docx_paragraphs transcript canonical_url title include_timestamps keep_tags =
     and_then (docx_header canonical_url title) (\<lambda>header.
     and_then (docx_entries include_timestamps keep_tags (header, True) (entries transcript))
       (\<lambda>st. Inr (fst st)))"

text \<open>\<^verbatim>\<open>write_docx\<close>: without the document library it fails with its own error; with it, an
  exception of the library is not caught and nothing is saved, and otherwise the
  paragraphs are saved as they are.\<close>

definition write_docx ::
  "bool \<Rightarrow> transcript_selection \<Rightarrow> string \<Rightarrow> string \<Rightarrow> bool \<Rightarrow> bool \<Rightarrow> failure + para list" where
  "write_docx docx_installed transcript canonical_url title include_timestamps keep_tags =
     (if \<not> docx_installed
      then Inl (CliError ''Missing dependency 'python-docx'. Install it with pip before using --docx.'')
      else (case docx_paragraphs transcript canonical_url title include_timestamps keep_tags of
              Inl err \<Rightarrow> Inl (Uncaught err)
            | Inr document \<Rightarrow> Inr document))"

section \<open>Transcript Resolver\<close>

subsection \<open>The captions library, as the program sees it\<close>

text \<open>An entry as the library hands it over: a dictionary or an object with attributes;
  either may lack \<^verbatim>\<open>text\<close>, \<^verbatim>\<open>start\<close> or \<^verbatim>\<open>duration\<close> (\<open>None\<close> here).\<close>

datatype raw_item =
    DictItem "string option" "real option" "real option"
  | AttrItem "string option" "real option" "real option"

text \<open>A translated track: its language code and what \<^verbatim>\<open>fetch()\<close> does.\<close>

record fetched_track =
  ft_language_code :: string
  ft_fetch :: "raised + raw_item list"

text \<open>A track of the transcript list: its language code, what \<^verbatim>\<open>fetch()\<close> does and what
  \<^verbatim>\<open>translate(target)\<close> does.\<close>

record track =
  t_language_code :: string
  t_fetch :: "raised + raw_item list"
  t_translate :: "string \<Rightarrow> raised + fetched_track"

text \<open>The transcript list with its two find operations, each taking the ordered language
  preferences.\<close>

record transcript_list =
  find_generated_transcript :: "string list \<Rightarrow> raised + track"
  find_manually_created_transcript :: "string list \<Rightarrow> raised + track"

text \<open>The surroundings of a run: whether the captions library can be imported, and what
  the \<open>n\<close>-th call of \<^verbatim>\<open>api.list(video_id)\<close> does (\<open>n\<close> from 0).\<close>

record environment =
  api_installed :: bool
  api_list :: "string \<Rightarrow> nat \<Rightarrow> raised + transcript_list"

text \<open>
  Modelled from the spec: the find operations are part of the captions library, which
  is not in the repository. Within a category the first track matching the
  preferred-language list in order is selected, and a "not found" signal is raised when
  no track of the category matches.
\<close>

fun find_transcript :: "track list \<Rightarrow> string list \<Rightarrow> raised + track" where
  "find_transcript tracks [] = Inl (Raised NoTranscriptFound ''No transcripts were found'')"
| "find_transcript tracks (code # codes) =
     (case find (\<lambda>t. t_language_code t = code) tracks of
        Some t \<Rightarrow> Inr t
      | None \<Rightarrow> find_transcript tracks codes)"

definition transcript_list_of :: "track list \<Rightarrow> track list \<Rightarrow> transcript_list" where
  "transcript_list_of generated manual =
     \<lparr>find_generated_transcript = find_transcript generated,
      find_manually_created_transcript = find_transcript manual\<rparr>"

subsection \<open>What a run does besides returning\<close>

text \<open>The calls of \<^verbatim>\<open>api.list\<close>, the sleeps and the log records at level warning and info,
  in the order they happen (debug records are left out).\<close>

datatype event =
    ApiList string
  | Sleep real
  | RetryWarning int int string real
  | TranslationUnavailableWarning string string
  | TranslationFailedWarning string string
  | UsingTranslatedInfo string string
  | UsingCaptionsInfo string string

definition sleeps :: "event list \<Rightarrow> real list" where
  "sleeps evs = concat (map (\<lambda>e. case e of Sleep d \<Rightarrow> [d] | _ \<Rightarrow> []) evs)"

definition list_calls :: "event list \<Rightarrow> nat" where
  "list_calls evs = length (filter (\<lambda>e. case e of ApiList v \<Rightarrow> True | _ \<Rightarrow> False) evs)"

subsection \<open>Language preferences\<close>

definition DEFAULT_LANG_PREF :: string where
  "DEFAULT_LANG_PREF = ''en,en-US,en-GB''"

definition expand_language_list :: "string \<Rightarrow> string list" where
  "expand_language_list lang_option =
     (if lang_option = [] then []
      else filter (\<lambda>code. code \<noteq> []) (map (py_strip py_isspace) (split_on CHR '','' lang_option)))"

text \<open>\<^verbatim>\<open>list(dict.fromkeys(xs))\<close>: the first occurrence of each element, in order.\<close>

definition dict_fromkeys :: "string list \<Rightarrow> string list" where
  "dict_fromkeys xs = rev (remdups (rev xs))"

text \<open>The preferences \<^verbatim>\<open>fetch_transcript\<close> searches with.\<close>

definition language_preferences_of :: "string list \<Rightarrow> string list" where
  "language_preferences_of languages =
     (if languages \<noteq> [] then dict_fromkeys languages
      else expand_language_list DEFAULT_LANG_PREF)"

subsection \<open>List retrieval with retry\<close>

text \<open>The except clause \<^verbatim>\<open>except YouTubeTranscriptApiException\<close> catches the classes of the
  library's hierarchy.\<close>

definition is_api_exception :: "exc_class \<Rightarrow> bool" where
  "is_api_exception c \<longleftrightarrow> c \<noteq> ValueError \<and> c \<noteq> OtherException"

definition retry_delay :: "nat \<Rightarrow> real" where
  "retry_delay attempt = min 5 (3 / 2 * (real attempt + 1))"

text \<open>The loop \<^verbatim>\<open>for attempt in range(retries + 1)\<close> from turn \<open>attempt\<close> on. The result is
  the failure raised, or the value of \<^verbatim>\<open>transcripts\<close> after the loop (\<open>None\<close> when the
  range is empty), with the events of the loop.\<close>

function list_transcripts ::
  "(nat \<Rightarrow> raised + transcript_list) \<Rightarrow> string \<Rightarrow> int \<Rightarrow> nat \<Rightarrow>
   (failure + transcript_list option) \<times> event list" where
  "list_transcripts calls video_id retries attempt =
     (if \<not> int attempt < retries + 1 then (Inr None, [])
      else
        (case calls attempt of
           Inr transcripts \<Rightarrow> (Inr (Some transcripts), [ApiList video_id])
         | Inl (Raised c msg) \<Rightarrow>
             if c = VideoUnavailable
             then (Inl (CliError ''The video is unavailable or restricted in this region.''),
                   [ApiList video_id])
             else if c = TranscriptsDisabled
             then (Inl (CliError ''Captions are disabled for this video.''), [ApiList video_id])
             else if is_api_exception c
             then
               (if int attempt = retries
                then (Inl (CliError (''Failed to fetch transcript list: '' @ msg)),
                      [ApiList video_id])
                else
                  (let delay = retry_delay attempt;
                       rest = list_transcripts calls video_id retries (attempt + 1)
                   in (fst rest,
                       [ApiList video_id,
                        RetryWarning (int attempt + 1) (retries + 1) msg delay,
                        Sleep delay] @ snd rest)))
             else (Inl (Uncaught (Raised c msg)), [ApiList video_id])))"
  by pat_completeness auto
termination
  by (relation "measure (\<lambda>(calls, video_id, retries, attempt). nat (retries + 1 - int attempt))")
     auto

declare list_transcripts.simps [simp del]

text \<open>The failures of \<^verbatim>\<open>api.list\<close> that the loop answers with another attempt: the classes
  of the library's hierarchy but for the two definitive ones.\<close>

definition retryable :: "exc_class \<Rightarrow> bool" where
  "retryable c \<longleftrightarrow> is_api_exception c \<and> c \<noteq> VideoUnavailable \<and> c \<noteq> TranscriptsDisabled"

text \<open>Surroundings in which every call of \<^verbatim>\<open>api.list\<close> raises the same exception.\<close>

definition failing_list_env :: "exc_class \<Rightarrow> string \<Rightarrow> environment" where
  "failing_list_env c msg = \<lparr>api_installed = True, api_list = (\<lambda>video_id n. Inl (Raised c msg))\<rparr>"

subsection \<open>Track selection\<close>

definition search_order ::
  "transcript_list \<Rightarrow> bool \<Rightarrow> (string \<times> (string list \<Rightarrow> raised + track)) list" where
  "search_order transcripts prefer_generated =
     (let order = [(''generated'', find_generated_transcript transcripts),
                   (''manual'', find_manually_created_transcript transcripts)]
      in if \<not> prefer_generated then rev order else order)"

text \<open>The loop over the search order: the track chosen with its kind, \<open>None\<close> when no finder
  found one; an exception other than \<^verbatim>\<open>NoTranscriptFound\<close> is not caught.\<close>

fun select_track ::
  "(string \<times> (string list \<Rightarrow> raised + track)) list \<Rightarrow> string list \<Rightarrow>
   failure + (track \<times> string) option" where
  "select_track [] language_preferences = Inr None"
| "select_track ((knd, finder) # rest) language_preferences =
     (case finder language_preferences of
        Inr chosen \<Rightarrow> Inr (Some (chosen, knd))
      | Inl (Raised c msg) \<Rightarrow>
          if c = NoTranscriptFound then select_track rest language_preferences
          else Inl (Uncaught (Raised c msg)))"

subsection \<open>Entries and translation\<close>

fun normalize_entry :: "raw_item \<Rightarrow> caption_entry" where
  "normalize_entry (DictItem t s d) =
     \<lparr>e_text = (case t of None \<Rightarrow> [] | Some x \<Rightarrow> x),
      e_start = (case s of None \<Rightarrow> 0 | Some x \<Rightarrow> x),
      e_duration = (case d of None \<Rightarrow> 0 | Some x \<Rightarrow> x)\<rparr>"
| "normalize_entry (AttrItem t s d) =
     \<lparr>e_text = (case t of None \<Rightarrow> [] | Some x \<Rightarrow> x),
      e_start = (case s of None \<Rightarrow> 0 | Some x \<Rightarrow> x),
      e_duration = (case d of None \<Rightarrow> 0 | Some x \<Rightarrow> x)\<rparr>"

definition normalize_entries :: "raw_item list \<Rightarrow> caption_entry list" where
  "normalize_entries raw_entries = map normalize_entry raw_entries"

text \<open>The selection returned when the original track is used.\<close>

definition original_selection ::
  "track \<Rightarrow> string \<Rightarrow> raw_item list \<Rightarrow> transcript_selection \<times> event list" where
  "original_selection chosen chosen_kind base_entries =
     (let language_code = t_language_code chosen;
          normalized_entries = normalize_entries base_entries;
          label = (if chosen_kind = ''generated'' then ''auto-generated'' else ''manual'');
          knd = (if chosen_kind \<noteq> [] then chosen_kind else ''manual'')
      in (\<lparr>kind = knd, source_kind = Some knd, language = language_code,
           translated_to = None, entries = normalized_entries\<rparr>,
          [UsingCaptionsInfo label language_code]))"

text \<open>The handlers of the \<^verbatim>\<open>try\<close> around \<^verbatim>\<open>translate\<close> and the translated \<^verbatim>\<open>fetch\<close>.\<close>

definition translation_failed ::
  "track \<Rightarrow> string \<Rightarrow> raw_item list \<Rightarrow> string \<Rightarrow> raised \<Rightarrow>
   (failure + transcript_selection) \<times> event list" where
  "translation_failed chosen chosen_kind base_entries translation_target err =
     (case err of Raised c msg \<Rightarrow>
        if c = NoTranscriptFound \<or> c = NotTranslatable \<or> c = TranslationLanguageNotAvailable
        then (let r = original_selection chosen chosen_kind base_entries
              in (Inr (fst r),
                  TranslationUnavailableWarning translation_target (t_language_code chosen) # snd r))
        else if is_api_exception c
        then (let r = original_selection chosen chosen_kind base_entries
              in (Inr (fst r), TranslationFailedWarning translation_target msg # snd r))
        else (Inl (Uncaught err), []))"

text \<open>From \<^verbatim>\<open>translation_target = ...\<close> to the end of \<^verbatim>\<open>fetch_transcript\<close>.\<close>

definition resolve_entries ::
  "track \<Rightarrow> string \<Rightarrow> string option \<Rightarrow> (failure + transcript_selection) \<times> event list" where
  "resolve_entries chosen chosen_kind translate_to =
     (let translation_target =
            (case translate_to of
               None \<Rightarrow> None
             | Some s \<Rightarrow> if s \<noteq> [] then Some (py_strip py_isspace s) else None)
      in case t_fetch chosen of
           Inl (Raised c msg) \<Rightarrow>
             (Inl (CliError (''Failed to download transcript entries: '' @ msg)), [])
         | Inr base_entries \<Rightarrow>
             (case translation_target of
                None \<Rightarrow>
                  (let r = original_selection chosen chosen_kind base_entries in (Inr (fst r), snd r))
              | Some target \<Rightarrow>
                  if target = []
                  then (let r = original_selection chosen chosen_kind base_entries
                        in (Inr (fst r), snd r))
                  else
                    (case t_translate chosen target of
                       Inl err \<Rightarrow> translation_failed chosen chosen_kind base_entries target err
                     | Inr translated \<Rightarrow>
                         (case ft_fetch translated of
                            Inl err \<Rightarrow>
                              translation_failed chosen chosen_kind base_entries target err
                          | Inr translated_entries \<Rightarrow>
                              (Inr \<lparr>kind = ''translated'',
                                    source_kind =
                                      Some (if chosen_kind \<noteq> [] then chosen_kind else ''manual''),
                                    language = ft_language_code translated,
                                    translated_to = Some target,
                                    entries = normalize_entries translated_entries\<rparr>,
                               [UsingTranslatedInfo target (t_language_code chosen)])))))"

subsection \<open>The whole of \<^verbatim>\<open>fetch_transcript\<close>\<close>

definition fetch_transcript ::
  "environment \<Rightarrow> string \<Rightarrow> bool \<Rightarrow> string list \<Rightarrow> string option \<Rightarrow> int \<Rightarrow>
   (failure + transcript_selection) \<times> event list" where
  "fetch_transcript env video_id prefer_generated languages translate_to retries =
     (if \<not> api_installed env
      then (Inl (CliError ''Missing dependency 'youtube-transcript-api'. Install it with pip before running this script.''), [])
      else
        (let listed = list_transcripts (api_list env video_id) video_id retries 0
         in case fst listed of
              Inl f \<Rightarrow> (Inl f, snd listed)
            | Inr None \<Rightarrow>
                (Inl (CliError ''Unable to fetch transcript metadata after multiple attempts.''),
                 snd listed)
            | Inr (Some transcripts) \<Rightarrow>
                (case select_track (search_order transcripts prefer_generated)
                        (language_preferences_of languages) of
                   Inl f \<Rightarrow> (Inl f, snd listed)
                 | Inr None \<Rightarrow>
                     (Inl (CliError ''No manual or auto captions available for this video.''),
                      snd listed)
                 | Inr (Some (chosen, chosen_kind)) \<Rightarrow>
                     (let r = resolve_entries chosen chosen_kind translate_to
                      in (fst r, snd listed @ snd r)))))"

subsection \<open>Sample surroundings\<close>

text \<open>A track with one entry, and surroundings whose first call of \<^verbatim>\<open>api.list\<close> answers
  with the given generated and manual tracks.\<close>

definition example_track :: "string \<Rightarrow> (string \<Rightarrow> raised + fetched_track) \<Rightarrow> track" where
  "example_track code tr =
     \<lparr>t_language_code = code,
      t_fetch = Inr [DictItem (Some ''Hello, world.'') (Some 0) (Some 2)],
      t_translate = tr\<rparr>"

definition example_env :: "track list \<Rightarrow> track list \<Rightarrow> environment" where
  "example_env generated manual =
     \<lparr>api_installed = True,
      api_list = (\<lambda>video_id n. Inr (transcript_list_of generated manual))\<rparr>"

text \<open>A \<^verbatim>\<open>translate\<close> that refuses every target language.\<close>

definition untranslatable :: "string \<Rightarrow> raised + fetched_track" where
  "untranslatable target = Inl (Raised NotTranslatable ''The requested language is not translatable'')"

text \<open>A \<^verbatim>\<open>translate\<close> whose translated track cannot be fetched, and one that loses the
  connection.\<close>

definition translated_fetch_fails :: "string \<Rightarrow> raised + fetched_track" where
  "translated_fetch_fails target =
     Inr \<lparr>ft_language_code = target,
          ft_fetch = Inl (Raised YouTubeTranscriptApiException ''HTTP 429'')\<rparr>"

definition connection_lost :: "string \<Rightarrow> raised + fetched_track" where
  "connection_lost target = Inl (Raised OtherException ''Connection reset by peer'')"

section \<open>Video Reference Resolver\<close>

subsection \<open>Identifiers\<close>

text \<open>\<^verbatim>\<open>VIDEO_ID_PATTERN.fullmatch(s)\<close>: eleven characters out of \<^verbatim>\<open>[A-Za-z0-9_-]\<close>.\<close>

definition id_char :: "char \<Rightarrow> bool" where
  "id_char c \<longleftrightarrow>
     (let n = (of_char c :: nat)
      in (65 \<le> n \<and> n \<le> 90) \<or> (97 \<le> n \<and> n \<le> 122) \<or> (48 \<le> n \<and> n \<le> 57) \<or>
         c = CHR ''_'' \<or> c = CHR ''-'')"

definition is_video_id :: "string \<Rightarrow> bool" where
  "is_video_id s \<longleftrightarrow> length s = 11 \<and> list_all id_char s"

definition canonical_url_of :: "string \<Rightarrow> string" where
  "canonical_url_of video_id = ''https://www.youtube.com/watch?v='' @ video_id"

subsection \<open>\<^verbatim>\<open>repr\<close> of a string\<close>

definition hex_digit :: "nat \<Rightarrow> char" where
  "hex_digit d = (''0123456789abcdef'' ! d)"

text \<open>Unprintable between U+0000 and U+00FF: the control characters, the no-break space
  and the soft hyphen.\<close>

definition repr_char :: "char \<Rightarrow> char \<Rightarrow> string" where
  "repr_char quote c =
     (let n = (of_char c :: nat)
      in if c = quote \<or> c = CHR 0x5C then [CHR 0x5C, c]
         else if c = CHR 0x09 then [CHR 0x5C, CHR ''t'']
         else if c = CHR 0x0A then [CHR 0x5C, CHR ''n'']
         else if c = CHR 0x0D then [CHR 0x5C, CHR ''r'']
         else if n < 32 \<or> (127 \<le> n \<and> n \<le> 160) \<or> n = 173
         then [CHR 0x5C, CHR ''x'', hex_digit (n div 16), hex_digit (n mod 16)]
         else [c])"

definition py_repr :: "string \<Rightarrow> string" where
  "py_repr s =
     (let quote = (if CHR 0x27 \<in> set s \<and> CHR 0x22 \<notin> set s then CHR 0x22 else CHR 0x27)
      in [quote] @ concat (map (repr_char quote) s) @ [quote])"

subsection \<open>The standard library's URL functions\<close>

text \<open>
  \<^verbatim>\<open>urllib.parse\<close> is not part of the repository; the following follows CPython 3.11.
  Two of its steps are left open as parameters: the check of an address in square
  brackets (module \<^verbatim>\<open>ipaddress\<close>), which answers with an error message or with \<open>None\<close>,
  and the decoding of percent escapes in a string that holds a percent sign.
\<close>

record url_library =
  bracketed_host_error :: "string \<Rightarrow> string option"
  percent_decode :: "string \<Rightarrow> string"

record parse_result =
  pr_scheme :: string
  pr_netloc :: string
  pr_path :: string
  pr_params :: string
  pr_query :: string
  pr_fragment :: string

definition scheme_chars :: string where
  "scheme_chars = ''abcdefghijklmnopqrstuvwxyzABCDEFGHIJKLMNOPQRSTUVWXYZ0123456789+-.''"

definition uses_params :: "string list" where
  "uses_params = ['''', ''ftp'', ''hdl'', ''prospero'', ''http'', ''imap'', ''https'', ''shttp'',
                  ''rtsp'', ''rtsps'', ''rtspu'', ''sip'', ''sips'', ''mms'', ''sftp'', ''tel'']"

definition ascii_alpha :: "char \<Rightarrow> bool" where
  "ascii_alpha c \<longleftrightarrow>
     (let n = (of_char c :: nat) in (65 \<le> n \<and> n \<le> 90) \<or> (97 \<le> n \<and> n \<le> 122))"

text \<open>\<^verbatim>\<open>s.partition(c)\<close>: the part before the first \<open>c\<close> and the part after it (empty when
  there is none).\<close>

definition before_char :: "char \<Rightarrow> string \<Rightarrow> string" where
  "before_char c s = takeWhile (\<lambda>x. x \<noteq> c) s"

definition after_char :: "char \<Rightarrow> string \<Rightarrow> string" where
  "after_char c s = drop 1 (dropWhile (\<lambda>x. x \<noteq> c) s)"

text \<open>The scheme of \<^verbatim>\<open>urlsplit\<close>: the text before the first colon, when it starts with an
  ASCII letter and is made of scheme characters.\<close>

definition split_scheme :: "string \<Rightarrow> string \<times> string" where
  "split_scheme url =
     (if CHR '':'' \<in> set url \<and> before_char CHR '':'' url \<noteq> [] \<and> ascii_alpha (hd url) \<and>
         list_all (\<lambda>c. c \<in> set scheme_chars) (before_char CHR '':'' url)
      then (py_lower (before_char CHR '':'' url), after_char CHR '':'' url)
      else ([], url))"

definition netloc_end :: "char \<Rightarrow> bool" where
  "netloc_end c \<longleftrightarrow> c = CHR ''/'' \<or> c = CHR ''?'' \<or> c = CHR ''#''"

definition py_urlsplit ::
  "url_library \<Rightarrow> string \<Rightarrow> raised + (string \<times> string \<times> string \<times> string \<times> string)" where
  "py_urlsplit lib url0 =
     (let url1 = dropWhile (\<lambda>c. (of_char c :: nat) \<le> 32) url0;
          url2 = filter (\<lambda>c. c \<noteq> CHR 0x09 \<and> c \<noteq> CHR 0x0D \<and> c \<noteq> CHR 0x0A) url1;
          scheme = fst (split_scheme url2);
          url3 = snd (split_scheme url2);
          has_netloc = (take 2 url3 = ''//'');
          netloc = (if has_netloc then takeWhile (\<lambda>c. \<not> netloc_end c) (drop 2 url3) else []);
          url4 = (if has_netloc then dropWhile (\<lambda>c. \<not> netloc_end c) (drop 2 url3) else url3);
          fragment = (if CHR ''#'' \<in> set url4 then after_char CHR ''#'' url4 else []);
          url5 = before_char CHR ''#'' url4;
          query = (if CHR ''?'' \<in> set url5 then after_char CHR ''?'' url5 else []);
          url6 = before_char CHR ''?'' url5
      in if (CHR ''['' \<in> set netloc \<and> CHR '']'' \<notin> set netloc) \<or>
            (CHR '']'' \<in> set netloc \<and> CHR ''['' \<notin> set netloc)
         then Inl (Raised ValueError ''Invalid IPv6 URL'')
         else
           (case (if CHR ''['' \<in> set netloc \<and> CHR '']'' \<in> set netloc
                  then bracketed_host_error lib
                         (before_char CHR '']'' (after_char CHR ''['' netloc))
                  else None) of
              Some msg \<Rightarrow> Inl (Raised ValueError msg)
            | None \<Rightarrow> Inr (scheme, netloc, url6, query, fragment)))"

text \<open>\<^verbatim>\<open>_splitparams\<close>: the parameters follow the first semicolon of the last path segment.\<close>

definition split_params :: "string \<Rightarrow> string \<times> string" where
  "split_params url =
     (if CHR ''/'' \<in> set url
      then (let last_segment = rev (takeWhile (\<lambda>c. c \<noteq> CHR ''/'') (rev url));
                head = take (length url - length last_segment) url
            in if CHR '';'' \<in> set last_segment
               then (head @ before_char CHR '';'' last_segment, after_char CHR '';'' last_segment)
               else (url, []))
      else (before_char CHR '';'' url, after_char CHR '';'' url))"

definition py_urlparse :: "url_library \<Rightarrow> string \<Rightarrow> raised + parse_result" where
  "py_urlparse lib url =
     (case py_urlsplit lib url of
        Inl err \<Rightarrow> Inl err
      | Inr (scheme, netloc, p, query, fragment) \<Rightarrow>
          (let sp = (if scheme \<in> set uses_params \<and> CHR '';'' \<in> set p
                     then split_params p else (p, []))
           in Inr \<lparr>pr_scheme = scheme, pr_netloc = netloc, pr_path = fst sp,
                   pr_params = snd sp, pr_query = query, pr_fragment = fragment\<rparr>))"

text \<open>\<^verbatim>\<open>unquote_plus\<close>: plus signs become spaces, then percent escapes are decoded; a string
  without a percent sign is returned as it is.\<close>

definition unquote_plus :: "url_library \<Rightarrow> string \<Rightarrow> string" where
  "unquote_plus lib s =
     (let s' = replace_char CHR ''+'' CHR '' '' s
      in if CHR ''%'' \<in> set s' then percent_decode lib s' else s')"

text \<open>\<^verbatim>\<open>parse_qsl\<close> with its default arguments: the fields between ampersands that have a
  non-empty value after their first equals sign.\<close>

definition parse_qsl :: "url_library \<Rightarrow> string \<Rightarrow> (string \<times> string) list" where
  "parse_qsl lib qs =
     (if qs = [] then []
      else map (\<lambda>nv. (unquote_plus lib (before_char CHR ''='' nv),
                       unquote_plus lib (after_char CHR ''='' nv)))
             (filter (\<lambda>nv. nv \<noteq> [] \<and> after_char CHR ''='' nv \<noteq> [])
                (split_on CHR ''&'' qs)))"

text \<open>\<^verbatim>\<open>parse_qs(query).get("v", [None])[0]\<close>: the dictionary lists the values of a name in
  the order of the fields, so this is the value of the first field named \<open>v\<close>, or \<open>None\<close>.\<close>

definition query_v :: "url_library \<Rightarrow> string \<Rightarrow> string option" where
  "query_v lib query = map_of (parse_qsl lib query) ''v''"

subsection \<open>The resolver\<close>

definition normalize_url :: "string \<Rightarrow> string" where
  "normalize_url url_or_id =
     (if startswith url_or_id ''www.'' then ''https://'' @ url_or_id else url_or_id)"

definition path_segments_of :: "string \<Rightarrow> string list" where
  "path_segments_of p = filter (\<lambda>segment. segment \<noteq> []) (split_on CHR ''/'' p)"

text \<open>The value of \<^verbatim>\<open>video_id\<close> after the chain of tests on host and path.\<close>

definition locate_video_id :: "url_library \<Rightarrow> parse_result \<Rightarrow> string option" where
  "locate_video_id lib parsed =
     (let host = py_lower (pr_netloc parsed);
          path_segments = path_segments_of (pr_path parsed)
      in if endswith host ''youtu.be''
         then (case path_segments of [] \<Rightarrow> None | first_segment # rest \<Rightarrow> Some first_segment)
         else if contains_str host ''youtube.com''
         then (if startswith (pr_path parsed) ''/watch'' then query_v lib (pr_query parsed)
               else
                 (case path_segments of
                    [] \<Rightarrow> None
                  | first_segment # rest \<Rightarrow>
                      if first_segment \<in> set [''shorts'', ''embed'', ''live''] \<and>
                         length path_segments \<ge> 2
                      then Some (path_segments ! 1) else None))
         else None)"

definition extract_video_id :: "url_library \<Rightarrow> string \<Rightarrow> failure + (string \<times> string)" where
  "extract_video_id lib url_or_id =
     (let candidate = py_strip py_isspace url_or_id
      in if candidate = []
         then Inl (CliError ''You must provide a YouTube URL or 11-character video ID.'')
         else if is_video_id candidate
         then Inr (candidate, canonical_url_of candidate)
         else
           (case py_urlparse lib (normalize_url candidate) of
              Inl err \<Rightarrow> Inl (Uncaught err)
            | Inr parsed \<Rightarrow>
                (case locate_video_id lib parsed of
                   None \<Rightarrow>
                     Inl (CliError (''Unable to locate a valid video ID in input: '' @
                                    py_repr url_or_id))
                 | Some video_id \<Rightarrow>
                     if video_id = []
                     then Inl (CliError (''Unable to locate a valid video ID in input: '' @
                                         py_repr url_or_id))
                     else if \<not> is_video_id video_id
                     then Inl (CliError (''Invalid video ID extracted: '' @ py_repr video_id))
                     else Inr (video_id, canonical_url_of video_id))))"

text \<open>A library whose open steps accept every bracketed host and leave percent escapes
  as they are; the inputs it is used on have neither.\<close>

definition plain_library :: url_library where
  "plain_library = \<lparr>bracketed_host_error = (\<lambda>h. None), percent_decode = (\<lambda>s. s)\<rparr>"

section \<open>Filename Sanitizer\<close>

text \<open>\<^verbatim>\<open>unicodedata.category(char)\<close> for the characters U+0000 to U+00FF, by code point.\<close>

definition unicode_category :: "char \<Rightarrow> string" where
  "unicode_category c =
     (let n = (of_char c :: nat)
      in
         if (97 \<le> n \<and> n \<le> 122) \<or> n = 181 \<or> (223 \<le> n \<and> n \<le> 246) \<or> (248 \<le> n \<and> n \<le> 255) then ''Ll''
         else if (65 \<le> n \<and> n \<le> 90) \<or> (192 \<le> n \<and> n \<le> 214) \<or> (216 \<le> n \<and> n \<le> 222) then ''Lu''
         else if (48 \<le> n \<and> n \<le> 57) then ''Nd''
         else if n = 32 \<or> n = 160 then ''Zs''
         else if (33 \<le> n \<and> n \<le> 35) \<or> (37 \<le> n \<and> n \<le> 39) \<or> n = 42 \<or> n = 44 \<or> n = 46 \<or> n = 47 \<or> n = 58 \<or> n = 59 \<or> n = 63 \<or> n = 64 \<or> n = 92 \<or> n = 161 \<or> n = 167 \<or> n = 182 \<or> n = 183 \<or> n = 191 then ''Po''
         else if (0 \<le> n \<and> n \<le> 31) \<or> (127 \<le> n \<and> n \<le> 159) then ''Cc''
         else if n = 173 then ''Cf''
         else if n = 166 \<or> n = 169 \<or> n = 174 \<or> n = 176 then ''So''
         else if n = 170 \<or> n = 186 then ''Lo''
         else if n = 178 \<or> n = 179 \<or> n = 185 \<or> (188 \<le> n \<and> n \<le> 190) then ''No''
         else if n = 95 then ''Pc''
         else if n = 45 then ''Pd''
         else if n = 41 \<or> n = 93 \<or> n = 125 then ''Pe''
         else if n = 187 then ''Pf''
         else if n = 171 then ''Pi''
         else if n = 40 \<or> n = 91 \<or> n = 123 then ''Ps''
         else if n = 36 \<or> (162 \<le> n \<and> n \<le> 165) then ''Sc''
         else if n = 94 \<or> n = 96 \<or> n = 168 \<or> n = 175 \<or> n = 180 \<or> n = 184 then ''Sk''
         else ''Sm'')"

definition illegal_chars :: string where
  "illegal_chars =
     [CHR 0x5C, CHR ''/'', CHR '':'', CHR ''*'', CHR ''?'', CHR 0x22, CHR ''<'', CHR ''>'', CHR ''|'']"

text \<open>The filter of the first loop: the characters that are appended to
  \<^verbatim>\<open>filtered_chars\<close>.\<close>

definition keep_char :: "char \<Rightarrow> bool" where
  "keep_char c \<longleftrightarrow>
     (let category = unicode_category c
      in \<not> (startswith category ''Cc'' \<or> startswith category ''Cf'') \<and>
         \<not> (startswith category ''Cs'' \<or> startswith category ''Co'') \<and>
         category \<noteq> ''So'' \<and>
         c \<notin> set illegal_chars)"

definition is_ascii :: "char \<Rightarrow> bool" where
  "is_ascii c \<longleftrightarrow> (of_char c :: nat) < 128"

text \<open>\<^verbatim>\<open>s.encode("ascii", "ignore").decode("ascii")\<close>.\<close>

definition ascii_only :: "string \<Rightarrow> string" where
  "ascii_only s = filter is_ascii s"

text \<open>
  The package \<^verbatim>\<open>unidecode\<close> is optional and not part of the repository. Its function
  leaves ASCII characters as they are and replaces every other character by the string
  its table gives for it; the table is a parameter here.
\<close>

definition unidecode :: "(char \<Rightarrow> string) \<Rightarrow> string \<Rightarrow> string" where
  "unidecode table s = concat (map (\<lambda>c. if is_ascii c then [c] else table c) s)"

definition dot_or_space :: "char \<Rightarrow> bool" where
  "dot_or_space c \<longleftrightarrow> c = CHR '' '' \<or> c = CHR ''.''"

text \<open>\<^verbatim>\<open>s.upper()\<close> on an ASCII string.\<close>

definition upper_char :: "char \<Rightarrow> char" where
  "upper_char c =
     (let n = (of_char c :: nat) in if 97 \<le> n \<and> n \<le> 122 then char_of (n - 32) else c)"

definition py_upper :: "string \<Rightarrow> string" where
  "py_upper s = map upper_char s"

definition windows_reserved :: "string list" where
  "windows_reserved =
     [''CON'', ''PRN'', ''AUX'', ''NUL''] @
     map (\<lambda>i. ''COM'' @ str_nat i) [1..<10] @ map (\<lambda>i. ''LPT'' @ str_nat i) [1..<10]"

text \<open>\<^verbatim>\<open>sanitize_filename(base)\<close>; the first argument is the table of \<^verbatim>\<open>unidecode\<close> when
  the package can be imported, and \<open>None\<close> when it cannot.\<close>

definition sanitize_filename :: "(char \<Rightarrow> string) option \<Rightarrow> string \<Rightarrow> string" where
  "sanitize_filename unidecode_table base =
     (if base = [] then []
      else
        (let txt = nfc base;
             sanitized = filter keep_char txt;
             sanitized = collapse_whitespace sanitized;
             sanitized = unspace_punctuation sanitized;
             sanitized = py_strip dot_or_space sanitized;
             sanitized = (case unidecode_table of
                            None \<Rightarrow> ascii_only sanitized
                          | Some table \<Rightarrow> unidecode table sanitized);
             sanitized = ascii_only sanitized;
             sanitized = py_strip dot_or_space (collapse_whitespace sanitized);
             sanitized = (if length sanitized > 200
                          then py_rstrip py_isspace (take 200 sanitized) else sanitized);
             sanitized = (if py_upper sanitized \<in> set windows_reserved
                          then sanitized @ ''_'' else sanitized)
         in sanitized))"

text \<open>
  Characters that every step of the sanitizer leaves alone: kept by the filter, not white
  space, and ASCII.
\<close>

definition plain_char :: "char \<Rightarrow> bool" where
  "plain_char c \<longleftrightarrow> keep_char c \<and> \<not> py_isspace c \<and> is_ascii c"

text \<open>
  The function in two parts: \<^verbatim>\<open>sanitize_cleaned\<close> is the value of \<^verbatim>\<open>sanitized\<close> after the
  second \<^verbatim>\<open>.strip(" .")\<close>, and \<^verbatim>\<open>sanitize_finish\<close> is the truncation followed by the
  test for reserved names.
\<close>

definition sanitize_cleaned :: "(char \<Rightarrow> string) option \<Rightarrow> string \<Rightarrow> string" where
  "sanitize_cleaned unidecode_table base =
     py_strip dot_or_space (collapse_whitespace (ascii_only
       (case unidecode_table of
          None \<Rightarrow> ascii_only (py_strip dot_or_space (unspace_punctuation
                    (collapse_whitespace (filter keep_char (nfc base)))))
        | Some table \<Rightarrow> unidecode table (py_strip dot_or_space (unspace_punctuation
                    (collapse_whitespace (filter keep_char (nfc base))))))))"

definition sanitize_finish :: "string \<Rightarrow> string" where
  "sanitize_finish u =
     (let w = (if length u > 200 then py_rstrip py_isspace (take 200 u) else u)
      in if py_upper w \<in> set windows_reserved then w @ ''_'' else w)"

section \<open>Auxiliary notions for the renderer's properties\<close>

text \<open>No two empty lines stand next to each other.\<close>

fun no_adjacent_blanks :: "string list \<Rightarrow> bool" where
  "no_adjacent_blanks [] = True"
| "no_adjacent_blanks [x] = True"
| "no_adjacent_blanks (x # y # zs) = (\<not> (x = [] \<and> y = []) \<and> no_adjacent_blanks (y # zs))"

text \<open>The lines of a written text, each ended by a newline.\<close>

definition file_lines :: "string \<Rightarrow> string list" where
  "file_lines s = (let ps = split_on (CHR 0x0A) s in if last ps = [] then butlast ps else ps)"

text \<open>Which lines of a rendering are blank separators.\<close>

definition blank_pattern :: "string list \<Rightarrow> bool list" where
  "blank_pattern ls = map (\<lambda>l. l = []) ls"

text \<open>The entries \<^verbatim>\<open>["[Music]", "hello", "[Music]", "world"]\<close>, and a transcript that holds a
  single stage direction.\<close>

definition stage_direction_example :: transcript_selection where
  "stage_direction_example =
     \<lparr>kind = ''generated'', source_kind = Some ''generated'', language = ''en'',
      translated_to = None,
      entries = map (\<lambda>t. \<lparr>e_text = t, e_start = 0, e_duration = 1\<rparr>)
                  [''[Music]'', ''hello'', ''[Music]'', ''world'']\<rparr>"

definition music_only_example :: transcript_selection where
  "music_only_example =
     \<lparr>kind = ''generated'', source_kind = Some ''generated'', language = ''en'',
      translated_to = None,
      entries = [\<lparr>e_text = ''[Music]'', e_start = 0, e_duration = 1\<rparr>]\<rparr>"

text \<open>A transcript whose caption ends in the control character U+0007.\<close>

definition bell_example :: transcript_selection where
  "bell_example =
     \<lparr>kind = ''generated'', source_kind = Some ''generated'', language = ''en'',
      translated_to = None,
      entries = [\<lparr>e_text = ''beep'' @ [CHR 0x07], e_start = 0, e_duration = 1\<rparr>]\<rparr>"

text \<open>The relation kept between the two writers' loops. The document's loop has raised
  the library's error exactly when some line of the text's list \<open>ls\<close> is not XML
  compatible; otherwise \<open>ls\<close>, but for its first \<open>k\<close> lines, is the text of the document's
  paragraphs after the heading \<open>h\<close>, and \<^verbatim>\<open>previous_blank\<close> says that the last line is
  empty.\<close>

definition agree :: "nat \<Rightarrow> string \<Rightarrow> string list \<Rightarrow> raised + (para list \<times> bool) \<Rightarrow> bool" where
  "agree k h ls r \<longleftrightarrow>
     k < length ls \<and>
     (case r of
        Inl err \<Rightarrow> err = xml_error \<and> \<not> list_all xml_compatible ls
      | Inr st \<Rightarrow>
          list_all xml_compatible ls \<and> (snd st \<longleftrightarrow> last ls = []) \<and>
          map paragraph_text (fst st) = h # drop k ls)"

text \<open>A line that ends in a character other than whitespace, and a list of lines whose
  last line is one, or is empty and follows one.\<close>

definition visible_end :: "string \<Rightarrow> bool" where
  "visible_end l \<longleftrightarrow> l \<noteq> [] \<and> \<not> py_isspace (last l)"

definition settled :: "string list \<Rightarrow> bool" where
  "settled ls \<longleftrightarrow>
     ls \<noteq> [] \<and>
     (if last ls = [] then butlast ls \<noteq> [] \<and> visible_end (last (butlast ls))
      else visible_end (last ls))"

text \<open>The events of \<open>k\<close> failed attempts that are each followed by another attempt: the
  call, the warning with the attempt's number, the number of attempts allowed, the
  failure's message and the delay, and the sleep of \<open>min(5, 1.5 * attempt number)\<close>
  seconds.\<close>

definition retry_events :: "string \<Rightarrow> int \<Rightarrow> (nat \<Rightarrow> string) \<Rightarrow> nat \<Rightarrow> event list" where
  "retry_events video_id retries msg k =
     concat (map (\<lambda>j. [ApiList video_id,
                        RetryWarning (int j + 1) (retries + 1) (msg j) (min 5 (3 / 2 * (real j + 1))),
                        Sleep (min 5 (3 / 2 * (real j + 1)))]) [0..<k])"

text \<open>Surroundings in which \<^verbatim>\<open>api.list\<close> fails \<open>n\<close> times with a server error and then answers.\<close>

definition flaky_list_env :: "nat \<Rightarrow> transcript_list \<Rightarrow> environment" where
  "flaky_list_env n transcripts =
     \<lparr>api_installed = True,
      api_list = (\<lambda>video_id attempt.
                   if attempt < n then Inl (Raised YouTubeTranscriptApiException ''HTTP 500'')
                   else Inr transcripts)\<rparr>"

section \<open>Properties of the timestamp format\<close>

lemma digit_char_small:
  "n < 10 \<Longrightarrow> digit_char n \<in> set ''0123456789'' \<and> (of_char (digit_char n) :: nat) = 48 + n"
proof -
  assume "n < 10"
  then have "n \<in> {0, 1, 2, 3, 4, 5, 6, 7, 8, 9}" by auto
  then show ?thesis by (auto simp: digit_char_def)
qed

lemma str_nat_small: "n < 10 \<Longrightarrow> str_nat n = [''0123456789'' ! n]"
  by (simp add: str_nat.simps digit_char_def)

lemma str_nat_two:
  "10 \<le> n \<Longrightarrow> n < 100 \<Longrightarrow> str_nat n = [''0123456789'' ! (n div 10), ''0123456789'' ! (n mod 10)]"
  by (subst str_nat.simps) (simp add: str_nat_small digit_char_def)

lemma format_02d_two_digits:
  assumes "0 \<le> n" "n < 100"
  shows "format_02d n = [''0123456789'' ! nat (n div 10), ''0123456789'' ! nat (n mod 10)]"
proof (cases "n < 10")
  case True
  then have "nat n < 10" "n div 10 = 0" "n mod 10 = n" using assms by auto
  then show ?thesis using assms by (simp add: format_02d_def str_nat_small)
next
  case False
  then have a: "10 \<le> nat n" "nat n < 100" using assms by auto
  have d: "nat n div 10 = nat (n div 10)" "nat n mod 10 = nat (n mod 10)"
    using assms by (simp_all add: nat_div_distrib nat_mod_distrib)
  show ?thesis using assms False by (simp add: format_02d_def str_nat_two [OF a] d)
qed

lemma str_nat_digits: "set (str_nat n) \<subseteq> set ''0123456789''"
proof (induction n rule: str_nat.induct)
  case (1 n)
  show ?case
  proof (cases "n < 10")
    case True
    then show ?thesis using digit_char_small [of n] by (subst str_nat.simps) simp
  next
    case False
    have "n mod 10 < 10" by simp
    then have "digit_char (n mod 10) \<in> set ''0123456789''" using digit_char_small by blast
    then show ?thesis using 1 False by (subst str_nat.simps) simp
  qed
qed

lemma str_nat_value: "foldl (\<lambda>a c. 10 * a + (of_char c - 48)) 0 (str_nat n) = n"
proof (induction n rule: str_nat.induct)
  case (1 n)
  show ?case
  proof (cases "n < 10")
    case True
    then show ?thesis using digit_char_small [of n] by (subst str_nat.simps) simp
  next
    case False
    have "n mod 10 < 10" by simp
    then have "(of_char (digit_char (n mod 10)) :: nat) = 48 + n mod 10"
      using digit_char_small by blast
    then show ?thesis using 1 False by (subst str_nat.simps) simp
  qed
qed

lemma str_nat_nonempty: "str_nat n \<noteq> []"
  by (subst str_nat.simps) simp

lemma str_nat_hd: "0 < n \<Longrightarrow> hd (str_nat n) \<noteq> CHR ''0''"
proof (induction n rule: str_nat.induct)
  case (1 n)
  show ?case
  proof (cases "n < 10")
    case True
    then have "n \<in> {1, 2, 3, 4, 5, 6, 7, 8, 9}" using 1(2) by auto
    then show ?thesis by (subst str_nat.simps) (auto simp: digit_char_def)
  next
    case False
    then have "0 < n div 10" by simp
    then have "hd (str_nat (n div 10)) \<noteq> CHR ''0''" using 1 False by simp
    then show ?thesis using False by (subst str_nat.simps) (simp add: str_nat_nonempty)
  qed
qed

lemma str_nat_long: "100 \<le> n \<Longrightarrow> 3 \<le> length (str_nat n)"
proof -
  assume n: "100 \<le> n"
  then have a: "10 \<le> n div 10" by simp
  have "str_nat n = str_nat (n div 10 div 10) @ [digit_char (n div 10 mod 10)] @ [digit_char (n mod 10)]"
    using n a by (subst str_nat.simps, subst str_nat.simps) simp
  then show ?thesis using str_nat_nonempty [of "n div 10 div 10"]
    by (cases "str_nat (n div 10 div 10)") simp_all
qed

lemma format_02d_long:
  assumes "100 \<le> n"
  shows "format_02d n = str_nat (nat n)"
proof -
  have "100 \<le> nat n" using assms by simp
  then have "3 \<le> length (str_nat (nat n))" by (rule str_nat_long)
  then show ?thesis using assms by (simp add: format_02d_def)
qed

lemma format_timestamp_negative: "s < 0 \<Longrightarrow> format_timestamp s = ''00:00''"
  by (simp add: format_timestamp_def py_int_def format_02d_def str_nat.simps digit_char_def)

lemma format_timestamp_minutes:
  assumes "0 \<le> s" "s < 3600"
  shows "format_timestamp s = format_02d (\<lfloor>s\<rfloor> div 60) @ '':'' @ format_02d (\<lfloor>s\<rfloor> mod 60)"
proof -
  have lo: "0 \<le> \<lfloor>s\<rfloor>" using assms by simp
  have hi: "\<lfloor>s\<rfloor> < 3600" using assms by (simp add: floor_less_iff)
  have "\<lfloor>s\<rfloor> div 3600 = 0" "\<lfloor>s\<rfloor> mod 3600 = \<lfloor>s\<rfloor>" using lo hi by simp_all
  then show ?thesis using assms by (simp add: format_timestamp_def py_int_def Let_def)
qed

lemma format_timestamp_hours:
  assumes "3600 \<le> s"
  shows "format_timestamp s =
         format_02d (\<lfloor>s\<rfloor> div 3600) @ '':'' @ format_02d (\<lfloor>s\<rfloor> mod 3600 div 60) @ '':'' @
         format_02d (\<lfloor>s\<rfloor> mod 60)"
proof -
  have "3600 \<le> \<lfloor>s\<rfloor>" using assms by (simp add: le_floor_iff)
  then have h: "\<lfloor>s\<rfloor> div 3600 \<noteq> 0" by arith
  have m: "\<lfloor>s\<rfloor> mod 3600 mod 60 = \<lfloor>s\<rfloor> mod 60" by (simp add: mod_mod_cancel)
  show ?thesis using assms h m by (simp add: format_timestamp_def py_int_def Let_def)
qed

lemma format_timestamp_below_hour:
  assumes "0 \<le> s" "s < 3600"
  shows "format_timestamp s =
         [''0123456789'' ! nat (\<lfloor>s\<rfloor> div 60 div 10), ''0123456789'' ! nat (\<lfloor>s\<rfloor> div 60 mod 10),
          CHR '':'',
          ''0123456789'' ! nat (\<lfloor>s\<rfloor> mod 60 div 10), ''0123456789'' ! nat (\<lfloor>s\<rfloor> mod 60 mod 10)]"
proof -
  have lo: "0 \<le> \<lfloor>s\<rfloor>" using assms by simp
  have hi: "\<lfloor>s\<rfloor> < 3600" using assms by (simp add: floor_less_iff)
  have d: "0 \<le> \<lfloor>s\<rfloor> div 60" "\<lfloor>s\<rfloor> div 60 < 100" using lo hi by arith+
  have e: "0 \<le> \<lfloor>s\<rfloor> mod 60" "\<lfloor>s\<rfloor> mod 60 < 100" by auto
  show ?thesis
    unfolding format_timestamp_minutes [OF assms] format_02d_two_digits [OF d]
      format_02d_two_digits [OF e]
    by simp
qed

lemma format_timestamp_from_hour:
  assumes "3600 \<le> s" "s < 360000"
  shows "format_timestamp s =
         [''0123456789'' ! nat (\<lfloor>s\<rfloor> div 3600 div 10), ''0123456789'' ! nat (\<lfloor>s\<rfloor> div 3600 mod 10),
          CHR '':'',
          ''0123456789'' ! nat (\<lfloor>s\<rfloor> mod 3600 div 60 div 10),
          ''0123456789'' ! nat (\<lfloor>s\<rfloor> mod 3600 div 60 mod 10),
          CHR '':'',
          ''0123456789'' ! nat (\<lfloor>s\<rfloor> mod 60 div 10), ''0123456789'' ! nat (\<lfloor>s\<rfloor> mod 60 mod 10)]"
proof -
  have lo: "3600 \<le> \<lfloor>s\<rfloor>" using assms by (simp add: le_floor_iff)
  have hi: "\<lfloor>s\<rfloor> < 360000" using assms by (simp add: floor_less_iff)
  have h: "0 \<le> \<lfloor>s\<rfloor> div 3600" "\<lfloor>s\<rfloor> div 3600 < 100" using lo hi by arith+
  have "0 \<le> \<lfloor>s\<rfloor> mod 3600" "\<lfloor>s\<rfloor> mod 3600 < 3600" by auto
  then have d: "0 \<le> \<lfloor>s\<rfloor> mod 3600 div 60" "\<lfloor>s\<rfloor> mod 3600 div 60 < 100" by arith+
  have e: "0 \<le> \<lfloor>s\<rfloor> mod 60" "\<lfloor>s\<rfloor> mod 60 < 100" by auto
  show ?thesis
    unfolding format_timestamp_hours [OF assms(1)] format_02d_two_digits [OF d]
      format_02d_two_digits [OF e] format_02d_two_digits [OF h]
    by simp
qed

lemma format_timestamp_many_hours:
  assumes "360000 \<le> s"
  shows "\<exists>hs. format_timestamp s =
           hs @ [CHR '':'',
                 ''0123456789'' ! nat (\<lfloor>s\<rfloor> mod 3600 div 60 div 10),
                 ''0123456789'' ! nat (\<lfloor>s\<rfloor> mod 3600 div 60 mod 10),
                 CHR '':'',
                 ''0123456789'' ! nat (\<lfloor>s\<rfloor> mod 60 div 10), ''0123456789'' ! nat (\<lfloor>s\<rfloor> mod 60 mod 10)] \<and>
           3 \<le> length hs \<and> set hs \<subseteq> set ''0123456789'' \<and> hd hs \<noteq> CHR ''0'' \<and>
           int (foldl (\<lambda>a c. 10 * a + (of_char c - 48)) 0 hs) = \<lfloor>s\<rfloor> div 3600"
proof -
  have lo: "360000 \<le> \<lfloor>s\<rfloor>" using assms by (simp add: le_floor_iff)
  have s: "3600 \<le> s" using assms by simp
  have h: "100 \<le> \<lfloor>s\<rfloor> div 3600" using lo by arith
  then have hn: "100 \<le> nat (\<lfloor>s\<rfloor> div 3600)" "0 < nat (\<lfloor>s\<rfloor> div 3600)" by auto
  have "0 \<le> \<lfloor>s\<rfloor> mod 3600" "\<lfloor>s\<rfloor> mod 3600 < 3600" by auto
  then have d: "0 \<le> \<lfloor>s\<rfloor> mod 3600 div 60" "\<lfloor>s\<rfloor> mod 3600 div 60 < 100" by arith+
  have e: "0 \<le> \<lfloor>s\<rfloor> mod 60" "\<lfloor>s\<rfloor> mod 60 < 100" by auto
  let ?hs = "str_nat (nat (\<lfloor>s\<rfloor> div 3600))"
  have v: "int (foldl (\<lambda>a c. 10 * a + (of_char c - 48)) 0 ?hs) = \<lfloor>s\<rfloor> div 3600"
    using h by (simp add: str_nat_value)
  have f: "format_timestamp s =
           ?hs @ [CHR '':'',
                 ''0123456789'' ! nat (\<lfloor>s\<rfloor> mod 3600 div 60 div 10),
                 ''0123456789'' ! nat (\<lfloor>s\<rfloor> mod 3600 div 60 mod 10),
                 CHR '':'',
                 ''0123456789'' ! nat (\<lfloor>s\<rfloor> mod 60 div 10), ''0123456789'' ! nat (\<lfloor>s\<rfloor> mod 60 mod 10)]"
    unfolding format_timestamp_hours [OF s] format_02d_two_digits [OF d]
      format_02d_two_digits [OF e] format_02d_long [OF h]
    by simp
  show ?thesis
    using f v str_nat_long [OF hn(1)] str_nat_digits [of "nat (\<lfloor>s\<rfloor> div 3600)"]
      str_nat_hd [OF hn(2)]
    by blast
qed

text \<open>
  Claim C9. A start time is printed as MM:SS while its hour component is zero and as
  HH:MM:SS once it is not: \<open>0\<close> seconds gives \<open>00:00\<close>, \<open>65\<close> gives \<open>01:05\<close>, \<open>3661\<close> gives
  \<open>01:01:01\<close>, and every negative input is clamped to \<open>00:00\<close>. Each field of minutes
  and seconds is written with its two decimal digits, tens first: \<open>600\<close> seconds gives
  \<open>10:00\<close>, \<open>3599\<close> gives \<open>59:59\<close> and \<open>45296\<close> gives \<open>12:34:56\<close>. Below one hour the
  result is the five characters of minutes, colon and seconds of the whole seconds; from
  one hour on the hours come first, with two digits below a hundred hours and with all
  their decimal digits from a hundred hours on.
\<close>

theorem format_timestamp_spec:
  "format_timestamp 0 = ''00:00'' \<and>
   format_timestamp 65 = ''01:05'' \<and>
   format_timestamp 3661 = ''01:01:01'' \<and>
   format_timestamp 600 = ''10:00'' \<and>
   format_timestamp 3599 = ''59:59'' \<and>
   format_timestamp 45296 = ''12:34:56'' \<and>
   format_timestamp 360000 = ''100:00:00'' \<and>
   (\<forall>s. s < 0 \<longrightarrow> format_timestamp s = ''00:00'') \<and>
   (\<forall>s. 0 \<le> s \<and> s < 3600 \<longrightarrow>
        format_timestamp s =
          [''0123456789'' ! nat (\<lfloor>s\<rfloor> div 60 div 10), ''0123456789'' ! nat (\<lfloor>s\<rfloor> div 60 mod 10),
           CHR '':'',
           ''0123456789'' ! nat (\<lfloor>s\<rfloor> mod 60 div 10), ''0123456789'' ! nat (\<lfloor>s\<rfloor> mod 60 mod 10)]) \<and>
   (\<forall>s. 3600 \<le> s \<and> s < 360000 \<longrightarrow>
        format_timestamp s =
          [''0123456789'' ! nat (\<lfloor>s\<rfloor> div 3600 div 10), ''0123456789'' ! nat (\<lfloor>s\<rfloor> div 3600 mod 10),
           CHR '':'',
           ''0123456789'' ! nat (\<lfloor>s\<rfloor> mod 3600 div 60 div 10),
           ''0123456789'' ! nat (\<lfloor>s\<rfloor> mod 3600 div 60 mod 10),
           CHR '':'',
           ''0123456789'' ! nat (\<lfloor>s\<rfloor> mod 60 div 10), ''0123456789'' ! nat (\<lfloor>s\<rfloor> mod 60 mod 10)]) \<and>
   (\<forall>s. 360000 \<le> s \<longrightarrow>
        (\<exists>hs. format_timestamp s =
           hs @ [CHR '':'',
                 ''0123456789'' ! nat (\<lfloor>s\<rfloor> mod 3600 div 60 div 10),
                 ''0123456789'' ! nat (\<lfloor>s\<rfloor> mod 3600 div 60 mod 10),
                 CHR '':'',
                 ''0123456789'' ! nat (\<lfloor>s\<rfloor> mod 60 div 10), ''0123456789'' ! nat (\<lfloor>s\<rfloor> mod 60 mod 10)] \<and>
           3 \<le> length hs \<and> set hs \<subseteq> set ''0123456789'' \<and> hd hs \<noteq> CHR ''0'' \<and>
           int (foldl (\<lambda>a c. 10 * a + (of_char c - 48)) 0 hs) = \<lfloor>s\<rfloor> div 3600))"
proof -
  have c0: "format_timestamp 0 = ''00:00''"
    using format_timestamp_below_hour [of 0] by simp
  have c65: "format_timestamp 65 = ''01:05''"
    using format_timestamp_below_hour [of 65] by simp
  have c600: "format_timestamp 600 = ''10:00''"
    using format_timestamp_below_hour [of 600] by simp
  have c3599: "format_timestamp 3599 = ''59:59''"
    using format_timestamp_below_hour [of 3599] by simp
  have c3661: "format_timestamp 3661 = ''01:01:01''"
    using format_timestamp_from_hour [of 3661] by simp
  have c45296: "format_timestamp 45296 = ''12:34:56''"
    using format_timestamp_from_hour [of 45296] by simp
  have "str_nat 100 = ''100''"
    by (simp add: str_nat.simps digit_char_def)
  then have c360000: "format_timestamp 360000 = ''100:00:00''"
    by (simp add: format_timestamp_hours format_02d_long format_02d_two_digits)
  show ?thesis
    using c0 c65 c3661 c600 c3599 c45296 c360000 format_timestamp_negative
      format_timestamp_below_hour format_timestamp_from_hour format_timestamp_many_hours
    by blast
qed

theorem format_timestamp_spec_witness:
  "(- 5 / 2 :: real) < 0 \<and> format_timestamp (- 5 / 2) = ''00:00'' \<and>
   (0 :: real) \<le> 754.9 \<and> (754.9 :: real) < 3600 \<and> format_timestamp 754.9 = ''12:34'' \<and>
   (3600 :: real) \<le> 86399 \<and> (86399 :: real) < 360000 \<and> format_timestamp 86399 = ''23:59:59''"
proof -
  note T = format_timestamp_spec
  note neg = T [THEN conjunct2, THEN conjunct2, THEN conjunct2, THEN conjunct2, THEN conjunct2,
      THEN conjunct2, THEN conjunct2, THEN conjunct1, rule_format]
  note low = T [THEN conjunct2, THEN conjunct2, THEN conjunct2, THEN conjunct2, THEN conjunct2,
      THEN conjunct2, THEN conjunct2, THEN conjunct2, THEN conjunct1, rule_format]
  note high = T [THEN conjunct2, THEN conjunct2, THEN conjunct2, THEN conjunct2, THEN conjunct2,
      THEN conjunct2, THEN conjunct2, THEN conjunct2, THEN conjunct2, THEN conjunct1, rule_format]
  have f: "\<lfloor>754.9 :: real\<rfloor> = 754" by linarith
  have a: "format_timestamp (- 5 / 2) = ''00:00''" using neg [of "- 5 / 2"] by simp
  have b: "format_timestamp 754.9 = ''12:34''" using low [of "754.9"] by (simp add: f)
  have c: "format_timestamp 86399 = ''23:59:59''" using high [of 86399] by simp
  show ?thesis using a b c by simp
qed

section \<open>Properties of the renderer\<close>

lemma no_adjacent_blanks_snoc:
  "no_adjacent_blanks (ls @ [x]) \<longleftrightarrow>
     no_adjacent_blanks ls \<and> \<not> (ls \<noteq> [] \<and> last ls = [] \<and> x = [])"
  by (induction ls rule: no_adjacent_blanks.induct) auto

lemma stage_direction_fullmatch_nonempty: "stage_direction_fullmatch s \<Longrightarrow> s \<noteq> []"
  by (auto simp: stage_direction_fullmatch_def py_lower_def stage_direction_markers_def
      stage_directions_def)

lemma py_strip_nonempty: "py_strip P s \<noteq> [] \<Longrightarrow> s \<noteq> []"
  by (auto simp: py_strip_def py_rstrip_def py_lstrip_def)

lemma txt_entry_marker:
  assumes "stage_direction_fullmatch (py_strip py_isspace (e_text e))"
  shows "txt_entry ts False ls e = (if ls \<noteq> [] \<and> last ls \<noteq> [] then ls @ [[]] else ls)"
proof -
  have "e_text e \<noteq> []"
    using assms stage_direction_fullmatch_nonempty py_strip_nonempty by blast
  then show ?thesis using assms by (simp add: txt_entry_def Let_def)
qed

lemma no_adjacent_blanks_snoc2:
  "no_adjacent_blanks (ls @ [x, y]) \<longleftrightarrow>
     no_adjacent_blanks (ls @ [x]) \<and> \<not> (x = [] \<and> y = [])"
  by (induction ls rule: no_adjacent_blanks.induct) auto

lemma txt_entry_no_adjacent_blanks:
  "no_adjacent_blanks ls \<Longrightarrow> no_adjacent_blanks (txt_entry ts kt ls e)"
  by (simp add: txt_entry_def Let_def no_adjacent_blanks_snoc no_adjacent_blanks_snoc2)

lemma txt_entry_prefix: "\<exists>b. txt_entry ts kt ls e = ls @ b"
  by (simp add: txt_entry_def Let_def)

lemma foldl_txt_entry_prefix: "\<exists>b. foldl (txt_entry ts kt) ls es = ls @ b"
proof (induction es arbitrary: ls)
  case Nil
  then show ?case by simp
next
  case (Cons e es)
  obtain b where b: "txt_entry ts kt ls e = ls @ b" using txt_entry_prefix by blast
  obtain b' where "foldl (txt_entry ts kt) (ls @ b) es = (ls @ b) @ b'" using Cons by blast
  then show ?case using b by simp
qed

lemma foldl_txt_entry_no_adjacent_blanks:
  "no_adjacent_blanks ls \<Longrightarrow> no_adjacent_blanks (foldl (txt_entry ts kt) ls es)"
  by (induction es arbitrary: ls) (auto simp: txt_entry_no_adjacent_blanks)

lemma no_adjacent_blanks_txt_header: "no_adjacent_blanks (txt_header url title)"
  by (simp add: txt_header_def)

lemma no_adjacent_blanks_nth:
  "no_adjacent_blanks (h @ b) \<Longrightarrow> h \<noteq> [] \<Longrightarrow> last h = [] \<Longrightarrow> b \<noteq> [] \<Longrightarrow> hd b \<noteq> []"
proof (induction h rule: no_adjacent_blanks.induct)
  case (2 x)
  then show ?case by (cases b) auto
qed auto

lemma fullmatch_music: "stage_direction_fullmatch (py_strip py_isspace ''[Music]'')"
  by code_simp

lemma not_fullmatch_hello: "\<not> stage_direction_fullmatch (py_strip py_isspace ''hello'')"
  by code_simp

lemma not_fullmatch_world: "\<not> stage_direction_fullmatch (py_strip py_isspace ''world'')"
  by code_simp

lemma clean_hello: "clean_caption_text (Some ''hello'') False = ''hello''"
  by code_simp

lemma clean_world: "clean_caption_text (Some ''world'') False = ''world''"
  by code_simp

lemma txt_entry_content:
  assumes "\<not> stage_direction_fullmatch (py_strip py_isspace (e_text e))"
    and "clean_caption_text (Some (e_text e)) False = c" and "c \<noteq> []"
  shows "txt_entry ts False ls e =
         ls @ [if ts then format_timestamp (e_start e) @ '' - '' @ c else c]"
  using assms by (simp add: txt_entry_def Let_def)

lemma txt_header_last: "txt_header url title \<noteq> [] \<and> last (txt_header url title) = []"
  by (simp add: txt_header_def)

lemma txt_lines_example:
  "txt_lines stage_direction_example url title ts False =
   txt_header url title @
     (if ts then [''00:00 - hello'', [], ''00:00 - world''] else [''hello'', [], ''world''])"
proof -
  have ts0: "format_timestamp 0 = ''00:00''"
    by (simp add: format_timestamp_def py_int_def format_02d_def str_nat.simps digit_char_def)
  show ?thesis
    by (simp add: txt_lines_def stage_direction_example_def txt_entry_marker fullmatch_music
        txt_entry_content not_fullmatch_hello not_fullmatch_world clean_hello clean_world
        txt_header_last ts0)
qed

lemma join_lines_snoc:
  "join_lines (xs @ [y]) = (if xs = [] then y else join_lines xs @ [CHR 0x0A] @ y)"
  by (induction xs rule: join_lines.induct) auto

lemma py_rstrip_keep: "y \<noteq> [] \<Longrightarrow> \<not> P (last y) \<Longrightarrow> py_rstrip P (a @ y) = a @ y"
  by (cases y rule: rev_cases) (simp_all add: py_rstrip_def)

lemma write_txt_example:
  "write_txt stage_direction_example url title False False =
   join_lines (txt_header url title @ [''hello'', [], ''world'']) @ [CHR 0x0A]"
proof -
  have ns: "\<not> py_isspace (last ''world'')" by (simp add: py_isspace_def)
  have j: "join_lines (txt_header url title @ [''hello'', [], ''world'']) =
           join_lines (txt_header url title @ [''hello'', []]) @ [CHR 0x0A] @ ''world''"
    using join_lines_snoc [of "txt_header url title @ [''hello'', []]" "''world''"] by simp
  show ?thesis
    unfolding write_txt_def txt_lines_example
    using py_rstrip_keep [of "''world''" py_isspace
        "join_lines (txt_header url title @ [''hello'', []]) @ [CHR 0x0A]"] ns
    by (simp add: j)
qed

lemma txt_lines_header:
  "\<exists>body. txt_lines t url title ts kt = txt_header url title @ body"
  unfolding txt_lines_def by (rule foldl_txt_entry_prefix)

lemma txt_lines_no_adjacent_blanks: "no_adjacent_blanks (txt_lines t url title ts kt)"
  unfolding txt_lines_def
  by (rule foldl_txt_entry_no_adjacent_blanks) (rule no_adjacent_blanks_txt_header)

lemma txt_lines_body_start:
  assumes "length (txt_header url title) < length (txt_lines t url title ts kt)"
  shows "txt_lines t url title ts kt ! length (txt_header url title) \<noteq> []"
proof -
  obtain body where b: "txt_lines t url title ts kt = txt_header url title @ body"
    using txt_lines_header by blast
  have ne: "body \<noteq> []" using assms b by simp
  have "no_adjacent_blanks (txt_header url title @ body)"
    using txt_lines_no_adjacent_blanks [of t url title ts kt] b by simp
  then have "hd body \<noteq> []"
    using no_adjacent_blanks_nth txt_header_last ne by blast
  then show ?thesis using b ne by (simp add: nth_append hd_conv_nth)
qed

text \<open>
  Claim C8. With tags not kept, an entry whose trimmed raw text is exactly one
  stage-direction marker adds no content line, and adds one empty line only when the
  last line so far is not empty. So the lines of the text never hold two empty lines in
  a row, and the line after the header's empty line is never empty. For the entries
  \<open>[Music]\<close>, \<open>hello\<close>, \<open>[Music]\<close>, \<open>world\<close> the body is \<open>hello\<close>, one empty line, \<open>world\<close>
  (each behind its timestamp when timestamps are on), and the written text ends with
  \<open>world\<close> and one newline.
\<close>

theorem stage_direction_suppression:
  "(\<forall>ls e ts. stage_direction_fullmatch (py_strip py_isspace (e_text e)) \<longrightarrow>
       txt_entry ts False ls e = (if ls \<noteq> [] \<and> last ls \<noteq> [] then ls @ [[]] else ls)) \<and>
   (\<forall>t url title ts.
       take (length (txt_header url title)) (txt_lines t url title ts False) = txt_header url title \<and>
       no_adjacent_blanks (txt_lines t url title ts False) \<and>
       (length (txt_header url title) < length (txt_lines t url title ts False) \<longrightarrow>
          txt_lines t url title ts False ! length (txt_header url title) \<noteq> [])) \<and>
   (\<forall>url title.
       txt_lines stage_direction_example url title False False =
         txt_header url title @ [''hello'', [], ''world''] \<and>
       txt_lines stage_direction_example url title True False =
         txt_header url title @ [''00:00 - hello'', [], ''00:00 - world''] \<and>
       write_txt stage_direction_example url title False False =
         join_lines (txt_header url title @ [''hello'', [], ''world'']) @ [CHR 0x0A])"
proof -
  have pre: "take (length (txt_header url title)) (txt_lines t url title ts False) = txt_header url title"
    for t url title ts
    using txt_lines_header [of t url title ts False] by auto
  show ?thesis
    using pre txt_lines_body_start
    by (simp add: txt_entry_marker txt_lines_no_adjacent_blanks txt_lines_example write_txt_example)
qed

theorem stage_direction_suppression_witness:
  "stage_direction_fullmatch
     (py_strip py_isspace (e_text \<lparr>e_text = ''[Music]'', e_start = 2, e_duration = 1\<rparr>)) \<and>
   txt_entry True False [''Source: u'', [], ''00:00 - Hello, world.'']
     \<lparr>e_text = ''[Music]'', e_start = 2, e_duration = 1\<rparr> =
     [''Source: u'', [], ''00:00 - Hello, world.'', []] \<and>
   txt_entry True False [''Source: u'', []]
     \<lparr>e_text = ''[Music]'', e_start = 2, e_duration = 1\<rparr> = [''Source: u'', []] \<and>
   length (txt_header ''u'' ''Demo'') < length (txt_lines stage_direction_example ''u'' ''Demo'' False False) \<and>
   txt_lines stage_direction_example ''u'' ''Demo'' False False ! length (txt_header ''u'' ''Demo'') = ''hello'' \<and>
   write_txt stage_direction_example ''u'' ''Demo'' False False =
     ''Title: Demo'' @ [CHR 0x0A] @ ''Source: u'' @ [CHR 0x0A] @ [CHR 0x0A] @ ''hello'' @ [CHR 0x0A] @
     [CHR 0x0A] @ ''world'' @ [CHR 0x0A]"
proof -
  have m: "stage_direction_fullmatch
     (py_strip py_isspace (e_text \<lparr>e_text = ''[Music]'', e_start = 2, e_duration = 1\<rparr>))"
    using fullmatch_music by simp
  have a: "txt_entry True False ls \<lparr>e_text = ''[Music]'', e_start = 2, e_duration = 1\<rparr> =
           (if ls \<noteq> [] \<and> last ls \<noteq> [] then ls @ [[]] else ls)" for ls
    using stage_direction_suppression m by blast
  have l: "txt_lines stage_direction_example ''u'' ''Demo'' False False =
           txt_header ''u'' ''Demo'' @ [''hello'', [], ''world'']"
    using stage_direction_suppression by blast
  have w: "write_txt stage_direction_example ''u'' ''Demo'' False False =
           join_lines (txt_header ''u'' ''Demo'' @ [''hello'', [], ''world'']) @ [CHR 0x0A]"
    using stage_direction_suppression by blast
  show ?thesis
    using m by (simp add: a l w txt_header_def)
qed

lemma xml_compatible_simps [simp]:
  "xml_compatible []" "xml_compatible (c # s) \<longleftrightarrow> xml_char c \<and> xml_compatible s"
  "xml_compatible (a @ b) \<longleftrightarrow> xml_compatible a \<and> xml_compatible b"
  by (simp_all add: xml_compatible_def)

lemma xml_compatible_title: "xml_compatible (''Title: '' @ s) \<longleftrightarrow> xml_compatible s"
  by (simp add: xml_char_def)

lemma xml_compatible_source: "xml_compatible (''Source: '' @ s) \<longleftrightarrow> xml_compatible s"
  by (simp add: xml_char_def)

lemma xml_compatible_default: "xml_compatible ''YouTube Transcript''"
  by (simp add: xml_char_def)

lemma xml_char_digit: "c \<in> set ''0123456789'' \<Longrightarrow> xml_char c"
  by (auto simp: xml_char_def)

lemma xml_compatible_str_nat: "xml_compatible (str_nat n)"
  unfolding xml_compatible_def list_all_iff
  using str_nat_digits [of n] xml_char_digit by blast

lemma xml_compatible_replicate: "xml_char c \<Longrightarrow> xml_compatible (replicate k c)"
  by (induction k) simp_all

lemma xml_compatible_format_02d: "xml_compatible (format_02d n)"
  by (simp add: format_02d_def xml_compatible_str_nat xml_compatible_replicate xml_char_def)

lemma xml_compatible_stamp: "xml_compatible (format_timestamp s @ '' - '')"
  by (simp add: format_timestamp_def Let_def xml_compatible_format_02d xml_char_def)

lemma and_then_simps [simp]:
  "and_then (Inl e) f = Inl e" "and_then (Inr x) f = f x"
  by (simp_all add: and_then_def)

lemma and_then_assoc: "and_then (and_then r f) g = and_then r (\<lambda>x. and_then (f x) g)"
  by (cases r) simp_all

lemma entry_marker:
  assumes "\<not> kt" "e_text e \<noteq> []" "stage_direction_fullmatch (py_strip py_isspace (e_text e))"
  shows "txt_entry ts kt ls e = (if ls \<noteq> [] \<and> last ls \<noteq> [] then ls @ [[]] else ls)"
    and "docx_entry ts kt (d, pb) e = Inr (if \<not> pb then (d @ [Paragraph []], True) else (d, pb))"
  using assms by (simp_all add: txt_entry_def docx_entry_def Let_def)

lemma entry_empty:
  assumes "\<not> (\<not> kt \<and> e_text e \<noteq> [] \<and> stage_direction_fullmatch (py_strip py_isspace (e_text e)))"
    and "clean_caption_text (Some (e_text e)) kt = []"
  shows "txt_entry ts kt ls e = ls" and "docx_entry ts kt (d, pb) e = Inr (d, pb)"
  using assms by (simp_all add: txt_entry_def docx_entry_def Let_def)

lemma txt_entry_text:
  assumes "\<not> (\<not> kt \<and> e_text e \<noteq> [] \<and> stage_direction_fullmatch (py_strip py_isspace (e_text e)))"
    and "clean_caption_text (Some (e_text e)) kt = c" "c \<noteq> []"
  shows "txt_entry ts kt ls e =
         (if (kt \<and> e_text e \<noteq> [] \<and> stage_direction_fullmatch (py_strip py_isspace (e_text e))) \<and>
             ls \<noteq> [] \<and> last ls \<noteq> []
          then ls @ [[]] else ls) @
         [if ts then format_timestamp (e_start e) @ '' - '' @ c else c]"
  using assms by (simp add: txt_entry_def Let_def)

lemma docx_entry_text:
  assumes "\<not> (\<not> kt \<and> e_text e \<noteq> [] \<and> stage_direction_fullmatch (py_strip py_isspace (e_text e)))"
    and "clean_caption_text (Some (e_text e)) kt = c" "c \<noteq> []"
  shows "docx_entry ts kt (d, pb) e =
         (if xml_compatible c
          then Inr ((if (kt \<and> e_text e \<noteq> [] \<and>
                         stage_direction_fullmatch (py_strip py_isspace (e_text e))) \<and> \<not> pb
                     then d @ [Paragraph []] else d) @
                    [Paragraph ((if ts then [Run (format_timestamp (e_start e) @ '' - '') True]
                                 else []) @ [Run c False])], False)
          else Inl xml_error)"
  using assms xml_compatible_stamp [of "e_start e"]
  by (simp add: docx_entry_def Let_def add_run_def)

lemma agree_step:
  assumes a: "agree k h ls r"
  shows "agree k h (txt_entry ts kt ls e) (and_then r (\<lambda>st. docx_entry ts kt st e))"
proof (cases r)
  case (Inl err)
  obtain b where b: "txt_entry ts kt ls e = ls @ b" using txt_entry_prefix by blast
  show ?thesis using a Inl by (simp add: agree_def b)
next
  case (Inr st)
  obtain d pb where st: "st = (d, pb)" by (cases st)
  have k: "k < length ls" and c: "list_all xml_compatible ls" and pb: "pb \<longleftrightarrow> last ls = []"
    and p: "map paragraph_text d = h # drop k ls"
    using a Inr st by (simp_all add: agree_def)
  have ne: "ls \<noteq> []" using k by auto
  define m where
    "m \<longleftrightarrow> \<not> kt \<and> e_text e \<noteq> [] \<and> stage_direction_fullmatch (py_strip py_isspace (e_text e))"
  define sd where
    "sd \<longleftrightarrow> kt \<and> e_text e \<noteq> [] \<and> stage_direction_fullmatch (py_strip py_isspace (e_text e))"
  define c where "c = clean_caption_text (Some (e_text e)) kt"
  define stamp where "stamp = format_timestamp (e_start e) @ '' - ''"
  have xs: "xml_compatible stamp" unfolding stamp_def by (rule xml_compatible_stamp)
  show ?thesis
  proof (cases m)
    case True
    then have mm: "\<not> kt" "e_text e \<noteq> []"
      "stage_direction_fullmatch (py_strip py_isspace (e_text e))" by (simp_all add: m_def)
    show ?thesis
      unfolding Inr st and_then_simps entry_marker [OF mm]
      using k c pb p ne by (simp add: agree_def)
  next
    case False
    then have nm: "\<not> (\<not> kt \<and> e_text e \<noteq> [] \<and>
        stage_direction_fullmatch (py_strip py_isspace (e_text e)))" by (simp add: m_def)
    show ?thesis
    proof (cases "c = []")
      case True
      then have ce: "clean_caption_text (Some (e_text e)) kt = []" by (simp add: c_def)
      show ?thesis
        unfolding Inr st and_then_simps entry_empty [OF nm ce]
        using k c pb p by (simp add: agree_def)
    next
      case cn: False
      have ceq: "clean_caption_text (Some (e_text e)) kt = c" by (simp add: c_def)
      have te: "txt_entry ts kt ls e =
                (if sd \<and> ls \<noteq> [] \<and> last ls \<noteq> [] then ls @ [[]] else ls) @
                [if ts then stamp @ c else c]"
        using txt_entry_text [OF nm ceq cn, of ts ls] by (simp add: sd_def stamp_def)
      have de: "docx_entry ts kt (d, pb) e =
                (if xml_compatible c
                 then Inr ((if sd \<and> \<not> pb then d @ [Paragraph []] else d) @
                           [Paragraph ((if ts then [Run stamp True] else []) @ [Run c False])],
                           False)
                 else Inl xml_error)"
        using docx_entry_text [OF nm ceq cn, of ts d pb] by (simp add: sd_def stamp_def)
      show ?thesis
        unfolding Inr st and_then_simps te de
        using k c pb p ne cn xs by (simp add: agree_def)
    qed
  qed
qed

lemma agree_entries:
  "agree k h ls r \<Longrightarrow>
   agree k h (foldl (txt_entry ts kt) ls es) (and_then r (\<lambda>st. docx_entries ts kt st es))"
proof (induction es arbitrary: ls r)
  case Nil
  then show ?case by (cases r) simp_all
next
  case (Cons e es)
  have "agree k h (txt_entry ts kt ls e) (and_then r (\<lambda>st. docx_entry ts kt st e))"
    using Cons.prems by (rule agree_step)
  from Cons.IH [OF this] show ?case by (simp add: and_then_assoc)
qed

lemma agree_header:
  "agree (if title \<noteq> [] then 1 else 0) (if title \<noteq> [] then title else ''YouTube Transcript'')
     (txt_header url title) (and_then (docx_header url title) (\<lambda>header. Inr (header, True)))"
  by (simp add: agree_def txt_header_def docx_header_def add_run_def add_hyperlink_def Let_def
      xml_char_def)

lemma agree_paragraphs:
  "agree (if title \<noteq> [] then 1 else 0) (if title \<noteq> [] then title else ''YouTube Transcript'')
     (txt_lines t url title ts kt)
     (and_then (docx_header url title)
        (\<lambda>header. docx_entries ts kt (header, True) (entries t)))"
  using agree_entries [OF agree_header [where title = title and url = url],
      where es = "entries t" and ts = ts and kt = kt]
  by (simp add: txt_lines_def and_then_assoc)

lemma docx_text_eq_txt_lines:
  "map_sum id (map paragraph_text) (write_docx True t url title ts kt) =
   (if list_all xml_compatible (txt_lines t url title ts kt)
    then Inr ((if title \<noteq> [] then title else ''YouTube Transcript'') #
              drop (if title \<noteq> [] then 1 else 0) (txt_lines t url title ts kt))
    else Inl (Uncaught xml_error))"
proof -
  let ?r = "and_then (docx_header url title)
        (\<lambda>header. docx_entries ts kt (header, True) (entries t))"
  have p: "docx_paragraphs t url title ts kt = and_then ?r (\<lambda>st. Inr (fst st))"
    by (simp add: docx_paragraphs_def and_then_assoc)
  show ?thesis
    using agree_paragraphs [of title t url ts kt]
    by (cases ?r) (auto simp: write_docx_def p agree_def)
qed

lemma docx_body_eq_txt_body:
  "\<exists>body. txt_lines t url title ts kt = txt_header url title @ body \<and>
     map_sum id (map paragraph_text) (write_docx True t url title ts kt) =
       (if list_all xml_compatible (title # url # body)
        then Inr ([if title \<noteq> [] then title else ''YouTube Transcript'', ''Source: '' @ url, []] @ body)
        else Inl (Uncaught xml_error))"
proof -
  obtain body where b: "txt_lines t url title ts kt = txt_header url title @ body"
    using txt_lines_header by blast
  have c: "list_all xml_compatible (txt_header url title @ body) \<longleftrightarrow>
           list_all xml_compatible (title # url # body)"
    by (auto simp: txt_header_def xml_char_def)
  have "map_sum id (map paragraph_text) (write_docx True t url title ts kt) =
       (if list_all xml_compatible (title # url # body)
        then Inr ([if title \<noteq> [] then title else ''YouTube Transcript'', ''Source: '' @ url, []] @ body)
        else Inl (Uncaught xml_error))"
    unfolding docx_text_eq_txt_lines b c by (simp add: txt_header_def)
  then show ?thesis using b by blast
qed

lemma py_strip_last: "py_strip P s \<noteq> [] \<Longrightarrow> \<not> P (last (py_strip P s))"
proof -
  assume a: "py_strip P s \<noteq> []"
  have e: "py_strip P s = rev (dropWhile P (rev (dropWhile P s)))"
    by (simp add: py_strip_def py_rstrip_def py_lstrip_def)
  then have n: "dropWhile P (rev (dropWhile P s)) \<noteq> []" using a by simp
  then have "\<not> P (hd (dropWhile P (rev (dropWhile P s))))" by (rule hd_dropWhile)
  then show ?thesis using n by (simp add: e last_rev)
qed

lemma clean_caption_text_visible:
  "clean_caption_text (Some raw) kt \<noteq> [] \<Longrightarrow> visible_end (clean_caption_text (Some raw) kt)"
  unfolding clean_caption_text_def Let_def visible_end_def option.case
  using py_strip_last by blast

lemma visible_end_append: "visible_end b \<Longrightarrow> visible_end (a @ b)"
  by (simp add: visible_end_def)

lemma settled_snoc_text: "visible_end c \<Longrightarrow> settled (ls @ [c])"
  by (simp add: settled_def visible_end_def)

lemma settled_snoc_blank: "settled ls \<Longrightarrow> last ls \<noteq> [] \<Longrightarrow> settled (ls @ [[]])"
  by (simp add: settled_def)

lemma settled_txt_entry:
  assumes s: "settled ls"
  shows "settled (txt_entry ts kt ls e)"
proof -
  let ?m = "\<not> kt \<and> e_text e \<noteq> [] \<and> stage_direction_fullmatch (py_strip py_isspace (e_text e))"
  let ?c = "clean_caption_text (Some (e_text e)) kt"
  show ?thesis
  proof (cases ?m)
    case True
    then have m: "\<not> kt" "e_text e \<noteq> []"
      "stage_direction_fullmatch (py_strip py_isspace (e_text e))" by simp_all
    show ?thesis
      unfolding entry_marker(1) [OF m] using s settled_snoc_blank [OF s] by simp
  next
    case nm: False
    show ?thesis
    proof (cases "?c = []")
      case True
      show ?thesis unfolding entry_empty(1) [OF nm True] by (rule s)
    next
      case False
      have "visible_end ?c" using False by (rule clean_caption_text_visible)
      then have "visible_end (if ts then format_timestamp (e_start e) @ '' - '' @ ?c else ?c)"
        by (simp add: visible_end_def)
      then show ?thesis
        unfolding txt_entry_text [OF nm refl False] by (rule settled_snoc_text)
    qed
  qed
qed

lemma settled_foldl: "settled ls \<Longrightarrow> settled (foldl (txt_entry ts kt) ls es)"
  by (induction es arbitrary: ls) (auto simp: settled_txt_entry)

lemma settled_header:
  "url \<noteq> [] \<Longrightarrow> \<not> py_isspace (last url) \<Longrightarrow> settled (txt_header url title)"
  by (simp add: settled_def txt_header_def visible_end_def butlast_append)

lemma settled_txt_lines:
  "url \<noteq> [] \<Longrightarrow> \<not> py_isspace (last url) \<Longrightarrow> settled (txt_lines t url title ts kt)"
  unfolding txt_lines_def by (rule settled_foldl) (rule settled_header)

lemma py_rstrip_visible:
  assumes "ls \<noteq> []" "visible_end (last ls)"
  shows "py_rstrip py_isspace (join_lines ls) = join_lines ls"
proof -
  have ls: "ls = butlast ls @ [last ls]" using assms(1) by simp
  have j: "join_lines ls =
           (if butlast ls = [] then [] else join_lines (butlast ls) @ [CHR 0x0A]) @ last ls"
    by (subst ls, subst join_lines_snoc) simp
  show ?thesis
    unfolding j using assms(2) by (intro py_rstrip_keep) (simp_all add: visible_end_def)
qed

lemma py_rstrip_newline: "py_rstrip py_isspace (s @ [CHR 0x0A]) = py_rstrip py_isspace s"
  by (simp add: py_rstrip_def py_isspace_def)

lemma py_rstrip_settled:
  assumes "settled ls"
  shows "py_rstrip py_isspace (join_lines ls) =
         join_lines (if last ls = [] then butlast ls else ls) \<and>
         last (if last ls = [] then butlast ls else ls) \<noteq> []"
proof (cases "last ls = []")
  case False
  then show ?thesis using assms py_rstrip_visible [of ls]
    by (simp add: settled_def visible_end_def)
next
  case True
  have ne: "ls \<noteq> []" and b: "butlast ls \<noteq> []" "visible_end (last (butlast ls))"
    using assms True by (simp_all add: settled_def)
  have ls: "ls = butlast ls @ [[]]" using ne True by (metis append_butlast_last_id)
  have j: "join_lines ls = join_lines (butlast ls) @ [CHR 0x0A]"
    by (subst ls, subst join_lines_snoc) (simp add: b)
  show ?thesis
    using True b py_rstrip_visible [OF b]
    by (simp add: j py_rstrip_newline visible_end_def)
qed

lemma write_txt_settled:
  assumes "url \<noteq> []" "\<not> py_isspace (last url)"
  shows "write_txt t url title ts kt =
           join_lines (if last (txt_lines t url title ts kt) = []
                       then butlast (txt_lines t url title ts kt)
                       else txt_lines t url title ts kt) @ [CHR 0x0A] \<and>
         last (if last (txt_lines t url title ts kt) = []
               then butlast (txt_lines t url title ts kt)
               else txt_lines t url title ts kt) \<noteq> []"
  using py_rstrip_settled [OF settled_txt_lines [OF assms, of t title ts kt]]
  by (simp add: write_txt_def)

lemma xml_compatible_chars:
  "xml_compatible s \<longleftrightarrow>
     (\<forall>c\<in>set s. (of_char c :: nat) \<in> {9, 10, 13} \<or> 32 \<le> (of_char c :: nat))"
  by (auto simp: xml_compatible_def xml_char_def list_all_iff Let_def)

text \<open>
  Claim C2, as amended. For every transcript, URL, title and flags the text's line list
  is its header followed by a body. The headers differ: the text has a title line only
  for a non-empty title, the document always has a heading (\<open>YouTube Transcript\<close> when
  the title is empty). When the title, the URL and every line of the body hold only
  characters that XML allows (tab, line feed, carriage return and the characters from
  U+0020 on), the texts of the document's paragraphs are the heading, the source line, an
  empty paragraph and that same body, line for line. Otherwise the document library
  raises its \<^verbatim>\<open>ValueError\<close>, which \<^verbatim>\<open>write_docx\<close> does not catch, and no document is
  written. Without the document library \<^verbatim>\<open>write_docx\<close> fails with its own error. The text
  written for a URL that does not end in whitespace is the line list joined by newlines
  and ended by one newline, without the empty line the list may end in, while the
  document keeps that empty paragraph.
\<close>

theorem renderers_same_lines:
  "(\<exists>body. txt_lines t url title ts kt = txt_header url title @ body \<and>
      map_sum id (map paragraph_text) (write_docx True t url title ts kt) =
        (if list_all xml_compatible (title # url # body)
         then Inr ([if title \<noteq> [] then title else ''YouTube Transcript'', ''Source: '' @ url, []]
                   @ body)
         else Inl (Uncaught xml_error))) \<and>
   write_docx False t url title ts kt =
     Inl (CliError ''Missing dependency 'python-docx'. Install it with pip before using --docx.'') \<and>
   (url \<noteq> [] \<and> \<not> py_isspace (last url) \<longrightarrow>
      write_txt t url title ts kt =
        join_lines (if last (txt_lines t url title ts kt) = []
                    then butlast (txt_lines t url title ts kt)
                    else txt_lines t url title ts kt) @ [CHR 0x0A] \<and>
      last (if last (txt_lines t url title ts kt) = []
            then butlast (txt_lines t url title ts kt)
            else txt_lines t url title ts kt) \<noteq> []) \<and>
   (\<forall>s. xml_compatible s \<longleftrightarrow>
        (\<forall>c\<in>set s. (of_char c :: nat) \<in> {9, 10, 13} \<or> 32 \<le> (of_char c :: nat)))"
  using docx_body_eq_txt_body [of t url title ts kt] write_txt_settled [of url t title ts kt]
    xml_compatible_chars
  by (simp add: write_docx_def)

lemma xml_compatible_url: "xml_compatible ''https://www.youtube.com/watch?v=dQw4w9WgXcQ''"
  by code_simp

lemma xml_compatible_words:
  "xml_compatible ''Demo''" "xml_compatible ''hello''" "xml_compatible ''world''"
  "\<not> xml_compatible (''beep'' @ [CHR 0x07])"
  by (simp_all add: xml_char_def)

lemma not_fullmatch_bell:
  "\<not> stage_direction_fullmatch (py_strip py_isspace (''beep'' @ [CHR 0x07]))"
  by code_simp

lemma clean_bell: "clean_caption_text (Some (''beep'' @ [CHR 0x07])) False = ''beep'' @ [CHR 0x07]"
  by code_simp

lemma txt_lines_bell:
  "txt_lines bell_example url title False False = txt_header url title @ [''beep'' @ [CHR 0x07]]"
  using txt_entry_content [where e = "\<lparr>e_text = ''beep'' @ [CHR 0x07], e_start = 0, e_duration = 1\<rparr>"
      and c = "''beep'' @ [CHR 0x07]" and ts = False and ls = "txt_header url title"]
    not_fullmatch_bell clean_bell
  by (simp add: txt_lines_def bell_example_def)

lemma txt_lines_music_only:
  "txt_lines music_only_example url title ts False = txt_header url title"
  by (simp add: txt_lines_def music_only_example_def txt_entry_marker fullmatch_music txt_header_last)

lemma url_end:
  "''https://www.youtube.com/watch?v=dQw4w9WgXcQ'' \<noteq> []"
  "\<not> py_isspace (last ''https://www.youtube.com/watch?v=dQw4w9WgXcQ'')"
  by (simp_all add: py_isspace_def)

theorem renderers_same_lines_witness:
  "map_sum id (map paragraph_text)
     (write_docx True stage_direction_example ''https://www.youtube.com/watch?v=dQw4w9WgXcQ''
        ''Demo'' False False) =
     Inr [''Demo'', ''Source: https://www.youtube.com/watch?v=dQw4w9WgXcQ'', [],
          ''hello'', [], ''world''] \<and>
   map_sum id (map paragraph_text)
     (write_docx True bell_example ''https://www.youtube.com/watch?v=dQw4w9WgXcQ''
        ''Demo'' False False) = Inl (Uncaught xml_error) \<and>
   write_txt music_only_example ''https://www.youtube.com/watch?v=dQw4w9WgXcQ'' ''Demo'' True False =
     ''Title: Demo'' @ [CHR 0x0A] @
     ''Source: https://www.youtube.com/watch?v=dQw4w9WgXcQ'' @ [CHR 0x0A] \<and>
   write_txt bell_example ''https://www.youtube.com/watch?v=dQw4w9WgXcQ'' ''Demo'' False False =
     ''Title: Demo'' @ [CHR 0x0A] @
     ''Source: https://www.youtube.com/watch?v=dQw4w9WgXcQ'' @ [CHR 0x0A, CHR 0x0A] @
     ''beep'' @ [CHR 0x07, CHR 0x0A]"
proof -
  let ?u = "''https://www.youtube.com/watch?v=dQw4w9WgXcQ''"
  note T = renderers_same_lines [where url = ?u and title = "''Demo''"]
  have a: "map_sum id (map paragraph_text)
     (write_docx True stage_direction_example ?u ''Demo'' False False) =
     Inr [''Demo'', ''Source: '' @ ?u, [], ''hello'', [], ''world'']"
  proof -
    obtain body where b: "txt_lines stage_direction_example ?u ''Demo'' False False =
        txt_header ?u ''Demo'' @ body"
      and d: "map_sum id (map paragraph_text)
        (write_docx True stage_direction_example ?u ''Demo'' False False) =
        (if list_all xml_compatible (''Demo'' # ?u # body)
         then Inr ([if ''Demo'' \<noteq> [] then ''Demo'' else ''YouTube Transcript'', ''Source: '' @ ?u, []]
                   @ body)
         else Inl (Uncaught xml_error))"
      using T [where t = stage_direction_example and ts = False and kt = False, THEN conjunct1]
      by blast
    have "body = [''hello'', [], ''world'']"
      using b unfolding txt_lines_example by simp
    then show ?thesis
      unfolding d using xml_compatible_url xml_compatible_words by simp
  qed
  have b: "map_sum id (map paragraph_text)
     (write_docx True bell_example ?u ''Demo'' False False) = Inl (Uncaught xml_error)"
  proof -
    obtain body where b: "txt_lines bell_example ?u ''Demo'' False False =
        txt_header ?u ''Demo'' @ body"
      and d: "map_sum id (map paragraph_text)
        (write_docx True bell_example ?u ''Demo'' False False) =
        (if list_all xml_compatible (''Demo'' # ?u # body)
         then Inr ([if ''Demo'' \<noteq> [] then ''Demo'' else ''YouTube Transcript'', ''Source: '' @ ?u, []]
                   @ body)
         else Inl (Uncaught xml_error))"
      using T [where t = bell_example and ts = False and kt = False, THEN conjunct1]
      by blast
    have "body = [''beep'' @ [CHR 0x07]]"
      using b unfolding txt_lines_bell by simp
    then show ?thesis
      unfolding d using xml_compatible_words by simp
  qed
  have c: "write_txt music_only_example ?u ''Demo'' True False =
     ''Title: Demo'' @ [CHR 0x0A] @ ''Source: '' @ ?u @ [CHR 0x0A]"
    using T [where t = music_only_example and ts = True and kt = False,
        THEN conjunct2, THEN conjunct2, THEN conjunct1] url_end
    by (simp add: txt_lines_music_only txt_header_def)
  have d: "write_txt bell_example ?u ''Demo'' False False =
     ''Title: Demo'' @ [CHR 0x0A] @ ''Source: '' @ ?u @ [CHR 0x0A, CHR 0x0A] @
     ''beep'' @ [CHR 0x07, CHR 0x0A]"
    using T [where t = bell_example and ts = False and kt = False,
        THEN conjunct2, THEN conjunct2, THEN conjunct1] url_end
    by (simp add: txt_lines_bell txt_header_def)
  show ?thesis using a b c d by simp
qed

lemma write_txt_music_only:
  "write_txt music_only_example ''https://www.youtube.com/watch?v=dQw4w9WgXcQ'' ''Demo'' True False =
   ''Title: Demo'' @ [CHR 0x0A] @ ''Source: https://www.youtube.com/watch?v=dQw4w9WgXcQ'' @ [CHR 0x0A]"
  by (simp add: write_txt_def txt_lines_music_only txt_header_def py_rstrip_def py_isspace_def)

lemma file_lines_music_only:
  "file_lines (write_txt music_only_example ''https://www.youtube.com/watch?v=dQw4w9WgXcQ'' ''Demo'' True False) =
   [''Title: Demo'', ''Source: https://www.youtube.com/watch?v=dQw4w9WgXcQ'']"
  by (simp add: write_txt_music_only file_lines_def)

lemma write_txt_bell:
  "write_txt bell_example ''https://www.youtube.com/watch?v=dQw4w9WgXcQ'' ''Demo'' False False =
     ''Title: Demo'' @ [CHR 0x0A] @
     ''Source: https://www.youtube.com/watch?v=dQw4w9WgXcQ'' @ [CHR 0x0A, CHR 0x0A] @
     ''beep'' @ [CHR 0x07, CHR 0x0A]"
  by (simp add: write_txt_def txt_lines_bell txt_header_def py_rstrip_def py_isspace_def)

lemma map_sum_Inl: "map_sum id f x = Inl e \<Longrightarrow> x = Inl e"
  by (cases x) simp_all

lemma write_docx_bell:
  "write_docx True bell_example ''https://www.youtube.com/watch?v=dQw4w9WgXcQ'' ''Demo'' False False =
   Inl (Uncaught xml_error)"
proof -
  have "map_sum id (map paragraph_text)
          (write_docx True bell_example ''https://www.youtube.com/watch?v=dQw4w9WgXcQ'' ''Demo''
             False False) = Inl (Uncaught xml_error)"
    unfolding docx_text_eq_txt_lines txt_lines_bell
    using xml_compatible_words by (simp add: txt_header_def)
  then show ?thesis by (rule map_sum_Inl)
qed

text \<open>
  The claim as stated fails. For a transcript that holds only \<open>[Music]\<close> the text written
  has two lines and no empty one, the document three paragraphs, the last one empty; with
  an empty title the text has one header line where the document has two; and for a
  caption that ends in the control character U+0007 the text is written while the
  document writer fails.
\<close>

theorem renderers_same_lines_counterexample:
  "blank_pattern (file_lines (write_txt music_only_example
       ''https://www.youtube.com/watch?v=dQw4w9WgXcQ'' ''Demo'' True False)) = [False, False] \<and>
   map_sum id blank_pattern (map_sum id (map paragraph_text) (write_docx True music_only_example
       ''https://www.youtube.com/watch?v=dQw4w9WgXcQ'' ''Demo'' True False)) =
     Inr [False, False, True] \<and>
   blank_pattern (txt_lines stage_direction_example
       ''https://www.youtube.com/watch?v=dQw4w9WgXcQ'' [] False False) =
     [False, True, False, True, False] \<and>
   map_sum id blank_pattern (map_sum id (map paragraph_text) (write_docx True stage_direction_example
       ''https://www.youtube.com/watch?v=dQw4w9WgXcQ'' [] False False)) =
     Inr [False, False, True, False, True, False] \<and>
   write_txt bell_example ''https://www.youtube.com/watch?v=dQw4w9WgXcQ'' ''Demo'' False False =
     ''Title: Demo'' @ [CHR 0x0A] @
     ''Source: https://www.youtube.com/watch?v=dQw4w9WgXcQ'' @ [CHR 0x0A, CHR 0x0A] @
     ''beep'' @ [CHR 0x07, CHR 0x0A] \<and>
   write_docx True bell_example ''https://www.youtube.com/watch?v=dQw4w9WgXcQ'' ''Demo'' False False =
     Inl (Uncaught xml_error)"
  using xml_compatible_url xml_compatible_words
  by (simp add: file_lines_music_only docx_text_eq_txt_lines txt_lines_music_only txt_lines_example
      txt_header_def blank_pattern_def write_txt_bell write_docx_bell xml_char_def)

section \<open>Properties of the transcript resolver\<close>

lemma list_transcripts_retry:
  assumes "calls a = Inl (Raised c m)" "retryable c" "int a < retries"
  shows "list_transcripts calls v retries a =
         (fst (list_transcripts calls v retries (a + 1)),
          [ApiList v, RetryWarning (int a + 1) (retries + 1) m (retry_delay a), Sleep (retry_delay a)]
          @ snd (list_transcripts calls v retries (a + 1)))"
  using assms by (subst list_transcripts.simps) (simp add: retryable_def Let_def)

lemma list_transcripts_definitive:
  assumes "calls a = Inl (Raised c m)" "c = VideoUnavailable \<or> c = TranscriptsDisabled"
    "int a \<le> retries"
  shows "list_transcripts calls v retries a =
         (Inl (CliError (if c = VideoUnavailable
                         then ''The video is unavailable or restricted in this region.''
                         else ''Captions are disabled for this video.'')), [ApiList v])"
  using assms by (subst list_transcripts.simps) auto

lemma list_transcripts_exhausted:
  assumes "calls a = Inl (Raised c m)" "retryable c" "int a = retries"
  shows "list_transcripts calls v retries a =
         (Inl (CliError (''Failed to fetch transcript list: '' @ m)), [ApiList v])"
  using assms by (subst list_transcripts.simps) (simp add: retryable_def)

lemma list_transcripts_uncaught:
  assumes "calls a = Inl (Raised c m)" "\<not> is_api_exception c" "int a \<le> retries"
  shows "list_transcripts calls v retries a = (Inl (Uncaught (Raised c m)), [ApiList v])"
  using assms by (subst list_transcripts.simps) (auto simp: is_api_exception_def)

lemma list_transcripts_success:
  assumes "calls a = Inr ts" "int a \<le> retries"
  shows "list_transcripts calls v retries a = (Inr (Some ts), [ApiList v])"
  using assms by (subst list_transcripts.simps) auto

lemma sleeps_simps [simp]:
  "sleeps [] = []" "sleeps (Sleep d # evs) = d # sleeps evs"
  "sleeps (ApiList x # evs) = sleeps evs" "sleeps (RetryWarning i j s r # evs) = sleeps evs"
  "sleeps (xs @ ys) = sleeps xs @ sleeps ys"
  by (simp_all add: sleeps_def)

lemma list_calls_simps [simp]:
  "list_calls [] = 0" "list_calls (Sleep d # evs) = list_calls evs"
  "list_calls (ApiList x # evs) = Suc (list_calls evs)"
  "list_calls (RetryWarning i j s r # evs) = list_calls evs"
  "list_calls (xs @ ys) = list_calls xs + list_calls ys"
  by (simp_all add: list_calls_def)

lemma list_transcripts_first_event:
  assumes "int a \<le> retries"
  shows "\<exists>rest. snd (list_transcripts calls v retries a) = ApiList v # rest"
  using assms
  by (subst list_transcripts.simps) (auto simp: Let_def split: sum.splits raised.splits)

lemma list_transcripts_retries:
  assumes "\<forall>j. a \<le> j \<and> j < a + k \<longrightarrow> (\<exists>c. calls j = Inl (Raised c (msg j)) \<and> retryable c)"
    and "int (a + k) \<le> retries"
  shows "list_transcripts calls v retries a =
         (fst (list_transcripts calls v retries (a + k)),
          concat (map (\<lambda>j. [ApiList v,
                             RetryWarning (int j + 1) (retries + 1) (msg j)
                               (min 5 (3 / 2 * (real j + 1))),
                             Sleep (min 5 (3 / 2 * (real j + 1)))]) [a..<a + k]) @
          snd (list_transcripts calls v retries (a + k)))"
  using assms
proof (induction k arbitrary: a)
  case 0
  then show ?case by simp
next
  case (Suc k)
  have "a \<le> a \<and> a < a + Suc k" by simp
  then have "\<exists>c. calls a = Inl (Raised c (msg a)) \<and> retryable c" using Suc.prems(1) by blast
  then obtain c where c: "calls a = Inl (Raised c (msg a))" "retryable c" by blast
  have lt: "int a < retries" using Suc.prems(2) by simp
  have step: "list_transcripts calls v retries a =
         (fst (list_transcripts calls v retries (a + 1)),
          [ApiList v, RetryWarning (int a + 1) (retries + 1) (msg a) (retry_delay a),
           Sleep (retry_delay a)]
          @ snd (list_transcripts calls v retries (a + 1)))"
    using c lt by (rule list_transcripts_retry)
  have ih: "list_transcripts calls v retries (a + 1) =
         (fst (list_transcripts calls v retries (a + 1 + k)),
          concat (map (\<lambda>j. [ApiList v,
                             RetryWarning (int j + 1) (retries + 1) (msg j)
                               (min 5 (3 / 2 * (real j + 1))),
                             Sleep (min 5 (3 / 2 * (real j + 1)))]) [a + 1..<a + 1 + k]) @
          snd (list_transcripts calls v retries (a + 1 + k)))"
    using Suc.prems by (intro Suc.IH) auto
  have upt: "[a..<a + Suc k] = a # [a + 1..<a + 1 + k]"
    by (simp add: upt_rec)
  define R1 where "R1 = list_transcripts calls v retries (a + 1)"
  define R2 where "R2 = list_transcripts calls v retries (a + 1 + k)"
  have s1: "list_transcripts calls v retries a =
         (fst R1,
          [ApiList v, RetryWarning (int a + 1) (retries + 1) (msg a) (retry_delay a),
           Sleep (retry_delay a)] @ snd R1)"
    using step by (simp add: R1_def)
  have s2: "R1 =
         (fst R2,
          concat (map (\<lambda>j. [ApiList v,
                             RetryWarning (int j + 1) (retries + 1) (msg j)
                               (min 5 (3 / 2 * (real j + 1))),
                             Sleep (min 5 (3 / 2 * (real j + 1)))]) [a + 1..<a + 1 + k]) @
          snd R2)"
    using ih by (simp add: R1_def R2_def)
  have r2: "list_transcripts calls v retries (a + Suc k) = R2" by (simp add: R2_def)
  show ?case
    unfolding upt r2 s1 by (subst s2, subst s2) (simp add: retry_delay_def)
qed

lemma list_transcripts_after_retries:
  assumes k: "int k \<le> retries"
    and before: "\<forall>j<k. \<exists>c. calls j = Inl (Raised c (msg j)) \<and> retryable c"
  shows "list_transcripts calls v retries 0 =
         (fst (list_transcripts calls v retries k),
          retry_events v retries msg k @ snd (list_transcripts calls v retries k))"
  using list_transcripts_retries [where a = 0 and k = k and calls = calls and retries = retries
      and v = v and msg = msg] k before
  by (simp add: retry_events_def)

lemma fetch_transcript_list_failure:
  assumes "api_installed env"
    and "fst (list_transcripts (api_list env v) v retries 0) = Inl f"
  shows "fetch_transcript env v pg langs tr retries =
         (Inl f, snd (list_transcripts (api_list env v) v retries 0))"
  using assms by (simp add: fetch_transcript_def Let_def)

lemma fetch_transcript_after_retries:
  assumes inst: "api_installed env"
    and l: "list_transcripts (api_list env v) v retries 0 = (Inr (Some ts), evs @ [ApiList v])"
    and r: "0 \<le> retries"
  shows "fst (fetch_transcript env v pg langs tr retries) =
           fst (fetch_transcript (env\<lparr>api_list := (\<lambda>video_id attempt. Inr ts)\<rparr>) v pg langs tr retries) \<and>
         snd (fetch_transcript env v pg langs tr retries) =
           evs @ snd (fetch_transcript (env\<lparr>api_list := (\<lambda>video_id attempt. Inr ts)\<rparr>) v pg langs tr retries)"
proof -
  have l0: "list_transcripts (\<lambda>attempt. Inr ts) v retries 0 = (Inr (Some ts), [ApiList v])"
    using r by (intro list_transcripts_success) simp_all
  show ?thesis
    using inst
    by (simp add: fetch_transcript_def l l0 Let_def split: sum.splits option.splits prod.splits)
qed

text \<open>
  Claim C6, as amended. Let the first \<open>k\<close> calls of \<^verbatim>\<open>api.list\<close> fail with retryable
  exceptions (classes of the captions library's hierarchy other than video-unavailable
  and captions-disabled), \<open>k\<close> within the retry budget. Then each of these calls is
  followed by a warning and a sleep of \<open>min 5 (1.5 * attempt)\<close> seconds, the attempts
  counted from one, and by the next call. If call \<open>k\<close> fails as video-unavailable or
  captions-disabled, \<^verbatim>\<open>fetch_transcript\<close> fails with the matching error at once and makes
  no further call. If it fails with a retryable exception and \<open>k\<close> is the budget,
  \<^verbatim>\<open>fetch_transcript\<close> fails with the transcript-list-failed error; if \<open>k\<close> is below the
  budget, the warning, the sleep and another call follow. If it fails with an exception
  outside the library's hierarchy, that exception is not caught and ends the run with no
  retry. If it answers, the run goes on as if the first call had answered, after the
  events of the \<open>k\<close> retries. In each case the events of the run are given in full and in
  order.
\<close>

theorem list_retry_policy:
  assumes inst: "api_installed env"
    and k: "int k \<le> retries"
    and before: "\<forall>j<k. \<exists>c. api_list env v j = Inl (Raised c (msg j)) \<and> retryable c"
  shows "(\<forall>m. api_list env v k = Inl (Raised VideoUnavailable m) \<longrightarrow>
            fetch_transcript env v pg langs tr retries =
              (Inl (CliError ''The video is unavailable or restricted in this region.''),
               retry_events v retries msg k @ [ApiList v])) \<and>
         (\<forall>m. api_list env v k = Inl (Raised TranscriptsDisabled m) \<longrightarrow>
            fetch_transcript env v pg langs tr retries =
              (Inl (CliError ''Captions are disabled for this video.''),
               retry_events v retries msg k @ [ApiList v])) \<and>
         (\<forall>c m. api_list env v k = Inl (Raised c m) \<and> retryable c \<and> int k = retries \<longrightarrow>
            fetch_transcript env v pg langs tr retries =
              (Inl (CliError (''Failed to fetch transcript list: '' @ m)),
               retry_events v retries msg k @ [ApiList v])) \<and>
         (\<forall>c m. api_list env v k = Inl (Raised c m) \<and> retryable c \<and> int k < retries \<longrightarrow>
            (\<exists>rest. snd (fetch_transcript env v pg langs tr retries) =
               retry_events v retries (msg(k := m)) (k + 1) @ ApiList v # rest)) \<and>
         (\<forall>c m. api_list env v k = Inl (Raised c m) \<and> \<not> is_api_exception c \<longrightarrow>
            fetch_transcript env v pg langs tr retries =
              (Inl (Uncaught (Raised c m)), retry_events v retries msg k @ [ApiList v])) \<and>
         (\<forall>ts. api_list env v k = Inr ts \<longrightarrow>
            list_transcripts (api_list env v) v retries 0 =
              (Inr (Some ts), retry_events v retries msg k @ [ApiList v]) \<and>
            fst (fetch_transcript env v pg langs tr retries) =
              fst (fetch_transcript (env\<lparr>api_list := (\<lambda>video_id attempt. Inr ts)\<rparr>)
                     v pg langs tr retries) \<and>
            snd (fetch_transcript env v pg langs tr retries) =
              retry_events v retries msg k @
              snd (fetch_transcript (env\<lparr>api_list := (\<lambda>video_id attempt. Inr ts)\<rparr>)
                     v pg langs tr retries)) \<and>
         (\<forall>j. retry_delay j = min 5 (3 / 2 * (real j + 1)))"
proof -
  let ?L = "list_transcripts (api_list env v) v retries"
  have pre: "?L 0 = (fst (?L k), retry_events v retries msg k @ snd (?L k))"
    using k before by (rule list_transcripts_after_retries)
  have fin: "fetch_transcript env v pg langs tr retries =
               (Inl f, retry_events v retries msg k @ [ApiList v])"
    if "?L k = (Inl f, [ApiList v])" for f
  proof -
    have t: "?L 0 = (Inl f, retry_events v retries msg k @ [ApiList v])"
      using pre that by simp
    then have "fetch_transcript env v pg langs tr retries = (Inl f, snd (?L 0))"
      using inst by (intro fetch_transcript_list_failure) simp_all
    then show ?thesis using t by simp
  qed
  have a: "fetch_transcript env v pg langs tr retries =
              (Inl (CliError ''The video is unavailable or restricted in this region.''),
               retry_events v retries msg k @ [ApiList v])"
    if "api_list env v k = Inl (Raised VideoUnavailable m)" for m
    using list_transcripts_definitive [where calls = "api_list env v" and a = k
        and c = VideoUnavailable and m = m and v = v and retries = retries] k that
    by (intro fin) simp
  have b: "fetch_transcript env v pg langs tr retries =
              (Inl (CliError ''Captions are disabled for this video.''),
               retry_events v retries msg k @ [ApiList v])"
    if "api_list env v k = Inl (Raised TranscriptsDisabled m)" for m
    using list_transcripts_definitive [where calls = "api_list env v" and a = k
        and c = TranscriptsDisabled and m = m and v = v and retries = retries] k that
    by (intro fin) simp
  have c: "fetch_transcript env v pg langs tr retries =
              (Inl (CliError (''Failed to fetch transcript list: '' @ m)),
               retry_events v retries msg k @ [ApiList v])"
    if "api_list env v k = Inl (Raised c m) \<and> retryable c \<and> int k = retries" for c m
    using list_transcripts_exhausted [where calls = "api_list env v" and a = k and c = c
        and m = m and v = v and retries = retries] that
    by (intro fin) simp
  have d: "\<exists>rest. snd (fetch_transcript env v pg langs tr retries) =
               retry_events v retries (msg(k := m)) (k + 1) @ ApiList v # rest"
    if h: "api_list env v k = Inl (Raised c m) \<and> retryable c \<and> int k < retries" for c m
  proof -
    have k1: "int (k + 1) \<le> retries" using h by simp
    have b1: "\<forall>j<k + 1. \<exists>c. api_list env v j = Inl (Raised c ((msg(k := m)) j)) \<and> retryable c"
      using before h by (auto simp: less_Suc_eq)
    have p: "?L 0 = (fst (?L (k + 1)),
               retry_events v retries (msg(k := m)) (k + 1) @ snd (?L (k + 1)))"
      using k1 b1 by (rule list_transcripts_after_retries)
    obtain r0 where r0: "snd (?L (k + 1)) = ApiList v # r0"
      using list_transcripts_first_event [OF k1] by blast
    have "\<exists>r1. snd (fetch_transcript env v pg langs tr retries) = snd (?L 0) @ r1"
      using inst
      by (simp add: fetch_transcript_def Let_def split: sum.splits option.splits prod.splits)
    then obtain r1 where "snd (fetch_transcript env v pg langs tr retries) = snd (?L 0) @ r1"
      by blast
    then have "snd (fetch_transcript env v pg langs tr retries) =
               retry_events v retries (msg(k := m)) (k + 1) @ ApiList v # (r0 @ r1)"
      using p r0 by simp
    then show ?thesis by blast
  qed
  have e: "fetch_transcript env v pg langs tr retries =
              (Inl (Uncaught (Raised c m)), retry_events v retries msg k @ [ApiList v])"
    if "api_list env v k = Inl (Raised c m) \<and> \<not> is_api_exception c" for c m
    using list_transcripts_uncaught [where calls = "api_list env v" and a = k and c = c
        and m = m and v = v and retries = retries] that k
    by (intro fin) simp
  have f: "list_transcripts (api_list env v) v retries 0 =
              (Inr (Some ts), retry_events v retries msg k @ [ApiList v]) \<and>
            fst (fetch_transcript env v pg langs tr retries) =
              fst (fetch_transcript (env\<lparr>api_list := (\<lambda>video_id attempt. Inr ts)\<rparr>)
                     v pg langs tr retries) \<and>
            snd (fetch_transcript env v pg langs tr retries) =
              retry_events v retries msg k @
              snd (fetch_transcript (env\<lparr>api_list := (\<lambda>video_id attempt. Inr ts)\<rparr>)
                     v pg langs tr retries)"
    if h: "api_list env v k = Inr ts" for ts
  proof -
    have "?L k = (Inr (Some ts), [ApiList v])"
      using h k by (rule list_transcripts_success)
    then have l: "?L 0 = (Inr (Some ts), retry_events v retries msg k @ [ApiList v])"
      using pre by simp
    have r: "0 \<le> retries" using k by simp
    show ?thesis
      using l fetch_transcript_after_retries [OF inst l r, of pg langs tr] by simp
  qed
  have g: "\<forall>j. retry_delay j = min 5 (3 / 2 * (real j + 1))"
    by (simp add: retry_delay_def)
  show ?thesis
    using a b c d e f g by blast
qed

lemma retry_events_two:
  "retry_events v 2 (\<lambda>j. m) 2 =
   [ApiList v, RetryWarning 1 3 m (3 / 2), Sleep (3 / 2),
    ApiList v, RetryWarning 2 3 m 3, Sleep 3]"
proof -
  have "[0..<2] = [0, Suc 0]" by (simp add: upt_rec)
  then show ?thesis by (simp add: retry_events_def)
qed

lemma retry_events_one:
  "retry_events v 2 (\<lambda>j. m) (Suc 0) = [ApiList v, RetryWarning 1 3 m (3 / 2), Sleep (3 / 2)]"
  by (simp add: retry_events_def)

lemma retry_events_none: "retry_events v r msg 0 = []"
  by (simp add: retry_events_def)

lemma fetch_transcript_first_call:
  "fetch_transcript
     \<lparr>api_installed = True,
      api_list = (\<lambda>video_id attempt. Inr (transcript_list_of [] [example_track ''en'' untranslatable]))\<rparr>
     ''dQw4w9WgXcQ'' False [''en''] None 2 =
   (Inr \<lparr>kind = ''manual'', source_kind = Some ''manual'', language = ''en'',
         translated_to = None,
         entries = [\<lparr>e_text = ''Hello, world.'', e_start = 0, e_duration = 2\<rparr>]\<rparr>,
    [ApiList ''dQw4w9WgXcQ'', UsingCaptionsInfo ''manual'' ''en''])"
proof -
  have l: "list_transcripts
             (\<lambda>attempt. Inr (transcript_list_of [] [example_track ''en'' untranslatable]))
             ''dQw4w9WgXcQ'' 2 0 =
           (Inr (Some (transcript_list_of [] [example_track ''en'' untranslatable])),
            [ApiList ''dQw4w9WgXcQ''])"
    by (rule list_transcripts_success) simp_all
  have s: "select_track
             (search_order (transcript_list_of [] [example_track ''en'' untranslatable]) False)
             (language_preferences_of [''en'']) =
           Inr (Some (example_track ''en'' untranslatable, ''manual''))"
    by (simp add: search_order_def transcript_list_of_def example_track_def
        language_preferences_of_def dict_fromkeys_def)
  have r: "resolve_entries (example_track ''en'' untranslatable) ''manual'' None =
           (Inr \<lparr>kind = ''manual'', source_kind = Some ''manual'', language = ''en'',
                 translated_to = None,
                 entries = [\<lparr>e_text = ''Hello, world.'', e_start = 0, e_duration = 2\<rparr>]\<rparr>,
            [UsingCaptionsInfo ''manual'' ''en''])"
    by (simp add: resolve_entries_def original_selection_def normalize_entries_def
        example_track_def Let_def)
  show ?thesis
    by (simp add: fetch_transcript_def l s r Let_def)
qed

theorem list_retry_policy_witness:
  "fetch_transcript (failing_list_env YouTubeTranscriptApiException ''HTTP 500'')
     ''dQw4w9WgXcQ'' False [] None 2 =
     (Inl (CliError ''Failed to fetch transcript list: HTTP 500''),
      [ApiList ''dQw4w9WgXcQ'', RetryWarning 1 3 ''HTTP 500'' (3 / 2), Sleep (3 / 2),
       ApiList ''dQw4w9WgXcQ'', RetryWarning 2 3 ''HTTP 500'' 3, Sleep 3,
       ApiList ''dQw4w9WgXcQ'']) \<and>
   fetch_transcript (failing_list_env VideoUnavailable ''unavailable'')
     ''dQw4w9WgXcQ'' False [] None 2 =
     (Inl (CliError ''The video is unavailable or restricted in this region.''),
      [ApiList ''dQw4w9WgXcQ'']) \<and>
   fetch_transcript (failing_list_env TranscriptsDisabled ''disabled'')
     ''dQw4w9WgXcQ'' False [] None 2 =
     (Inl (CliError ''Captions are disabled for this video.''), [ApiList ''dQw4w9WgXcQ'']) \<and>
   fetch_transcript (failing_list_env ValueError ''bad value'')
     ''dQw4w9WgXcQ'' False [] None 2 =
     (Inl (Uncaught (Raised ValueError ''bad value'')), [ApiList ''dQw4w9WgXcQ'']) \<and>
   fetch_transcript
     (flaky_list_env 1 (transcript_list_of [] [example_track ''en'' untranslatable]))
     ''dQw4w9WgXcQ'' False [''en''] None 2 =
     (Inr \<lparr>kind = ''manual'', source_kind = Some ''manual'', language = ''en'',
           translated_to = None,
           entries = [\<lparr>e_text = ''Hello, world.'', e_start = 0, e_duration = 2\<rparr>]\<rparr>,
      [ApiList ''dQw4w9WgXcQ'', RetryWarning 1 3 ''HTTP 500'' (3 / 2), Sleep (3 / 2),
       ApiList ''dQw4w9WgXcQ'', UsingCaptionsInfo ''manual'' ''en''])"
proof -
  let ?v = "''dQw4w9WgXcQ''"
  have r: "retryable YouTubeTranscriptApiException"
    by (simp add: retryable_def is_api_exception_def)
  have n: "\<not> is_api_exception ValueError" by (simp add: is_api_exception_def)
  have inst: "api_installed (failing_list_env c m)" "api_installed (flaky_list_env j ts)"
    for c m j ts
    by (simp_all add: failing_list_env_def flaky_list_env_def)
  have b2: "\<forall>j<2. \<exists>c. api_list (failing_list_env YouTubeTranscriptApiException ''HTTP 500'') ?v j =
              Inl (Raised c ((\<lambda>j. ''HTTP 500'') j)) \<and> retryable c"
    using r by (simp add: failing_list_env_def)
  have b0: "\<forall>j<0. \<exists>c. api_list env ?v j = Inl (Raised c ((\<lambda>j. ''HTTP 500'') j)) \<and> retryable c"
    for env :: environment
    by simp
  have b1: "\<forall>j<1. \<exists>c. api_list (flaky_list_env 1 ts) ?v j =
              Inl (Raised c ((\<lambda>j. ''HTTP 500'') j)) \<and> retryable c" for ts
    using r by (simp add: flaky_list_env_def)
  note A = list_retry_policy [where env = "failing_list_env YouTubeTranscriptApiException ''HTTP 500''"
      and k = 2 and retries = 2 and v = ?v and msg = "\<lambda>j. ''HTTP 500''" and pg = False
      and langs = "[]" and tr = None, OF inst(1) _ b2,
      THEN conjunct2, THEN conjunct2, THEN conjunct1, rule_format,
      where c = YouTubeTranscriptApiException and m = "''HTTP 500''"]
  note B = list_retry_policy [where env = "failing_list_env VideoUnavailable ''unavailable''"
      and k = 0 and retries = 2 and v = ?v and msg = "\<lambda>j. ''HTTP 500''" and pg = False
      and langs = "[]" and tr = None, OF inst(1) _ b0,
      THEN conjunct1, rule_format, where m = "''unavailable''"]
  note C = list_retry_policy [where env = "failing_list_env TranscriptsDisabled ''disabled''"
      and k = 0 and retries = 2 and v = ?v and msg = "\<lambda>j. ''HTTP 500''" and pg = False
      and langs = "[]" and tr = None, OF inst(1) _ b0,
      THEN conjunct2, THEN conjunct1, rule_format, where m = "''disabled''"]
  note D = list_retry_policy [where env = "failing_list_env ValueError ''bad value''"
      and k = 0 and retries = 2 and v = ?v and msg = "\<lambda>j. ''HTTP 500''" and pg = False
      and langs = "[]" and tr = None, OF inst(1) _ b0,
      THEN conjunct2, THEN conjunct2, THEN conjunct2, THEN conjunct2, THEN conjunct1, rule_format,
      where c = ValueError and m = "''bad value''"]
  note E = list_retry_policy [where
      env = "flaky_list_env 1 (transcript_list_of [] [example_track ''en'' untranslatable])"
      and k = 1 and retries = 2 and v = ?v and msg = "\<lambda>j. ''HTTP 500''" and pg = False
      and langs = "[''en'']" and tr = None, OF inst(2) _ b1,
      THEN conjunct2, THEN conjunct2, THEN conjunct2, THEN conjunct2, THEN conjunct2,
      THEN conjunct1, rule_format,
      where ts = "transcript_list_of [] [example_track ''en'' untranslatable]"]
  have a: "fetch_transcript (failing_list_env YouTubeTranscriptApiException ''HTTP 500'')
     ?v False [] None 2 =
     (Inl (CliError ''Failed to fetch transcript list: HTTP 500''),
      [ApiList ?v, RetryWarning 1 3 ''HTTP 500'' (3 / 2), Sleep (3 / 2),
       ApiList ?v, RetryWarning 2 3 ''HTTP 500'' 3, Sleep 3, ApiList ?v])"
    using A r by (simp add: failing_list_env_def retry_events_two)
  have b: "fetch_transcript (failing_list_env VideoUnavailable ''unavailable'') ?v False [] None 2 =
     (Inl (CliError ''The video is unavailable or restricted in this region.''), [ApiList ?v])"
    using B by (simp add: failing_list_env_def retry_events_none)
  have c: "fetch_transcript (failing_list_env TranscriptsDisabled ''disabled'') ?v False [] None 2 =
     (Inl (CliError ''Captions are disabled for this video.''), [ApiList ?v])"
    using C by (simp add: failing_list_env_def retry_events_none)
  have d: "fetch_transcript (failing_list_env ValueError ''bad value'') ?v False [] None 2 =
     (Inl (Uncaught (Raised ValueError ''bad value'')), [ApiList ?v])"
    using D n by (simp add: failing_list_env_def retry_events_none)
  have e: "fetch_transcript
     (flaky_list_env 1 (transcript_list_of [] [example_track ''en'' untranslatable]))
     ?v False [''en''] None 2 =
     (Inr \<lparr>kind = ''manual'', source_kind = Some ''manual'', language = ''en'',
           translated_to = None,
           entries = [\<lparr>e_text = ''Hello, world.'', e_start = 0, e_duration = 2\<rparr>]\<rparr>,
      [ApiList ?v, RetryWarning 1 3 ''HTTP 500'' (3 / 2), Sleep (3 / 2),
       ApiList ?v, UsingCaptionsInfo ''manual'' ''en''])"
  proof -
    have "api_list (flaky_list_env 1 (transcript_list_of [] [example_track ''en'' untranslatable]))
            ?v 1 = Inr (transcript_list_of [] [example_track ''en'' untranslatable])"
      by (simp add: flaky_list_env_def)
    from E [OF _ this] show ?thesis
      by (simp add: flaky_list_env_def fetch_transcript_first_call retry_events_one prod_eq_iff)
  qed
  show ?thesis using a b c d e by simp
qed

text \<open>
  The claim as stated fails: a listing failure that is not an exception of the library's
  hierarchy (a dropped connection, say) is not retried, whatever the budget.
\<close>

lemma fetch_transcript_other_exception:
  "fetch_transcript (failing_list_env OtherException ''Connection reset by peer'')
     ''dQw4w9WgXcQ'' False [] None 2 =
   (Inl (Uncaught (Raised OtherException ''Connection reset by peer'')), [ApiList ''dQw4w9WgXcQ''])"
  by (simp add: fetch_transcript_def failing_list_env_def list_transcripts.simps
      is_api_exception_def Let_def)

theorem list_retry_policy_counterexample:
  "fst (fetch_transcript (failing_list_env OtherException ''Connection reset by peer'')
          ''dQw4w9WgXcQ'' False [] None 2) =
     Inl (Uncaught (Raised OtherException ''Connection reset by peer'')) \<and>
   list_calls (snd (fetch_transcript (failing_list_env OtherException ''Connection reset by peer'')
          ''dQw4w9WgXcQ'' False [] None 2)) = 1 \<and>
   sleeps (snd (fetch_transcript (failing_list_env OtherException ''Connection reset by peer'')
          ''dQw4w9WgXcQ'' False [] None 2)) = []"
  by (simp add: fetch_transcript_other_exception)

lemma select_track_generated_first:
  "find_generated_transcript ts prefs = Inr t \<Longrightarrow>
   select_track (search_order ts True) prefs = Inr (Some (t, ''generated''))"
  by (simp add: search_order_def)

lemma select_track_generated_then_manual:
  "find_generated_transcript ts prefs = Inl (Raised NoTranscriptFound m) \<Longrightarrow>
   find_manually_created_transcript ts prefs = Inr t \<Longrightarrow>
   select_track (search_order ts True) prefs = Inr (Some (t, ''manual''))"
  by (simp add: search_order_def)

lemma select_track_manual_first:
  "find_manually_created_transcript ts prefs = Inr t \<Longrightarrow>
   select_track (search_order ts False) prefs = Inr (Some (t, ''manual''))"
  by (simp add: search_order_def)

lemma select_track_manual_then_generated:
  "find_manually_created_transcript ts prefs = Inl (Raised NoTranscriptFound m) \<Longrightarrow>
   find_generated_transcript ts prefs = Inr t \<Longrightarrow>
   select_track (search_order ts False) prefs = Inr (Some (t, ''generated''))"
  by (simp add: search_order_def)

lemma select_track_none:
  "find_generated_transcript ts prefs = Inl (Raised NoTranscriptFound m) \<Longrightarrow>
   find_manually_created_transcript ts prefs = Inl (Raised NoTranscriptFound m') \<Longrightarrow>
   select_track (search_order ts pg) prefs = Inr None"
  by (cases pg) (simp_all add: search_order_def Let_def)

lemma select_track_kind:
  "select_track (search_order ts pg) prefs = Inr (Some (t, k)) \<Longrightarrow>
   k = ''generated'' \<or> k = ''manual''"
  by (cases pg) (auto simp: search_order_def Let_def split: sum.splits raised.splits if_splits)

lemma find_transcript_found:
  "find_transcript tracks prefs = Inr t \<Longrightarrow>
   t \<in> set tracks \<and>
   (\<exists>i<length prefs. t_language_code t = prefs ! i \<and>
      find (\<lambda>t'. t_language_code t' = prefs ! i) tracks = Some t \<and>
      (\<forall>j<i. \<forall>t'\<in>set tracks. t_language_code t' \<noteq> prefs ! j))"
proof (induction prefs)
  case Nil
  then show ?case by simp
next
  case (Cons code codes)
  show ?case
  proof (cases "find (\<lambda>t. t_language_code t = code) tracks")
    case None
    then have rec: "find_transcript tracks codes = Inr t" using Cons.prems by simp
    have no: "\<forall>t'\<in>set tracks. t_language_code t' \<noteq> code"
      using None by (simp add: find_None_iff)
    from Cons.IH [OF rec] obtain i where i: "i < length codes" "t_language_code t = codes ! i"
      "find (\<lambda>t'. t_language_code t' = codes ! i) tracks = Some t"
      "\<forall>j<i. \<forall>t'\<in>set tracks. t_language_code t' \<noteq> codes ! j" and mem: "t \<in> set tracks"
      by blast
    have "\<forall>j<Suc i. \<forall>t'\<in>set tracks. t_language_code t' \<noteq> (code # codes) ! j"
      using no i(4) by (auto simp: less_Suc_eq_0_disj)
    then show ?thesis using i mem by (intro conjI exI [of _ "Suc i"]) auto
  next
    case (Some t')
    then have eq: "t' = t" using Cons.prems by simp
    have "t \<in> set tracks \<and> t_language_code t = code"
      using Some eq by (auto simp: find_Some_iff)
    then show ?thesis using Some eq by (intro conjI exI [of _ 0]) auto
  qed
qed

lemma find_transcript_not_found:
  "(\<exists>m. find_transcript tracks prefs = Inl (Raised NoTranscriptFound m)) \<longleftrightarrow>
   (\<forall>t\<in>set tracks. t_language_code t \<notin> set prefs)"
proof (induction prefs)
  case Nil
  then show ?case by simp
next
  case (Cons code codes)
  show ?case
  proof (cases "find (\<lambda>t. t_language_code t = code) tracks")
    case None
    have step: "find_transcript tracks (code # codes) = find_transcript tracks codes"
      using None by simp
    have no: "\<forall>t\<in>set tracks. t_language_code t \<noteq> code"
      using None by (simp add: find_None_iff)
    show ?thesis unfolding step using Cons.IH no by auto
  next
    case (Some t)
    then have "t \<in> set tracks \<and> t_language_code t = code" by (auto simp: find_Some_iff)
    then show ?thesis using Some by auto
  qed
qed

lemma fetch_transcript_selected:
  assumes "api_installed env"
    and "fst (list_transcripts (api_list env v) v retries 0) = Inr (Some ts)"
  shows "fetch_transcript env v pg langs tr retries =
         (case select_track (search_order ts pg) (language_preferences_of langs) of
            Inl f \<Rightarrow> (Inl f, snd (list_transcripts (api_list env v) v retries 0))
          | Inr None \<Rightarrow>
              (Inl (CliError ''No manual or auto captions available for this video.''),
               snd (list_transcripts (api_list env v) v retries 0))
          | Inr (Some (chosen, chosen_kind)) \<Rightarrow>
              (fst (resolve_entries chosen chosen_kind tr),
               snd (list_transcripts (api_list env v) v retries 0) @
               snd (resolve_entries chosen chosen_kind tr)))"
  using assms by (simp add: fetch_transcript_def Let_def split: sum.splits option.splits prod.splits)

lemma default_language_preferences: "language_preferences_of [] = [''en'', ''en-US'', ''en-GB'']"
  by code_simp

lemma original_selection_kind:
  "k = ''generated'' \<or> k = ''manual'' \<Longrightarrow>
   fst (original_selection chosen k es) =
     \<lparr>kind = k, source_kind = Some k, language = t_language_code chosen,
      translated_to = None, entries = normalize_entries es\<rparr>"
  by (auto simp: original_selection_def Let_def)

lemma resolve_entries_untranslated:
  "k = ''generated'' \<or> k = ''manual'' \<Longrightarrow> t_fetch chosen = Inr es \<Longrightarrow>
   fst (resolve_entries chosen k None) =
     Inr \<lparr>kind = k, source_kind = Some k, language = t_language_code chosen,
          translated_to = None, entries = normalize_entries es\<rparr>"
  by (simp add: resolve_entries_def Let_def original_selection_kind)

text \<open>
  Claim C7. With the preference for generated captions the generated finder is tried
  first and the manual finder only when it finds nothing; without it the order is manual,
  then generated. The track a finder returns is selected with the kind of its category,
  and \<^verbatim>\<open>fetch_transcript\<close> returns it under that kind when no translation is asked for. When
  neither finder finds a track, \<^verbatim>\<open>fetch_transcript\<close> fails with the no-captions error.
  Within a category the finder (the library's, modelled from the spec) returns the track
  of the first preferred language, in the order of the list, that the category has, and
  finds nothing exactly when the category has no track in a preferred language.
\<close>

theorem track_selection:
  "(\<forall>ts prefs t. find_generated_transcript ts prefs = Inr t \<longrightarrow>
      select_track (search_order ts True) prefs = Inr (Some (t, ''generated''))) \<and>
   (\<forall>ts prefs m t.
      find_generated_transcript ts prefs = Inl (Raised NoTranscriptFound m) \<and>
      find_manually_created_transcript ts prefs = Inr t \<longrightarrow>
      select_track (search_order ts True) prefs = Inr (Some (t, ''manual''))) \<and>
   (\<forall>ts prefs t. find_manually_created_transcript ts prefs = Inr t \<longrightarrow>
      select_track (search_order ts False) prefs = Inr (Some (t, ''manual''))) \<and>
   (\<forall>ts prefs m t.
      find_manually_created_transcript ts prefs = Inl (Raised NoTranscriptFound m) \<and>
      find_generated_transcript ts prefs = Inr t \<longrightarrow>
      select_track (search_order ts False) prefs = Inr (Some (t, ''generated''))) \<and>
   (\<forall>env v retries ts pg langs tr m m'.
      api_installed env \<and>
      fst (list_transcripts (api_list env v) v retries 0) = Inr (Some ts) \<and>
      find_generated_transcript ts (language_preferences_of langs) =
        Inl (Raised NoTranscriptFound m) \<and>
      find_manually_created_transcript ts (language_preferences_of langs) =
        Inl (Raised NoTranscriptFound m') \<longrightarrow>
      fst (fetch_transcript env v pg langs tr retries) =
        Inl (CliError ''No manual or auto captions available for this video.'')) \<and>
   (\<forall>env v retries ts pg langs chosen ck es.
      api_installed env \<and>
      fst (list_transcripts (api_list env v) v retries 0) = Inr (Some ts) \<and>
      select_track (search_order ts pg) (language_preferences_of langs) = Inr (Some (chosen, ck)) \<and>
      t_fetch chosen = Inr es \<longrightarrow>
      fst (fetch_transcript env v pg langs None retries) =
        Inr \<lparr>kind = ck, source_kind = Some ck, language = t_language_code chosen,
             translated_to = None, entries = normalize_entries es\<rparr>) \<and>
   (\<forall>tracks prefs t. find_transcript tracks prefs = Inr t \<longrightarrow>
      t \<in> set tracks \<and>
      (\<exists>i<length prefs. t_language_code t = prefs ! i \<and>
         find (\<lambda>t'. t_language_code t' = prefs ! i) tracks = Some t \<and>
         (\<forall>j<i. \<forall>t'\<in>set tracks. t_language_code t' \<noteq> prefs ! j))) \<and>
   (\<forall>tracks prefs.
      (\<exists>m. find_transcript tracks prefs = Inl (Raised NoTranscriptFound m)) \<longleftrightarrow>
      (\<forall>t\<in>set tracks. t_language_code t \<notin> set prefs))"
proof (intro conjI allI impI)
  fix env :: environment and v retries and ts :: transcript_list and pg langs tr m m'
  assume a: "api_installed env \<and>
      fst (list_transcripts (api_list env v) v retries 0) = Inr (Some ts) \<and>
      find_generated_transcript ts (language_preferences_of langs) =
        Inl (Raised NoTranscriptFound m) \<and>
      find_manually_created_transcript ts (language_preferences_of langs) =
        Inl (Raised NoTranscriptFound m')"
  then have "select_track (search_order ts pg) (language_preferences_of langs) = Inr None"
    using select_track_none by blast
  then show "fst (fetch_transcript env v pg langs tr retries) =
        Inl (CliError ''No manual or auto captions available for this video.'')"
    using a by (simp add: fetch_transcript_selected)
next
  fix env :: environment and v retries and ts :: transcript_list and pg langs
    and chosen :: track and ck es
  assume a: "api_installed env \<and>
      fst (list_transcripts (api_list env v) v retries 0) = Inr (Some ts) \<and>
      select_track (search_order ts pg) (language_preferences_of langs) = Inr (Some (chosen, ck)) \<and>
      t_fetch chosen = Inr es"
  then have k: "ck = ''generated'' \<or> ck = ''manual''" using select_track_kind by blast
  show "fst (fetch_transcript env v pg langs None retries) =
        Inr \<lparr>kind = ck, source_kind = Some ck, language = t_language_code chosen,
             translated_to = None, entries = normalize_entries es\<rparr>"
    using a resolve_entries_untranslated [OF k] by (simp add: fetch_transcript_selected)
next
  fix tracks :: "track list" and prefs and t :: track
  assume "find_transcript tracks prefs = Inr t"
  from find_transcript_found [OF this]
  show "t \<in> set tracks"
    and "\<exists>i<length prefs. t_language_code t = prefs ! i \<and>
         find (\<lambda>t'. t_language_code t' = prefs ! i) tracks = Some t \<and>
         (\<forall>j<i. \<forall>t'\<in>set tracks. t_language_code t' \<noteq> prefs ! j)"
    by blast+
next
  fix tracks :: "track list" and prefs
  show "(\<exists>m. find_transcript tracks prefs = Inl (Raised NoTranscriptFound m)) \<longleftrightarrow>
      (\<forall>t\<in>set tracks. t_language_code t \<notin> set prefs)"
    by (rule find_transcript_not_found)
qed (auto simp: select_track_generated_first select_track_generated_then_manual
      select_track_manual_first select_track_manual_then_generated)

lemma list_transcripts_example_env:
  "list_transcripts (api_list (example_env g m) v) v 2 0 =
   (Inr (Some (transcript_list_of g m)), [ApiList v])"
  by (subst list_transcripts.simps) (simp add: example_env_def)

lemma language_preferences_fr_en:
  "language_preferences_of [''fr'', ''en'', ''fr''] = [''fr'', ''en'']"
  by (simp add: language_preferences_of_def dict_fromkeys_def)

theorem track_selection_witness:
  "select_track
     (search_order (transcript_list_of [example_track ''en'' untranslatable]
                      [example_track ''de'' untranslatable]) True) [''fr'', ''en''] =
     Inr (Some (example_track ''en'' untranslatable, ''generated'')) \<and>
   select_track
     (search_order (transcript_list_of [example_track ''ja'' untranslatable]
                      [example_track ''de'' untranslatable, example_track ''en'' untranslatable])
        True) [''fr'', ''en'', ''de''] =
     Inr (Some (example_track ''en'' untranslatable, ''manual'')) \<and>
   select_track
     (search_order (transcript_list_of [example_track ''en'' untranslatable]
                      [example_track ''de'' untranslatable]) False) [''en'', ''de''] =
     Inr (Some (example_track ''de'' untranslatable, ''manual'')) \<and>
   select_track
     (search_order (transcript_list_of [example_track ''en'' untranslatable]
                      [example_track ''de'' untranslatable]) False) [''fr'', ''en''] =
     Inr (Some (example_track ''en'' untranslatable, ''generated'')) \<and>
   fst (fetch_transcript
          (example_env [example_track ''ja'' untranslatable] [example_track ''de'' untranslatable])
          ''dQw4w9WgXcQ'' True [''fr'', ''en'', ''fr''] None 2) =
     Inl (CliError ''No manual or auto captions available for this video.'') \<and>
   fst (fetch_transcript
          (example_env [example_track ''en'' untranslatable] [example_track ''fr'' untranslatable])
          ''dQw4w9WgXcQ'' True [''fr'', ''en'', ''fr''] None 2) =
     Inr \<lparr>kind = ''generated'', source_kind = Some ''generated'', language = ''en'',
          translated_to = None,
          entries = [\<lparr>e_text = ''Hello, world.'', e_start = 0, e_duration = 2\<rparr>]\<rparr> \<and>
   example_track ''en'' untranslatable \<in>
     set [example_track ''de'' untranslatable, example_track ''en'' untranslatable] \<and>
   t_language_code (example_track ''ja'' untranslatable) \<notin> set [''fr'', ''en'']"
proof -
  note T = track_selection
  let ?en = "example_track ''en'' untranslatable"
  let ?de = "example_track ''de'' untranslatable"
  let ?ja = "example_track ''ja'' untranslatable"
  let ?fr = "example_track ''fr'' untranslatable"
  note c1 = T [THEN conjunct1, rule_format]
  note c2 = T [THEN conjunct2, THEN conjunct1, rule_format]
  note c3 = T [THEN conjunct2, THEN conjunct2, THEN conjunct1, rule_format]
  note c4 = T [THEN conjunct2, THEN conjunct2, THEN conjunct2, THEN conjunct1, rule_format]
  note c5 = T [THEN conjunct2, THEN conjunct2, THEN conjunct2, THEN conjunct2, THEN conjunct1, rule_format]
  note c6 = T [THEN conjunct2, THEN conjunct2, THEN conjunct2, THEN conjunct2, THEN conjunct2, THEN conjunct1, rule_format]
  note c7 = T [THEN conjunct2, THEN conjunct2, THEN conjunct2, THEN conjunct2, THEN conjunct2, THEN conjunct2, THEN conjunct1, rule_format]
  note c8 = T [THEN conjunct2, THEN conjunct2, THEN conjunct2, THEN conjunct2, THEN conjunct2, THEN conjunct2, THEN conjunct2, rule_format]
  have w1: "select_track (search_order (transcript_list_of [?en] [?de]) True) [''fr'', ''en''] =
        Inr (Some (?en, ''generated''))"
    by (rule c1) (simp add: transcript_list_of_def example_track_def)
  have w2: "select_track (search_order (transcript_list_of [?ja] [?de, ?en]) True)
        [''fr'', ''en'', ''de''] = Inr (Some (?en, ''manual''))"
    by (rule c2 [where m = "''No transcripts were found''"])
      (simp add: transcript_list_of_def example_track_def)
  have w3: "select_track (search_order (transcript_list_of [?en] [?de]) False) [''en'', ''de''] =
        Inr (Some (?de, ''manual''))"
    by (rule c3) (simp add: transcript_list_of_def example_track_def)
  have w4: "select_track (search_order (transcript_list_of [?en] [?de]) False) [''fr'', ''en''] =
        Inr (Some (?en, ''generated''))"
    by (rule c4 [where m = "''No transcripts were found''"])
      (simp add: transcript_list_of_def example_track_def)
  have inst: "api_installed (example_env g m)" for g m
    by (simp add: example_env_def)
  have lst: "fst (list_transcripts (api_list (example_env g m) v) v 2 0) =
        Inr (Some (transcript_list_of g m))" for g m v
    by (simp add: list_transcripts_example_env)
  have w5: "fst (fetch_transcript (example_env [?ja] [?de]) ''dQw4w9WgXcQ'' True
        [''fr'', ''en'', ''fr''] None 2) =
        Inl (CliError ''No manual or auto captions available for this video.'')"
    apply (rule c5 [where ts = "transcript_list_of [?ja] [?de]"
          and m = "''No transcripts were found''" and m' = "''No transcripts were found''"])
    apply (intro conjI)
       apply (rule inst)
      apply (rule lst)
     apply (simp add: language_preferences_fr_en transcript_list_of_def example_track_def)
    apply (simp add: language_preferences_fr_en transcript_list_of_def example_track_def)
    done
  have sel: "select_track (search_order (transcript_list_of [?en] [?fr]) True)
        (language_preferences_of [''fr'', ''en'', ''fr'']) = Inr (Some (?en, ''generated''))"
    unfolding language_preferences_fr_en
    by (rule c1) (simp add: transcript_list_of_def example_track_def)
  have "fst (fetch_transcript (example_env [?en] [?fr]) ''dQw4w9WgXcQ'' True
        [''fr'', ''en'', ''fr''] None 2) =
        Inr \<lparr>kind = ''generated'', source_kind = Some ''generated'',
             language = t_language_code ?en, translated_to = None,
             entries = normalize_entries [DictItem (Some ''Hello, world.'') (Some 0) (Some 2)]\<rparr>"
    apply (rule c6 [where ts = "transcript_list_of [?en] [?fr]"])
    apply (intro conjI)
       apply (rule inst)
      apply (rule lst)
     apply (rule sel)
    apply (simp add: example_track_def)
    done
  then have w6: "fst (fetch_transcript (example_env [?en] [?fr]) ''dQw4w9WgXcQ'' True
        [''fr'', ''en'', ''fr''] None 2) =
        Inr \<lparr>kind = ''generated'', source_kind = Some ''generated'', language = ''en'',
          translated_to = None,
          entries = [\<lparr>e_text = ''Hello, world.'', e_start = 0, e_duration = 2\<rparr>]\<rparr>"
    by (simp add: example_track_def normalize_entries_def)
  have w7: "?en \<in> set [?de, ?en]"
    using c7 [where prefs = "[''en'']" and tracks = "[?de, ?en]" and t = ?en]
    by (simp add: example_track_def)
  have w8: "t_language_code ?ja \<notin> set [''fr'', ''en'']"
    using c8 [where prefs = "[''fr'', ''en'']" and tracks = "[?ja]"]
    by (simp add: example_track_def)
  show ?thesis using w1 w2 w3 w4 w5 w6 w7 w8 by blast
qed

lemma resolve_entries_translation_failed:
  assumes "t_fetch chosen = Inr es" "s \<noteq> []" "py_strip py_isspace s \<noteq> []"
    and "t_translate chosen (py_strip py_isspace s) = Inl err \<or>
         (\<exists>tt. t_translate chosen (py_strip py_isspace s) = Inr tt \<and> ft_fetch tt = Inl err)"
  shows "resolve_entries chosen k (Some s) =
         translation_failed chosen k es (py_strip py_isspace s) err"
  using assms by (auto simp: resolve_entries_def Let_def)

lemma strip_de: "py_strip py_isspace '' de '' = ''de''"
  by (simp add: py_strip_def py_rstrip_def py_lstrip_def py_isspace_def)

lemma strip_de_plain: "py_strip py_isspace ''de'' = ''de''"
  by (simp add: py_strip_def py_rstrip_def py_lstrip_def py_isspace_def)

lemma select_manual_en:
  "select_track (search_order (transcript_list_of [] [example_track ''en'' tr]) False)
     (language_preferences_of [''en'']) = Inr (Some (example_track ''en'' tr, ''manual''))"
  by (simp add: search_order_def transcript_list_of_def example_track_def
      language_preferences_of_def dict_fromkeys_def)

lemma example_env_installed: "api_installed (example_env g m)"
  by (simp add: example_env_def)

lemma example_env_listed:
  "fst (list_transcripts (api_list (example_env g m) v) v 2 0) =
   Inr (Some (transcript_list_of g m))"
  by (simp add: list_transcripts_example_env)

lemma translation_failed_caught:
  assumes "is_api_exception c" "k = ''generated'' \<or> k = ''manual''"
  shows "translation_failed chosen k es target (Raised c m) =
           (Inr \<lparr>kind = k, source_kind = Some k, language = t_language_code chosen,
                 translated_to = None, entries = normalize_entries es\<rparr>,
            [if c = NoTranscriptFound \<or> c = NotTranslatable \<or> c = TranslationLanguageNotAvailable
             then TranslationUnavailableWarning target (t_language_code chosen)
             else TranslationFailedWarning target m,
             UsingCaptionsInfo (if k = ''generated'' then ''auto-generated'' else ''manual'')
               (t_language_code chosen)])"
  using assms by (auto simp: translation_failed_def Let_def original_selection_def)

lemma translation_failed_uncaught:
  assumes "\<not> is_api_exception c"
  shows "translation_failed chosen k es target (Raised c m) = (Inl (Uncaught (Raised c m)), [])"
  using assms by (auto simp: translation_failed_def is_api_exception_def)

text \<open>
  Claim C1, as amended. Let a track be selected and its entries fetched, and let a
  translation target be requested that is not empty once stripped. If obtaining the
  translated track or fetching it fails with an exception of the captions library's
  hierarchy, \<^verbatim>\<open>fetch_transcript\<close> still succeeds: the selection returned has the kind of
  the selected category (so not \<open>translated\<close>), no \<open>translated_to\<close>, the language of the
  original track and the normalised entries of the original track, and one warning has
  been logged before the record that the original captions are used. If it fails with
  any other exception, neither handler catches it: \<^verbatim>\<open>fetch_transcript\<close> fails with that
  exception and logs nothing more.
\<close>

theorem translation_fallback:
  assumes inst: "api_installed env"
    and listed: "fst (list_transcripts (api_list env v) v retries 0) = Inr (Some ts)"
    and chosen: "select_track (search_order ts pg) (language_preferences_of langs) =
                 Inr (Some (chosen, ck))"
    and base: "t_fetch chosen = Inr base_entries"
    and target: "s \<noteq> []" "py_strip py_isspace s \<noteq> []"
    and fails: "t_translate chosen (py_strip py_isspace s) = Inl (Raised c m) \<or>
                (\<exists>tt. t_translate chosen (py_strip py_isspace s) = Inr tt \<and>
                      ft_fetch tt = Inl (Raised c m))"
  shows "(is_api_exception c \<longrightarrow>
            fetch_transcript env v pg langs (Some s) retries =
              (Inr \<lparr>kind = ck, source_kind = Some ck, language = t_language_code chosen,
                    translated_to = None, entries = normalize_entries base_entries\<rparr>,
               snd (list_transcripts (api_list env v) v retries 0) @
               [if c = NoTranscriptFound \<or> c = NotTranslatable \<or>
                   c = TranslationLanguageNotAvailable
                then TranslationUnavailableWarning (py_strip py_isspace s) (t_language_code chosen)
                else TranslationFailedWarning (py_strip py_isspace s) m,
                UsingCaptionsInfo (if ck = ''generated'' then ''auto-generated'' else ''manual'')
                  (t_language_code chosen)]) \<and>
            ck \<noteq> ''translated'') \<and>
         (\<not> is_api_exception c \<longrightarrow>
            fetch_transcript env v pg langs (Some s) retries =
              (Inl (Uncaught (Raised c m)),
               snd (list_transcripts (api_list env v) v retries 0)))"
proof -
  have k: "ck = ''generated'' \<or> ck = ''manual''" using chosen by (rule select_track_kind)
  have r: "resolve_entries chosen ck (Some s) =
           translation_failed chosen ck base_entries (py_strip py_isspace s) (Raised c m)"
    using base target fails by (rule resolve_entries_translation_failed)
  have f: "fetch_transcript env v pg langs (Some s) retries =
           (fst (resolve_entries chosen ck (Some s)),
            snd (list_transcripts (api_list env v) v retries 0) @
            snd (resolve_entries chosen ck (Some s)))"
    using chosen by (simp add: fetch_transcript_selected [OF inst listed])
  have nt: "ck \<noteq> ''translated''" using k by auto
  show ?thesis
  proof (cases "is_api_exception c")
    case True
    show ?thesis
      unfolding f r translation_failed_caught [OF True k] using True nt by simp
  next
    case False
    show ?thesis
      unfolding f r translation_failed_uncaught [OF False] using False by simp
  qed
qed

theorem translation_fallback_witness:
  "fetch_transcript (example_env [] [example_track ''en'' untranslatable])
     ''dQw4w9WgXcQ'' False [''en''] (Some '' de '') 2 =
     (Inr \<lparr>kind = ''manual'', source_kind = Some ''manual'', language = ''en'',
           translated_to = None,
           entries = [\<lparr>e_text = ''Hello, world.'', e_start = 0, e_duration = 2\<rparr>]\<rparr>,
      [ApiList ''dQw4w9WgXcQ'', TranslationUnavailableWarning ''de'' ''en'',
       UsingCaptionsInfo ''manual'' ''en'']) \<and>
   fetch_transcript (example_env [] [example_track ''en'' translated_fetch_fails])
     ''dQw4w9WgXcQ'' False [''en''] (Some '' de '') 2 =
     (Inr \<lparr>kind = ''manual'', source_kind = Some ''manual'', language = ''en'',
           translated_to = None,
           entries = [\<lparr>e_text = ''Hello, world.'', e_start = 0, e_duration = 2\<rparr>]\<rparr>,
      [ApiList ''dQw4w9WgXcQ'', TranslationFailedWarning ''de'' ''HTTP 429'',
       UsingCaptionsInfo ''manual'' ''en'']) \<and>
   fetch_transcript
     (example_env [] [example_track ''en''
        (\<lambda>target. Inr \<lparr>ft_language_code = target,
                          ft_fetch = Inl (Raised ValueError ''bad value'')\<rparr>)])
     ''dQw4w9WgXcQ'' False [''en''] (Some '' de '') 2 =
     (Inl (Uncaught (Raised ValueError ''bad value'')), [ApiList ''dQw4w9WgXcQ''])"
proof -
  have base: "t_fetch (example_track ''en'' tr) =
              Inr [DictItem (Some ''Hello, world.'') (Some 0) (Some 2)]" for tr
    by (simp add: example_track_def)
  have fails: "t_translate (example_track ''en'' tr) (py_strip py_isspace '' de '') =
                 Inl (Raised c m) \<or>
               (\<exists>tt. t_translate (example_track ''en'' tr) (py_strip py_isspace '' de '') =
                       Inr tt \<and> ft_fetch tt = Inl (Raised c m))"
    if "tr ''de'' = Inl (Raised c m) \<or> (\<exists>tt. tr ''de'' = Inr tt \<and> ft_fetch tt = Inl (Raised c m))"
    for tr c m
    using that by (simp add: strip_de example_track_def)
  have T: "(is_api_exception c \<longrightarrow>
            fetch_transcript (example_env [] [example_track ''en'' tr]) ''dQw4w9WgXcQ'' False
              [''en''] (Some '' de '') 2 =
              (Inr \<lparr>kind = ''manual'', source_kind = Some ''manual'',
                    language = t_language_code (example_track ''en'' tr),
                    translated_to = None,
                    entries = normalize_entries [DictItem (Some ''Hello, world.'') (Some 0) (Some 2)]\<rparr>,
               snd (list_transcripts (api_list (example_env [] [example_track ''en'' tr])
                      ''dQw4w9WgXcQ'') ''dQw4w9WgXcQ'' 2 0) @
               [if c = NoTranscriptFound \<or> c = NotTranslatable \<or>
                   c = TranslationLanguageNotAvailable
                then TranslationUnavailableWarning (py_strip py_isspace '' de '')
                       (t_language_code (example_track ''en'' tr))
                else TranslationFailedWarning (py_strip py_isspace '' de '') m,
                UsingCaptionsInfo (if ''manual'' = ''generated'' then ''auto-generated'' else ''manual'')
                  (t_language_code (example_track ''en'' tr))]) \<and>
            ''manual'' \<noteq> ''translated'') \<and>
         (\<not> is_api_exception c \<longrightarrow>
            fetch_transcript (example_env [] [example_track ''en'' tr]) ''dQw4w9WgXcQ'' False
              [''en''] (Some '' de '') 2 =
              (Inl (Uncaught (Raised c m)),
               snd (list_transcripts (api_list (example_env [] [example_track ''en'' tr])
                      ''dQw4w9WgXcQ'') ''dQw4w9WgXcQ'' 2 0)))"
    if "tr ''de'' = Inl (Raised c m) \<or> (\<exists>tt. tr ''de'' = Inr tt \<and> ft_fetch tt = Inl (Raised c m))"
    for tr c m
    by (rule translation_fallback [OF example_env_installed example_env_listed select_manual_en
          base _ _ fails [where tr = tr and c = c and m = m, OF that]]) (simp_all add: strip_de)
  have l: "snd (list_transcripts (api_list (example_env g mm) v) v 2 0) = [ApiList v]" for g mm v
    by (simp add: list_transcripts_example_env)
  have n: "is_api_exception NotTranslatable" "is_api_exception YouTubeTranscriptApiException"
    "\<not> is_api_exception ValueError"
    by (simp_all add: is_api_exception_def)
  have a: "fetch_transcript (example_env [] [example_track ''en'' untranslatable])
     ''dQw4w9WgXcQ'' False [''en''] (Some '' de '') 2 =
     (Inr \<lparr>kind = ''manual'', source_kind = Some ''manual'', language = ''en'',
           translated_to = None,
           entries = [\<lparr>e_text = ''Hello, world.'', e_start = 0, e_duration = 2\<rparr>]\<rparr>,
      [ApiList ''dQw4w9WgXcQ'', TranslationUnavailableWarning ''de'' ''en'',
       UsingCaptionsInfo ''manual'' ''en''])"
    using T [where tr = untranslatable and c = NotTranslatable
        and m = "''The requested language is not translatable''"] n
    by (simp add: untranslatable_def l strip_de example_track_def normalize_entries_def)
  have b: "fetch_transcript (example_env [] [example_track ''en'' translated_fetch_fails])
     ''dQw4w9WgXcQ'' False [''en''] (Some '' de '') 2 =
     (Inr \<lparr>kind = ''manual'', source_kind = Some ''manual'', language = ''en'',
           translated_to = None,
           entries = [\<lparr>e_text = ''Hello, world.'', e_start = 0, e_duration = 2\<rparr>]\<rparr>,
      [ApiList ''dQw4w9WgXcQ'', TranslationFailedWarning ''de'' ''HTTP 429'',
       UsingCaptionsInfo ''manual'' ''en''])"
    using T [where tr = translated_fetch_fails and c = YouTubeTranscriptApiException
        and m = "''HTTP 429''"] n
    by (simp add: translated_fetch_fails_def l strip_de example_track_def normalize_entries_def)
  have c: "fetch_transcript
     (example_env [] [example_track ''en''
        (\<lambda>target. Inr \<lparr>ft_language_code = target,
                          ft_fetch = Inl (Raised ValueError ''bad value'')\<rparr>)])
     ''dQw4w9WgXcQ'' False [''en''] (Some '' de '') 2 =
     (Inl (Uncaught (Raised ValueError ''bad value'')), [ApiList ''dQw4w9WgXcQ''])"
    using T [where tr = "\<lambda>target. Inr \<lparr>ft_language_code = target,
                          ft_fetch = Inl (Raised ValueError ''bad value'')\<rparr>"
        and c = ValueError and m = "''bad value''"] n
    by (simp add: l)
  show ?thesis using a b c by simp
qed

text \<open>
  The claim as stated fails: a translation that fails with an exception outside the
  library's hierarchy is caught by neither handler and ends \<^verbatim>\<open>fetch_transcript\<close>.
\<close>

theorem translation_fallback_counterexample:
  "fst (fetch_transcript (example_env [] [example_track ''en'' connection_lost])
          ''dQw4w9WgXcQ'' False [''en''] (Some ''de'') 2) =
     Inl (Uncaught (Raised OtherException ''Connection reset by peer''))"
proof -
  have "fst (resolve_entries (example_track ''en'' connection_lost) ''manual'' (Some ''de'')) =
        Inl (Uncaught (Raised OtherException ''Connection reset by peer''))"
    by (simp add: resolve_entries_def strip_de_plain example_track_def connection_lost_def
        translation_failed_def is_api_exception_def)
  then show ?thesis
    by (simp add: fetch_transcript_selected [OF example_env_installed example_env_listed]
        select_manual_en)
qed

section \<open>Properties of the video reference resolver\<close>

lemma set_split_scheme: "set (snd (split_scheme url)) \<subseteq> set url"
proof -
  have "set (after_char c url) \<subseteq> set url" for c
    unfolding after_char_def
    by (meson set_drop_subset set_dropWhileD subsetD subsetI)
  then show ?thesis by (auto simp: split_scheme_def)
qed

lemma urlsplit_netloc_slash:
  assumes "py_urlsplit lib url = Inr (scheme, netloc, p, query, fragment)" "netloc \<noteq> []"
  shows "CHR ''/'' \<in> set url"
proof -
  define url1 where "url1 = dropWhile (\<lambda>c. (of_char c :: nat) \<le> 32) url"
  define url2 where "url2 = filter (\<lambda>c. c \<noteq> CHR 0x09 \<and> c \<noteq> CHR 0x0D \<and> c \<noteq> CHR 0x0A) url1"
  define url3 where "url3 = snd (split_scheme url2)"
  have n: "netloc = (if take 2 url3 = ''//'' then takeWhile (\<lambda>c. \<not> netloc_end c) (drop 2 url3) else [])"
    using assms(1) unfolding py_urlsplit_def Let_def url1_def url2_def url3_def
    by (auto split: if_splits option.splits)
  then have "take 2 url3 = ''//''" using assms(2) by (auto split: if_splits)
  then have "CHR ''/'' \<in> set (take 2 url3)" by simp
  then have "CHR ''/'' \<in> set url3" by (rule in_set_takeD)
  then have "CHR ''/'' \<in> set url2" using set_split_scheme url3_def by blast
  then have "CHR ''/'' \<in> set url1" by (simp add: url2_def)
  then show ?thesis unfolding url1_def by (rule set_dropWhileD)
qed

lemma urlparse_netloc_slash:
  assumes "py_urlparse lib url = Inr parsed" "pr_netloc parsed \<noteq> []"
  shows "CHR ''/'' \<in> set url"
proof -
  obtain scheme netloc p query fragment
    where s: "py_urlsplit lib url = Inr (scheme, netloc, p, query, fragment)"
      and n: "pr_netloc parsed = netloc"
    using assms(1) unfolding py_urlparse_def
    by (auto split: sum.splits prod.splits simp: Let_def)
  show ?thesis using urlsplit_netloc_slash [OF s] n assms(2) by simp
qed

lemma startswith_set: "startswith s p \<Longrightarrow> set p \<subseteq> set s"
  by (induction s p rule: startswith.induct) auto

lemma id_char_not_special: "id_char c \<Longrightarrow> c \<noteq> CHR ''/'' \<and> c \<noteq> CHR ''.''"
  by (auto simp: id_char_def)

lemma video_id_chars: "is_video_id s \<Longrightarrow> CHR ''/'' \<notin> set s \<and> CHR ''.'' \<notin> set s"
  using id_char_not_special by (auto simp: is_video_id_def list_all_iff)

lemma normalize_url_video_id: "is_video_id s \<Longrightarrow> normalize_url s = s"
proof -
  assume v: "is_video_id s"
  have "\<not> startswith s ''www.''"
  proof
    assume "startswith s ''www.''"
    then have "set ''www.'' \<subseteq> set s" by (rule startswith_set)
    then have "CHR ''.'' \<in> set s" by simp
    then show False using video_id_chars [OF v] by simp
  qed
  then show ?thesis by (simp add: normalize_url_def)
qed

lemma not_endswith_empty: "\<not> endswith (py_lower []) ''youtu.be''"
  by (simp add: endswith_def py_lower_def)

lemma urlparse_empty: "py_urlparse lib [] = Inr parsed \<Longrightarrow> pr_netloc parsed = []"
  using urlparse_netloc_slash [of lib "[]" parsed] by auto

text \<open>
  Claim C10. Whenever the host that \<^verbatim>\<open>urlparse\<close> finds in the stripped and normalised input
  ends, in lower case, with \<open>youtu.be\<close> (the host \<open>notyoutu.be\<close> does), and the first
  non-empty path segment matches the identifier pattern, \<^verbatim>\<open>extract_video_id\<close> returns that
  segment with its canonical URL.
\<close>

theorem shortened_host_suffix:
  assumes parse: "py_urlparse lib (normalize_url (py_strip py_isspace url_or_id)) = Inr parsed"
    and host: "endswith (py_lower (pr_netloc parsed)) ''youtu.be''"
    and segs: "path_segments_of (pr_path parsed) = first_segment # rest"
    and vid: "is_video_id first_segment"
  shows "extract_video_id lib url_or_id = Inr (first_segment, canonical_url_of first_segment)"
proof -
  let ?c = "py_strip py_isspace url_or_id"
  have ne: "pr_netloc parsed \<noteq> []" using host not_endswith_empty by auto
  have slash: "CHR ''/'' \<in> set (normalize_url ?c)"
    using parse ne by (rule urlparse_netloc_slash)
  have c1: "?c \<noteq> []"
  proof
    assume "?c = []"
    then have "py_urlparse lib [] = Inr parsed" using parse by (simp add: normalize_url_def)
    then show False using ne urlparse_empty by blast
  qed
  have c2: "\<not> is_video_id ?c"
  proof
    assume v: "is_video_id ?c"
    then have "CHR ''/'' \<in> set ?c" using slash by (simp add: normalize_url_video_id)
    then show False using video_id_chars [OF v] by simp
  qed
  have nonempty: "first_segment \<noteq> []" using vid by (auto simp: is_video_id_def)
  have loc: "locate_video_id lib parsed = Some first_segment"
    using host segs by (simp add: locate_video_id_def Let_def)
  show ?thesis
    using c1 c2 parse loc nonempty vid by (simp add: extract_video_id_def Let_def)
qed

lemma parse_notyoutu_be:
  "py_urlparse plain_library (normalize_url (py_strip py_isspace ''https://notyoutu.be/dQw4w9WgXcQ'')) =
   Inr \<lparr>pr_scheme = ''https'', pr_netloc = ''notyoutu.be'', pr_path = ''/dQw4w9WgXcQ'',
        pr_params = [], pr_query = [], pr_fragment = []\<rparr>"
  by code_simp

lemma is_video_id_example: "is_video_id ''dQw4w9WgXcQ''"
  by (simp add: is_video_id_def id_char_def)

theorem shortened_host_suffix_witness:
  "py_urlparse plain_library (normalize_url (py_strip py_isspace ''https://notyoutu.be/dQw4w9WgXcQ'')) =
     Inr \<lparr>pr_scheme = ''https'', pr_netloc = ''notyoutu.be'', pr_path = ''/dQw4w9WgXcQ'',
          pr_params = [], pr_query = [], pr_fragment = []\<rparr> \<and>
   endswith (py_lower ''notyoutu.be'') ''youtu.be'' \<and>
   path_segments_of ''/dQw4w9WgXcQ'' = [''dQw4w9WgXcQ''] \<and>
   is_video_id ''dQw4w9WgXcQ'' \<and>
   extract_video_id plain_library ''https://notyoutu.be/dQw4w9WgXcQ'' =
     Inr (''dQw4w9WgXcQ'', ''https://www.youtube.com/watch?v=dQw4w9WgXcQ'')"
proof -
  have h: "endswith (py_lower ''notyoutu.be'') ''youtu.be''"
    by (simp add: endswith_def py_lower_def lower_char_def is_upper_def)
  have s: "path_segments_of ''/dQw4w9WgXcQ'' = [''dQw4w9WgXcQ'']"
    by (simp add: path_segments_of_def)
  have "extract_video_id plain_library ''https://notyoutu.be/dQw4w9WgXcQ'' =
        Inr (''dQw4w9WgXcQ'', canonical_url_of ''dQw4w9WgXcQ'')"
    by (rule shortened_host_suffix [OF parse_notyoutu_be _ _ is_video_id_example, of "[]"])
      (simp_all add: h s)
  then show ?thesis
    using parse_notyoutu_be h s is_video_id_example by (simp add: canonical_url_of_def)
qed

lemma video_id_set: "is_video_id v \<Longrightarrow> c \<in> set v \<Longrightarrow> id_char c"
  by (simp add: is_video_id_def list_all_iff)

lemma video_id_notin: "is_video_id v \<Longrightarrow> \<not> id_char c \<Longrightarrow> c \<notin> set v"
  using video_id_set by blast

lemma video_id_takeWhile:
  "is_video_id v \<Longrightarrow> \<not> id_char c \<Longrightarrow> takeWhile (\<lambda>x. x \<noteq> c) v = v"
  using video_id_notin [of v c] by auto

lemma video_id_dropWhile:
  "is_video_id v \<Longrightarrow> \<not> id_char c \<Longrightarrow> dropWhile (\<lambda>x. x \<noteq> c) v = []"
  using video_id_notin [of v c] by auto

lemma video_id_filter:
  "is_video_id v \<Longrightarrow>
   filter (\<lambda>c. c \<noteq> CHR 0x09 \<and> c \<noteq> CHR 0x0D \<and> c \<noteq> CHR 0x0A) v = v"
proof -
  assume v: "is_video_id v"
  have "\<not> id_char (CHR 0x09)" "\<not> id_char (CHR 0x0D)" "\<not> id_char (CHR 0x0A)"
    by (simp_all add: id_char_def)
  then have "\<forall>c\<in>set v. c \<noteq> CHR 0x09 \<and> c \<noteq> CHR 0x0D \<and> c \<noteq> CHR 0x0A"
    using video_id_set [OF v] by blast
  then show ?thesis by (simp add: filter_id_conv)
qed

lemma id_char_not_netloc_end: "id_char c \<Longrightarrow> \<not> netloc_end c"
  by (auto simp: id_char_def netloc_end_def)

lemma video_id_netloc:
  "is_video_id v \<Longrightarrow> takeWhile (\<lambda>c. \<not> netloc_end c) v = v"
  "is_video_id v \<Longrightarrow> dropWhile (\<lambda>c. \<not> netloc_end c) v = []"
  using video_id_set [of v] id_char_not_netloc_end by auto

lemma video_id_nonempty: "is_video_id v \<Longrightarrow> v \<noteq> []"
  by (auto simp: is_video_id_def)

lemma not_id_chars:
  "\<not> id_char CHR ''#''" "\<not> id_char CHR ''?''" "\<not> id_char CHR '':''" "\<not> id_char CHR '';''"
  "\<not> id_char CHR ''&''" "\<not> id_char CHR ''=''" "\<not> id_char CHR ''%''" "\<not> id_char CHR ''+''"
  "\<not> id_char CHR ''/''" "\<not> id_char CHR ''[''" "\<not> id_char CHR '']''" "\<not> id_char CHR ''.''"
  by (simp_all add: id_char_def)

lemma split_on_absent: "d \<notin> set s \<Longrightarrow> split_on d s = [s]"
  by (induction s) auto

lemma video_id_split_on: "is_video_id v \<Longrightarrow> \<not> id_char d \<Longrightarrow> split_on d v = [v]"
  using video_id_notin split_on_absent by blast

lemma video_id_unquote_plus: "is_video_id v \<Longrightarrow> unquote_plus lib v = v"
proof -
  assume v: "is_video_id v"
  have p: "CHR ''+'' \<notin> set v" "CHR ''%'' \<notin> set v"
    using video_id_notin [OF v] not_id_chars by blast+
  have "replace_char CHR ''+'' CHR '' '' v = v"
    unfolding replace_char_def using p(1) by (intro map_idI) auto
  then show ?thesis using p(2) by (simp add: unquote_plus_def)
qed

lemma lower_scheme: "py_lower ''https'' = ''https''"
  by (simp add: py_lower_def lower_char_def is_upper_def)

lemma split_scheme_https: "split_scheme (''https://'' @ rest) = (''https'', ''//'' @ rest)"
  by (simp add: split_scheme_def before_char_def after_char_def ascii_alpha_def scheme_chars_def
      lower_scheme)

lemmas vid_simps = video_id_takeWhile video_id_dropWhile video_id_filter video_id_netloc
  video_id_notin not_id_chars video_id_nonempty

lemma urlsplit_watch:
  assumes v: "is_video_id v"
  shows "py_urlsplit lib (''https://www.youtube.com/watch?v='' @ v) =
         Inr (''https'', ''www.youtube.com'', ''/watch'', ''v='' @ v, [])"
proof -
  have s: "split_scheme (''https://www.youtube.com/watch?v='' @ v) =
           (''https'', ''//www.youtube.com/watch?v='' @ v)"
    using split_scheme_https [of "''www.youtube.com/watch?v='' @ v"] by simp
  show ?thesis
    unfolding py_urlsplit_def
    using v by (simp add: s [simplified] Let_def vid_simps netloc_end_def before_char_def
        after_char_def)
qed

lemma urlsplit_short:
  assumes v: "is_video_id v"
  shows "py_urlsplit lib (''https://youtu.be/'' @ v) =
         Inr (''https'', ''youtu.be'', ''/'' @ v, [], [])"
proof -
  have s: "split_scheme (''https://youtu.be/'' @ v) = (''https'', ''//youtu.be/'' @ v)"
    using split_scheme_https [of "''youtu.be/'' @ v"] by simp
  show ?thesis
    unfolding py_urlsplit_def
    using v by (simp add: s [simplified] Let_def vid_simps netloc_end_def before_char_def
        after_char_def)
qed

lemma urlsplit_www_short:
  assumes v: "is_video_id v"
  shows "py_urlsplit lib (''https://www.youtu.be/'' @ v) =
         Inr (''https'', ''www.youtu.be'', ''/'' @ v, [], [])"
proof -
  have s: "split_scheme (''https://www.youtu.be/'' @ v) = (''https'', ''//www.youtu.be/'' @ v)"
    using split_scheme_https [of "''www.youtu.be/'' @ v"] by simp
  show ?thesis
    unfolding py_urlsplit_def
    using v by (simp add: s [simplified] Let_def vid_simps netloc_end_def before_char_def
        after_char_def)
qed

lemma urlsplit_bare_short:
  assumes v: "is_video_id v"
  shows "py_urlsplit lib (''youtu.be/'' @ v) = Inr ([], [], ''youtu.be/'' @ v, [], [])"
proof -
  have s: "split_scheme (''youtu.be/'' @ v) = ([], ''youtu.be/'' @ v)"
    using v by (simp add: split_scheme_def vid_simps)
  show ?thesis
    unfolding py_urlsplit_def
    using v by (simp add: s [simplified] Let_def vid_simps netloc_end_def before_char_def
        after_char_def)
qed

lemma urlsplit_bare_watch:
  assumes v: "is_video_id v"
  shows "py_urlsplit lib (''youtube.com/watch?v='' @ v) =
         Inr ([], [], ''youtube.com/watch'', ''v='' @ v, [])"
proof -
  have s: "split_scheme (''youtube.com/watch?v='' @ v) = ([], ''youtube.com/watch?v='' @ v)"
    using v by (simp add: split_scheme_def vid_simps)
  show ?thesis
    unfolding py_urlsplit_def
    using v by (simp add: s [simplified] Let_def vid_simps netloc_end_def before_char_def
        after_char_def)
qed

lemma https_uses_params: "''https'' \<in> set uses_params" "[] \<in> set uses_params"
  by (simp_all add: uses_params_def)

lemma urlparse_watch:
  "is_video_id v \<Longrightarrow>
   py_urlparse lib (''https://www.youtube.com/watch?v='' @ v) =
     Inr \<lparr>pr_scheme = ''https'', pr_netloc = ''www.youtube.com'', pr_path = ''/watch'',
          pr_params = [], pr_query = ''v='' @ v, pr_fragment = []\<rparr>"
  unfolding py_urlparse_def by (subst urlsplit_watch) (simp_all add: vid_simps https_uses_params)

lemma urlparse_short:
  "is_video_id v \<Longrightarrow>
   py_urlparse lib (''https://youtu.be/'' @ v) =
     Inr \<lparr>pr_scheme = ''https'', pr_netloc = ''youtu.be'', pr_path = ''/'' @ v,
          pr_params = [], pr_query = [], pr_fragment = []\<rparr>"
  unfolding py_urlparse_def by (subst urlsplit_short) (simp_all add: vid_simps https_uses_params)

lemma urlparse_www_short:
  "is_video_id v \<Longrightarrow>
   py_urlparse lib (''https://www.youtu.be/'' @ v) =
     Inr \<lparr>pr_scheme = ''https'', pr_netloc = ''www.youtu.be'', pr_path = ''/'' @ v,
          pr_params = [], pr_query = [], pr_fragment = []\<rparr>"
  unfolding py_urlparse_def by (subst urlsplit_www_short) (simp_all add: vid_simps https_uses_params)

lemma urlparse_bare_short:
  "is_video_id v \<Longrightarrow>
   py_urlparse lib (''youtu.be/'' @ v) =
     Inr \<lparr>pr_scheme = [], pr_netloc = [], pr_path = ''youtu.be/'' @ v,
          pr_params = [], pr_query = [], pr_fragment = []\<rparr>"
  unfolding py_urlparse_def by (subst urlsplit_bare_short) (simp_all add: vid_simps https_uses_params)

lemma urlparse_bare_watch:
  "is_video_id v \<Longrightarrow>
   py_urlparse lib (''youtube.com/watch?v='' @ v) =
     Inr \<lparr>pr_scheme = [], pr_netloc = [], pr_path = ''youtube.com/watch'',
          pr_params = [], pr_query = ''v='' @ v, pr_fragment = []\<rparr>"
  unfolding py_urlparse_def by (subst urlsplit_bare_watch) (simp_all add: vid_simps https_uses_params)

lemma py_strip_noop: "s \<noteq> [] \<Longrightarrow> \<not> P (hd s) \<Longrightarrow> \<not> P (last s) \<Longrightarrow> py_strip P s = s"
proof -
  assume s: "s \<noteq> []" "\<not> P (hd s)" "\<not> P (last s)"
  have l: "dropWhile P s = s" using s by (cases s) auto
  have "dropWhile P (rev s) = rev s" using s by (cases s rule: rev_cases) auto
  then show ?thesis using l by (simp add: py_strip_def py_lstrip_def py_rstrip_def)
qed

lemma id_char_not_space: "id_char c \<Longrightarrow> \<not> py_isspace c"
  by (auto simp: id_char_def py_isspace_def)

lemma video_id_ends: "is_video_id v \<Longrightarrow> \<not> py_isspace (hd v) \<and> \<not> py_isspace (last v)"
  using video_id_set [of v] video_id_nonempty [of v] id_char_not_space by auto

lemma strip_video_id: "is_video_id v \<Longrightarrow> py_strip py_isspace v = v"
  using video_id_ends video_id_nonempty by (intro py_strip_noop) auto

lemma strip_prefixed:
  "is_video_id v \<Longrightarrow> \<not> py_isspace c \<Longrightarrow> py_strip py_isspace (c # cs @ v) = c # cs @ v"
  using video_id_ends [of v] video_id_nonempty [of v] by (intro py_strip_noop) auto

lemma not_video_id_longer: "is_video_id v \<Longrightarrow> \<not> is_video_id (c # cs @ v)"
  by (simp add: is_video_id_def)

lemma extract_bare:
  "is_video_id v \<Longrightarrow> extract_video_id lib v = Inr (v, canonical_url_of v)"
  by (simp add: extract_video_id_def strip_video_id video_id_nonempty)

lemma query_v_only: "is_video_id v \<Longrightarrow> query_v lib (''v='' @ v) = Some v"
proof -
  assume v: "is_video_id v"
  have sp: "split_on CHR ''&'' (''v='' @ v) = [''v='' @ v]"
    using v by (intro split_on_absent) (simp add: vid_simps)
  have u: "unquote_plus lib ''v'' = ''v''" by (simp add: unquote_plus_def replace_char_def)
  have "parse_qsl lib (''v='' @ v) = [(''v'', v)]"
    unfolding parse_qsl_def
    by (subst sp)
      (simp add: before_char_def after_char_def video_id_unquote_plus [OF v] u
        video_id_nonempty [OF v])
  then show ?thesis by (simp add: query_v_def)
qed

lemma locate_watch:
  "is_video_id v \<Longrightarrow>
   locate_video_id lib \<lparr>pr_scheme = ''https'', pr_netloc = ''www.youtube.com'', pr_path = ''/watch'',
          pr_params = [], pr_query = ''v='' @ v, pr_fragment = []\<rparr> = Some v"
  using query_v_only [of v lib, simplified]
  by (simp add: locate_video_id_def py_lower_def lower_char_def is_upper_def endswith_def)

lemma path_segments_short: "is_video_id v \<Longrightarrow> path_segments_of (''/'' @ v) = [v]"
  by (simp add: path_segments_of_def video_id_split_on vid_simps)

lemma locate_short:
  "is_video_id v \<Longrightarrow>
   locate_video_id lib \<lparr>pr_scheme = ''https'', pr_netloc = ''youtu.be'', pr_path = ''/'' @ v,
          pr_params = [], pr_query = [], pr_fragment = []\<rparr> = Some v"
  using path_segments_short [of v, simplified]
  by (simp add: locate_video_id_def py_lower_def lower_char_def is_upper_def endswith_def)

lemma locate_www_short:
  "is_video_id v \<Longrightarrow>
   locate_video_id lib \<lparr>pr_scheme = ''https'', pr_netloc = ''www.youtu.be'', pr_path = ''/'' @ v,
          pr_params = [], pr_query = [], pr_fragment = []\<rparr> = Some v"
  using path_segments_short [of v, simplified]
  by (simp add: locate_video_id_def py_lower_def lower_char_def is_upper_def endswith_def)

lemma locate_no_host:
  "locate_video_id lib \<lparr>pr_scheme = [], pr_netloc = [], pr_path = p,
          pr_params = [], pr_query = q, pr_fragment = []\<rparr> = None"
  by (simp add: locate_video_id_def py_lower_def endswith_def)

lemma extract_watch:
  assumes v: "is_video_id v"
  shows "extract_video_id lib (''https://www.youtube.com/watch?v='' @ v) =
         Inr (v, canonical_url_of v)"
proof -
  have c: "py_strip py_isspace (''https://www.youtube.com/watch?v='' @ v) =
           ''https://www.youtube.com/watch?v='' @ v"
    using strip_prefixed [OF v, of "CHR ''h''" "''ttps://www.youtube.com/watch?v=''"]
    by (simp add: py_isspace_def)
  have n: "\<not> is_video_id (''https://www.youtube.com/watch?v='' @ v)"
    using not_video_id_longer [OF v, of "CHR ''h''" "''ttps://www.youtube.com/watch?v=''"] by simp
  have u: "normalize_url (''https://www.youtube.com/watch?v='' @ v) =
           ''https://www.youtube.com/watch?v='' @ v"
    by (simp add: normalize_url_def)
  show ?thesis
    unfolding extract_video_id_def c Let_def u urlparse_watch [OF v]
    using n v locate_watch [OF v, of lib, simplified] by (simp add: video_id_nonempty)
qed

lemma extract_short:
  assumes v: "is_video_id v"
  shows "extract_video_id lib (''https://youtu.be/'' @ v) = Inr (v, canonical_url_of v)"
proof -
  have c: "py_strip py_isspace (''https://youtu.be/'' @ v) = ''https://youtu.be/'' @ v"
    using strip_prefixed [OF v, of "CHR ''h''" "''ttps://youtu.be/''"]
    by (simp add: py_isspace_def)
  have n: "\<not> is_video_id (''https://youtu.be/'' @ v)"
    using not_video_id_longer [OF v, of "CHR ''h''" "''ttps://youtu.be/''"] by simp
  have u: "normalize_url (''https://youtu.be/'' @ v) = ''https://youtu.be/'' @ v"
    by (simp add: normalize_url_def)
  show ?thesis
    unfolding extract_video_id_def c Let_def u urlparse_short [OF v]
    using n v locate_short [OF v, of lib, simplified] by (simp add: video_id_nonempty)
qed

lemma extract_www_watch:
  assumes v: "is_video_id v"
  shows "extract_video_id lib (''www.youtube.com/watch?v='' @ v) = Inr (v, canonical_url_of v)"
proof -
  have c: "py_strip py_isspace (''www.youtube.com/watch?v='' @ v) = ''www.youtube.com/watch?v='' @ v"
    using strip_prefixed [OF v, of "CHR ''w''" "''ww.youtube.com/watch?v=''"]
    by (simp add: py_isspace_def)
  have n: "\<not> is_video_id (''www.youtube.com/watch?v='' @ v)"
    using not_video_id_longer [OF v, of "CHR ''w''" "''ww.youtube.com/watch?v=''"] by simp
  have u: "normalize_url (''www.youtube.com/watch?v='' @ v) =
           ''https://www.youtube.com/watch?v='' @ v"
    by (simp add: normalize_url_def)
  show ?thesis
    unfolding extract_video_id_def c Let_def u urlparse_watch [OF v]
    using n v locate_watch [OF v, of lib, simplified] by (simp add: video_id_nonempty)
qed

lemma extract_www_short:
  assumes v: "is_video_id v"
  shows "extract_video_id lib (''www.youtu.be/'' @ v) = Inr (v, canonical_url_of v)"
proof -
  have c: "py_strip py_isspace (''www.youtu.be/'' @ v) = ''www.youtu.be/'' @ v"
    using strip_prefixed [OF v, of "CHR ''w''" "''ww.youtu.be/''"]
    by (simp add: py_isspace_def)
  have n: "\<not> is_video_id (''www.youtu.be/'' @ v)"
    using not_video_id_longer [OF v, of "CHR ''w''" "''ww.youtu.be/''"] by simp
  have u: "normalize_url (''www.youtu.be/'' @ v) = ''https://www.youtu.be/'' @ v"
    by (simp add: normalize_url_def)
  show ?thesis
    unfolding extract_video_id_def c Let_def u urlparse_www_short [OF v]
    using n v locate_www_short [OF v, of lib, simplified] by (simp add: video_id_nonempty)
qed

lemma extract_bare_short:
  assumes v: "is_video_id v"
  shows "extract_video_id lib (''youtu.be/'' @ v) =
         Inl (CliError (''Unable to locate a valid video ID in input: '' @
                        py_repr (''youtu.be/'' @ v)))"
proof -
  have c: "py_strip py_isspace (''youtu.be/'' @ v) = ''youtu.be/'' @ v"
    using strip_prefixed [OF v, of "CHR ''y''" "''outu.be/''"]
    by (simp add: py_isspace_def)
  have n: "\<not> is_video_id (''youtu.be/'' @ v)"
    using not_video_id_longer [OF v, of "CHR ''y''" "''outu.be/''"] by simp
  have u: "normalize_url (''youtu.be/'' @ v) = ''youtu.be/'' @ v"
    by (simp add: normalize_url_def)
  show ?thesis
    unfolding extract_video_id_def c Let_def u urlparse_bare_short [OF v]
    using n by (simp add: locate_no_host)
qed

lemma extract_bare_watch:
  assumes v: "is_video_id v"
  shows "extract_video_id lib (''youtube.com/watch?v='' @ v) =
         Inl (CliError (''Unable to locate a valid video ID in input: '' @
                        py_repr (''youtube.com/watch?v='' @ v)))"
proof -
  have c: "py_strip py_isspace (''youtube.com/watch?v='' @ v) = ''youtube.com/watch?v='' @ v"
    using strip_prefixed [OF v, of "CHR ''y''" "''outube.com/watch?v=''"]
    by (simp add: py_isspace_def)
  have n: "\<not> is_video_id (''youtube.com/watch?v='' @ v)"
    using not_video_id_longer [OF v, of "CHR ''y''" "''outube.com/watch?v=''"] by simp
  have u: "normalize_url (''youtube.com/watch?v='' @ v) = ''youtube.com/watch?v='' @ v"
    by (simp add: normalize_url_def)
  show ?thesis
    unfolding extract_video_id_def c Let_def u urlparse_bare_watch [OF v]
    using n by (simp add: locate_no_host)
qed

lemma extract_watch_parsed:
  assumes "py_strip py_isspace u \<noteq> []" "\<not> is_video_id (py_strip py_isspace u)"
    and "py_urlparse lib (normalize_url (py_strip py_isspace u)) = Inr parsed"
    and "\<not> endswith (py_lower (pr_netloc parsed)) ''youtu.be''"
    and "contains_str (py_lower (pr_netloc parsed)) ''youtube.com''"
    and "startswith (pr_path parsed) ''/watch''"
    and "query_v lib (pr_query parsed) = Some v" and "is_video_id v"
  shows "extract_video_id lib u = Inr (v, canonical_url_of v)"
  using assms video_id_nonempty [of v]
  by (simp add: extract_video_id_def locate_video_id_def Let_def)

lemma extract_short_parsed:
  assumes "py_strip py_isspace u \<noteq> []" "\<not> is_video_id (py_strip py_isspace u)"
    and "py_urlparse lib (normalize_url (py_strip py_isspace u)) = Inr parsed"
    and "endswith (py_lower (pr_netloc parsed)) ''youtu.be''"
    and "path_segments_of (pr_path parsed) = v # rest" and "is_video_id v"
  shows "extract_video_id lib u = Inr (v, canonical_url_of v)"
  using assms video_id_nonempty [of v]
  by (simp add: extract_video_id_def locate_video_id_def Let_def)

text \<open>
  Claim C3 says that, for every valid identifier, the resolver returns the same reference
  for the bare identifier, a watch URL, a short URL, and the forms of those URLs without
  a scheme, which are upgraded to \<open>https://\<close>. The resolver does so for the bare
  identifier and for every input that parses to a watch URL or to a short URL of the
  identifier, among them the forms without a scheme that begin with \<open>www.\<close>. It does
  not for the other forms without a scheme: \<^verbatim>\<open>normalize_url\<close>, whose documentation says that
  URLs missing a scheme are upgraded, upgrades only inputs that begin with \<open>www.\<close>, so
  \<open>youtu.be/<id>\<close> and \<open>youtube.com/watch?v=<id>\<close> are parsed with an empty host and
  rejected.
\<close>

theorem resolver_same_reference:
  "is_video_id v \<Longrightarrow>
     extract_video_id lib v = Inr (v, canonical_url_of v) \<and>
     extract_video_id lib (''https://www.youtube.com/watch?v='' @ v) = Inr (v, canonical_url_of v) \<and>
     extract_video_id lib (''https://youtu.be/'' @ v) = Inr (v, canonical_url_of v) \<and>
     extract_video_id lib (''www.youtube.com/watch?v='' @ v) = Inr (v, canonical_url_of v) \<and>
     extract_video_id lib (''www.youtu.be/'' @ v) = Inr (v, canonical_url_of v) \<and>
     canonical_url_of v = ''https://www.youtube.com/watch?v='' @ v \<and>
     (\<forall>u parsed.
        py_strip py_isspace u \<noteq> [] \<and> \<not> is_video_id (py_strip py_isspace u) \<and>
        py_urlparse lib (normalize_url (py_strip py_isspace u)) = Inr parsed \<and>
        \<not> endswith (py_lower (pr_netloc parsed)) ''youtu.be'' \<and>
        contains_str (py_lower (pr_netloc parsed)) ''youtube.com'' \<and>
        startswith (pr_path parsed) ''/watch'' \<and> query_v lib (pr_query parsed) = Some v \<longrightarrow>
        extract_video_id lib u = Inr (v, canonical_url_of v)) \<and>
     (\<forall>u parsed rest.
        py_strip py_isspace u \<noteq> [] \<and> \<not> is_video_id (py_strip py_isspace u) \<and>
        py_urlparse lib (normalize_url (py_strip py_isspace u)) = Inr parsed \<and>
        endswith (py_lower (pr_netloc parsed)) ''youtu.be'' \<and>
        path_segments_of (pr_path parsed) = v # rest \<longrightarrow>
        extract_video_id lib u = Inr (v, canonical_url_of v)) \<and>
     extract_video_id lib (''youtu.be/'' @ v) =
       Inl (CliError (''Unable to locate a valid video ID in input: '' @
                      py_repr (''youtu.be/'' @ v))) \<and>
     extract_video_id lib (''youtube.com/watch?v='' @ v) =
       Inl (CliError (''Unable to locate a valid video ID in input: '' @
                      py_repr (''youtube.com/watch?v='' @ v)))"
proof -
  assume v: "is_video_id v"
  have a: "extract_video_id lib u = Inr (v, canonical_url_of v)"
    if "py_strip py_isspace u \<noteq> [] \<and> \<not> is_video_id (py_strip py_isspace u) \<and>
        py_urlparse lib (normalize_url (py_strip py_isspace u)) = Inr parsed \<and>
        \<not> endswith (py_lower (pr_netloc parsed)) ''youtu.be'' \<and>
        contains_str (py_lower (pr_netloc parsed)) ''youtube.com'' \<and>
        startswith (pr_path parsed) ''/watch'' \<and> query_v lib (pr_query parsed) = Some v"
    for u parsed
    using that v extract_watch_parsed [of u lib parsed v] by blast
  have b: "extract_video_id lib u = Inr (v, canonical_url_of v)"
    if "py_strip py_isspace u \<noteq> [] \<and> \<not> is_video_id (py_strip py_isspace u) \<and>
        py_urlparse lib (normalize_url (py_strip py_isspace u)) = Inr parsed \<and>
        endswith (py_lower (pr_netloc parsed)) ''youtu.be'' \<and>
        path_segments_of (pr_path parsed) = v # rest"
    for u parsed rest
    using that v extract_short_parsed [of u lib parsed v rest] by blast
  have A: "\<forall>u parsed.
        py_strip py_isspace u \<noteq> [] \<and> \<not> is_video_id (py_strip py_isspace u) \<and>
        py_urlparse lib (normalize_url (py_strip py_isspace u)) = Inr parsed \<and>
        \<not> endswith (py_lower (pr_netloc parsed)) ''youtu.be'' \<and>
        contains_str (py_lower (pr_netloc parsed)) ''youtube.com'' \<and>
        startswith (pr_path parsed) ''/watch'' \<and> query_v lib (pr_query parsed) = Some v \<longrightarrow>
        extract_video_id lib u = Inr (v, canonical_url_of v)"
    using a by blast
  have B: "\<forall>u parsed rest.
        py_strip py_isspace u \<noteq> [] \<and> \<not> is_video_id (py_strip py_isspace u) \<and>
        py_urlparse lib (normalize_url (py_strip py_isspace u)) = Inr parsed \<and>
        endswith (py_lower (pr_netloc parsed)) ''youtu.be'' \<and>
        path_segments_of (pr_path parsed) = v # rest \<longrightarrow>
        extract_video_id lib u = Inr (v, canonical_url_of v)"
    using b by blast
  have c: "canonical_url_of v = ''https://www.youtube.com/watch?v='' @ v"
    by (simp add: canonical_url_of_def)
  show ?thesis
    by (intro conjI A B c extract_bare [OF v] extract_watch [OF v] extract_short [OF v]
        extract_www_watch [OF v] extract_www_short [OF v] extract_bare_short [OF v]
        extract_bare_watch [OF v])
qed

lemma strip_mobile:
  "py_strip py_isspace ''https://m.youtube.com/watch?feature=share&v=dQw4w9WgXcQ&t=30s'' =
   ''https://m.youtube.com/watch?feature=share&v=dQw4w9WgXcQ&t=30s''"
  by (rule py_strip_noop) (simp_all add: py_isspace_def)

lemma parse_mobile:
  "py_urlparse plain_library
     (normalize_url ''https://m.youtube.com/watch?feature=share&v=dQw4w9WgXcQ&t=30s'') =
   Inr \<lparr>pr_scheme = ''https'', pr_netloc = ''m.youtube.com'', pr_path = ''/watch'',
        pr_params = [], pr_query = ''feature=share&v=dQw4w9WgXcQ&t=30s'', pr_fragment = []\<rparr>"
  by code_simp

lemma mobile_host:
  "\<not> endswith (py_lower ''m.youtube.com'') ''youtu.be''"
  "contains_str (py_lower ''m.youtube.com'') ''youtube.com''"
  "startswith ''/watch'' ''/watch''"
  "query_v plain_library ''feature=share&v=dQw4w9WgXcQ&t=30s'' = Some ''dQw4w9WgXcQ''"
  by code_simp+

lemma not_video_id_mobile:
  "\<not> is_video_id ''https://m.youtube.com/watch?feature=share&v=dQw4w9WgXcQ&t=30s''"
  by (simp add: is_video_id_def)

lemma repr_bare_short:
  "py_repr ''youtu.be/dQw4w9WgXcQ'' = [CHR 0x27] @ ''youtu.be/dQw4w9WgXcQ'' @ [CHR 0x27]"
  by code_simp

theorem resolver_same_reference_witness:
  "is_video_id ''dQw4w9WgXcQ'' \<and>
   extract_video_id plain_library ''dQw4w9WgXcQ'' =
     Inr (''dQw4w9WgXcQ'', ''https://www.youtube.com/watch?v=dQw4w9WgXcQ'') \<and>
   extract_video_id plain_library ''https://www.youtube.com/watch?v=dQw4w9WgXcQ'' =
     Inr (''dQw4w9WgXcQ'', ''https://www.youtube.com/watch?v=dQw4w9WgXcQ'') \<and>
   extract_video_id plain_library ''https://youtu.be/dQw4w9WgXcQ'' =
     Inr (''dQw4w9WgXcQ'', ''https://www.youtube.com/watch?v=dQw4w9WgXcQ'') \<and>
   extract_video_id plain_library ''www.youtube.com/watch?v=dQw4w9WgXcQ'' =
     Inr (''dQw4w9WgXcQ'', ''https://www.youtube.com/watch?v=dQw4w9WgXcQ'') \<and>
   extract_video_id plain_library ''www.youtu.be/dQw4w9WgXcQ'' =
     Inr (''dQw4w9WgXcQ'', ''https://www.youtube.com/watch?v=dQw4w9WgXcQ'') \<and>
   extract_video_id plain_library
     ''https://m.youtube.com/watch?feature=share&v=dQw4w9WgXcQ&t=30s'' =
     Inr (''dQw4w9WgXcQ'', ''https://www.youtube.com/watch?v=dQw4w9WgXcQ'') \<and>
   extract_video_id plain_library ''youtu.be/dQw4w9WgXcQ'' =
     Inl (CliError (''Unable to locate a valid video ID in input: '' @
                    [CHR 0x27] @ ''youtu.be/dQw4w9WgXcQ'' @ [CHR 0x27]))"
proof -
  note T = resolver_same_reference [OF is_video_id_example, of plain_library]
  note W = T [THEN conjunct2, THEN conjunct2, THEN conjunct2, THEN conjunct2, THEN conjunct2,
      THEN conjunct2, THEN conjunct1, rule_format]
  have m: "extract_video_id plain_library
     ''https://m.youtube.com/watch?feature=share&v=dQw4w9WgXcQ&t=30s'' =
     Inr (''dQw4w9WgXcQ'', canonical_url_of ''dQw4w9WgXcQ'')"
    by (rule W [where parsed = "\<lparr>pr_scheme = ''https'', pr_netloc = ''m.youtube.com'',
          pr_path = ''/watch'', pr_params = [],
          pr_query = ''feature=share&v=dQw4w9WgXcQ&t=30s'', pr_fragment = []\<rparr>"])
      (simp add: strip_mobile parse_mobile mobile_host not_video_id_mobile)
  show ?thesis
    using T m is_video_id_example repr_bare_short by (simp add: canonical_url_of_def)
qed

section \<open>Properties of the filename sanitizer\<close>

lemma collapse_whitespace_id: "\<forall>c\<in>set s. \<not> py_isspace c \<Longrightarrow> collapse_whitespace s = s"
  by (induction s) auto

lemma unspace_punctuation_id: "\<forall>c\<in>set s. \<not> py_isspace c \<Longrightarrow> unspace_punctuation s = s"
  by (induction s) auto

lemma ascii_only_id: "\<forall>c\<in>set s. is_ascii c \<Longrightarrow> ascii_only s = s"
  by (simp add: ascii_only_def filter_id_conv)

lemma unidecode_id: "\<forall>c\<in>set s. is_ascii c \<Longrightarrow> unidecode table s = s"
  by (induction s) (auto simp: unidecode_def)

lemma set_py_strip: "set (py_strip P s) \<subseteq> set s"
proof -
  have "set (dropWhile P (rev (dropWhile P s))) \<subseteq> set (rev (dropWhile P s))"
    by (meson set_dropWhileD subsetI)
  also have "\<dots> \<subseteq> set s" by (auto dest: set_dropWhileD)
  finally show ?thesis by (simp add: py_strip_def py_rstrip_def py_lstrip_def)
qed

lemma sanitize_plain:
  assumes ne: "s \<noteq> []" and pl: "\<forall>c\<in>set s. plain_char c"
  shows "sanitize_filename t s =
         (let u = py_strip dot_or_space (py_strip dot_or_space s);
              w = (if length u > 200 then py_rstrip py_isspace (take 200 u) else u)
          in if py_upper w \<in> set windows_reserved then w @ ''_'' else w)"
proof -
  have f: "filter keep_char s = s" using pl by (simp add: filter_id_conv plain_char_def)
  have sp: "\<forall>c\<in>set s. \<not> py_isspace c" using pl by (simp add: plain_char_def)
  let ?u = "py_strip dot_or_space s"
  have pu: "\<forall>c\<in>set ?u. plain_char c" using pl set_py_strip [of dot_or_space s] by blast
  have a: "ascii_only ?u = ?u" "unidecode tb ?u = ?u" for tb
    using pu by (simp_all add: ascii_only_id unidecode_id plain_char_def)
  have tr: "(case t of None \<Rightarrow> ascii_only ?u | Some table \<Rightarrow> unidecode table ?u) = ?u"
    using a by (cases t) simp_all
  have c: "collapse_whitespace ?u = ?u"
    using pu by (simp add: collapse_whitespace_id plain_char_def)
  show ?thesis
    unfolding sanitize_filename_def Let_def nfc_def f collapse_whitespace_id [OF sp]
      unspace_punctuation_id [OF sp]
    using ne by (cases t) (simp_all add: a c)
qed

lemma plain_chars: "plain_char CHR ''a''" "plain_char CHR ''b''" "plain_char CHR ''.''"
  by code_simp+

lemma windows_reserved_eq:
  "windows_reserved =
     [''CON'', ''PRN'', ''AUX'', ''NUL'', ''COM1'', ''COM2'', ''COM3'', ''COM4'', ''COM5'',
      ''COM6'', ''COM7'', ''COM8'', ''COM9'', ''LPT1'', ''LPT2'', ''LPT3'', ''LPT4'', ''LPT5'',
      ''LPT6'', ''LPT7'', ''LPT8'', ''LPT9'']"
  by code_simp

lemma windows_reserved_short: "r \<in> set windows_reserved \<Longrightarrow> length r \<le> 4"
  unfolding windows_reserved_eq by auto

lemma long_not_reserved: "4 < length s \<Longrightarrow> py_upper s \<notin> set windows_reserved"
  using windows_reserved_short [of "py_upper s"] by (auto simp: py_upper_def)

lemma many_a_ends: "(replicate 199 CHR ''a'') \<noteq> []" "hd (replicate 199 CHR ''a'') = CHR ''a''" "last (replicate 199 CHR ''a'') = CHR ''a''"
  by (simp_all add: hd_replicate last_replicate)

lemma strip_many_a_dot_b: "py_strip dot_or_space ((replicate 199 CHR ''a'') @ ''.b'') = (replicate 199 CHR ''a'') @ ''.b''"
  by (rule py_strip_noop) (simp_all add: dot_or_space_def hd_append many_a_ends)

lemma strip_many_a: "py_strip dot_or_space (replicate 199 CHR ''a'') = (replicate 199 CHR ''a'')"
  by (rule py_strip_noop) (simp_all add: dot_or_space_def many_a_ends)

lemma dropWhile_many_a: "dropWhile dot_or_space (replicate 199 CHR ''a'') = (replicate 199 CHR ''a'')"
  by (simp add: dropWhile_eq_self_iff many_a_ends dot_or_space_def)

lemma strip_many_a_dot: "py_strip dot_or_space ((replicate 199 CHR ''a'') @ ''.'') = (replicate 199 CHR ''a'')"
proof -
  have l: "dropWhile dot_or_space ((replicate 199 CHR ''a'') @ ''.'') = (replicate 199 CHR ''a'') @ ''.''"
    by (simp add: dropWhile_eq_self_iff hd_append many_a_ends dot_or_space_def)
  have "dropWhile dot_or_space (rev ((replicate 199 CHR ''a'') @ ''.'')) = (replicate 199 CHR ''a'')"
    using dropWhile_many_a by (simp add: dot_or_space_def)
  then show ?thesis by (simp add: py_strip_def py_lstrip_def py_rstrip_def l)
qed

lemma sanitize_many_a_dot_b:
  "sanitize_filename t ((replicate 199 CHR ''a'') @ ''.b'') = (replicate 199 CHR ''a'') @ ''.''"
proof -
  have pl: "\<forall>c\<in>set ((replicate 199 CHR ''a'') @ ''.b''). plain_char c" by (auto simp: plain_chars)
  have r: "py_rstrip py_isspace ((replicate 199 CHR ''a'') @ ''.'') = (replicate 199 CHR ''a'') @ ''.''"
    by (rule py_rstrip_keep) (simp_all add: py_isspace_def)
  have nr: "py_upper ((replicate 199 CHR ''a'') @ ''.'') \<notin> set windows_reserved"
    by (rule long_not_reserved) simp
  show ?thesis
    by (subst sanitize_plain [OF _ pl]) (simp_all add: strip_many_a_dot_b Let_def r nr)
qed

lemma sanitize_many_a_dot:
  "sanitize_filename t ((replicate 199 CHR ''a'') @ ''.'') = (replicate 199 CHR ''a'')"
proof -
  have pl: "\<forall>c\<in>set ((replicate 199 CHR ''a'') @ ''.''). plain_char c" by (auto simp: plain_chars)
  have nr: "py_upper (replicate 199 CHR ''a'') \<notin> set windows_reserved"
    by (rule long_not_reserved) simp
  show ?thesis
    by (subst sanitize_plain [OF _ pl]) (simp_all add: strip_many_a_dot strip_many_a Let_def nr)
qed

lemma sanitize_accent_none:
  "sanitize_filename None [CHR ''a'', CHR '' '', CHR 0xE9, CHR '','', CHR '' '', CHR ''b''] = ''a , b''"
  "sanitize_filename None ''a , b'' = ''a, b''"
  by code_simp+

lemma sanitize_filename_split:
  "sanitize_filename t base =
   (if base = [] then [] else sanitize_finish (sanitize_cleaned t base))"
  by (simp add: sanitize_filename_def sanitize_cleaned_def sanitize_finish_def Let_def)

lemma length_py_rstrip: "length (py_rstrip P s) \<le> length s"
  by (simp add: py_rstrip_def length_dropWhile_le [of P "rev s", simplified])

lemma length_sanitize_finish: "length (sanitize_finish u) \<le> 200"
proof -
  let ?w = "if length u > 200 then py_rstrip py_isspace (take 200 u) else u"
  have w: "length ?w \<le> 200"
    using length_py_rstrip [of py_isspace "take 200 u"] by auto
  show ?thesis
  proof (cases "py_upper ?w \<in> set windows_reserved")
    case True
    then have "length (py_upper ?w) \<le> 4" by (rule windows_reserved_short)
    then have "length ?w \<le> 4" by (simp add: py_upper_def)
    then show ?thesis using True by (simp add: sanitize_finish_def Let_def)
  next
    case False
    then show ?thesis using w by (simp add: sanitize_finish_def Let_def)
  qed
qed

lemma upper_underscore: "upper_char CHR ''_'' = CHR ''_''"
  by (simp add: upper_char_def)

lemma reserved_no_underscore: "r \<in> set windows_reserved \<Longrightarrow> last r \<noteq> CHR ''_''"
  unfolding windows_reserved_eq by auto

lemma sanitize_finish_not_reserved: "py_upper (sanitize_finish u) \<notin> set windows_reserved"
proof -
  let ?w = "if length u > 200 then py_rstrip py_isspace (take 200 u) else u"
  show ?thesis
  proof (cases "py_upper ?w \<in> set windows_reserved")
    case True
    have "last (py_upper (?w @ ''_'')) = CHR ''_''"
      by (simp add: py_upper_def upper_underscore)
    then have "py_upper (?w @ ''_'') \<notin> set windows_reserved"
      using reserved_no_underscore by blast
    then show ?thesis using True by (simp add: sanitize_finish_def Let_def)
  next
    case False
    then show ?thesis by (simp add: sanitize_finish_def Let_def)
  qed
qed

lemma set_py_rstrip: "set (py_rstrip P s) \<subseteq> set s"
  by (auto simp: py_rstrip_def dest: set_dropWhileD)

lemma set_sanitize_finish: "set (sanitize_finish u) \<subseteq> set u \<union> {CHR ''_''}"
proof -
  have "set (py_rstrip py_isspace (take 200 u)) \<subseteq> set u"
    using set_py_rstrip [of py_isspace "take 200 u"] set_take_subset [of 200 u] by blast
  then show ?thesis by (auto simp: sanitize_finish_def Let_def)
qed

lemma set_collapse_whitespace: "set (collapse_whitespace s) \<subseteq> set s \<union> {CHR '' ''}"
proof (induction s rule: collapse_whitespace.induct)
  case 1
  then show ?case by simp
next
  case (2 c cs)
  have "set (dropWhile py_isspace cs) \<subseteq> set cs" by (auto dest: set_dropWhileD)
  then show ?case using 2 by auto
qed

lemma set_unspace_punctuation: "set (unspace_punctuation s) \<subseteq> set s"
proof (induction s rule: unspace_punctuation.induct)
  case 1
  then show ?case by simp
next
  case (2 c cs)
  show ?case
  proof (cases "py_isspace c")
    case False
    have e: "unspace_punctuation (c # cs) = c # unspace_punctuation cs"
      using False by simp
    have "set (unspace_punctuation cs) \<subseteq> set cs" using 2(4) [OF False] .
    then show ?thesis unfolding e by auto
  next
    case True
    show ?thesis
    proof (cases "dropWhile py_isspace cs")
      case Nil
      have e: "unspace_punctuation (c # cs) = c # unspace_punctuation cs"
        by (simp only: unspace_punctuation.simps True Nil if_True list.case)
      have "set (unspace_punctuation cs) \<subseteq> set cs" using 2(1) [OF True Nil] .
      then show ?thesis unfolding e by auto
    next
      case (Cons p rest)
      have sub: "set (p # rest) \<subseteq> set cs"
        using Cons by (metis set_dropWhileD subsetI)
      show ?thesis
      proof (cases "p \<in> set punctuation")
        case pin: True
        have e: "unspace_punctuation (c # cs) = p # unspace_punctuation rest"
          by (simp only: unspace_punctuation.simps True Cons pin if_True list.case)
        have "set (unspace_punctuation rest) \<subseteq> set rest"
          using 2(2) [OF True Cons pin] .
        then show ?thesis unfolding e using sub by auto
      next
        case pout: False
        have e: "unspace_punctuation (c # cs) = c # unspace_punctuation cs"
          by (simp only: unspace_punctuation.simps True Cons pout if_True if_False list.case)
        have "set (unspace_punctuation cs) \<subseteq> set cs" using 2(3) [OF True Cons pout] .
        then show ?thesis unfolding e by auto
      qed
    qed
  qed
qed

lemma set_ascii_only: "set (ascii_only s) \<subseteq> set s"
  by (auto simp: ascii_only_def)

lemma legal_space_underscore: "CHR '' '' \<notin> set illegal_chars" "CHR ''_'' \<notin> set illegal_chars"
  by (simp_all add: illegal_chars_def)

lemma sanitize_cleaned_legal: "set (sanitize_cleaned None base) \<inter> set illegal_chars = {}"
proof -
  let ?f = "filter keep_char (nfc base)"
  have f: "set ?f \<inter> set illegal_chars = {}" by (auto simp: keep_char_def Let_def)
  let ?a = "ascii_only (ascii_only (py_strip dot_or_space (unspace_punctuation
              (collapse_whitespace ?f))))"
  have "set ?a \<subseteq> set ?f \<union> {CHR '' ''}"
    using set_ascii_only set_py_strip set_unspace_punctuation set_collapse_whitespace
    by (meson subset_trans)
  moreover have "set (sanitize_cleaned None base) \<subseteq> set ?a \<union> {CHR '' ''}"
    unfolding sanitize_cleaned_def option.case
    using set_py_strip set_collapse_whitespace by (meson subset_trans)
  ultimately have "set (sanitize_cleaned None base) \<subseteq> set ?f \<union> {CHR '' ''}" by blast
  then show ?thesis using f legal_space_underscore by blast
qed

lemma sanitize_filename_none_legal: "set (sanitize_filename None base) \<inter> set illegal_chars = {}"
proof (cases "base = []")
  case True
  then show ?thesis by (simp add: sanitize_filename_split)
next
  case False
  have "set (sanitize_filename None base) \<subseteq> set (sanitize_cleaned None base) \<union> {CHR ''_''}"
    using False set_sanitize_finish by (simp add: sanitize_filename_split)
  then show ?thesis using sanitize_cleaned_legal [of base] legal_space_underscore by blast
qed

lemma length_sanitize_filename: "length (sanitize_filename t base) \<le> 200"
  by (simp add: sanitize_filename_split length_sanitize_finish)

lemma empty_not_reserved: "py_upper [] \<notin> set windows_reserved"
  unfolding windows_reserved_eq by (simp add: py_upper_def)

lemma sanitize_filename_not_reserved: "py_upper (sanitize_filename t base) \<notin> set windows_reserved"
  by (simp add: sanitize_filename_split sanitize_finish_not_reserved empty_not_reserved)

lemma question_cleaned:
  "py_strip dot_or_space (unspace_punctuation (collapse_whitespace
     (filter keep_char (nfc (CHR 0xBF # ''Que es esto?''))))) = CHR 0xBF # ''Que es esto''"
  by code_simp

lemma question_transliterated:
  assumes "table (CHR 0xBF) = ''?''"
  shows "unidecode table (CHR 0xBF # ''Que es esto'') = ''?Que es esto''"
  using assms by (simp add: unidecode_def is_ascii_def)

lemma question_finished:
  "sanitize_finish (py_strip dot_or_space (collapse_whitespace (ascii_only ''?Que es esto''))) =
   ''?Que es esto''"
  by code_simp

lemma sanitize_question:
  assumes "table (CHR 0xBF) = ''?''"
  shows "sanitize_filename (Some table) (CHR 0xBF # ''Que es esto?'') = ''?Que es esto''"
proof -
  have u: "unidecode table (CHR 0xBF # ''Que es esto'') = ''?Que es esto''"
    using assms by (rule question_transliterated [where table = table])
  show ?thesis
    unfolding sanitize_filename_split sanitize_cleaned_def option.case question_cleaned u
      question_finished
    by simp
qed

lemma question_again_cleaned:
  "py_strip dot_or_space (unspace_punctuation (collapse_whitespace
     (filter keep_char (nfc ''?Que es esto'')))) = ''Que es esto''"
  by code_simp

lemma question_again_transliterated: "unidecode table ''Que es esto'' = ''Que es esto''"
  by (simp add: unidecode_def is_ascii_def)

lemma question_again_finished:
  "sanitize_finish (py_strip dot_or_space (collapse_whitespace (ascii_only ''Que es esto''))) =
   ''Que es esto''"
  by code_simp

lemma sanitize_question_again:
  "sanitize_filename (Some table) ''?Que es esto'' = ''Que es esto''"
  unfolding sanitize_filename_split sanitize_cleaned_def option.case question_again_cleaned
    question_again_transliterated question_again_finished
  by simp

subsection \<open>Applying the sanitizer twice\<close>

text \<open>
  Claim C4 says that \<^verbatim>\<open>sanitize_filename (sanitize_filename s) = sanitize_filename s\<close> for
  every string. The function does not have this property. A title of 199 letters \<^verbatim>\<open>a\<close>
  followed by \<^verbatim>\<open>.b\<close> is cut to 200 characters; the cut is followed by \<^verbatim>\<open>.rstrip()\<close>, which
  removes white space only, so the result ends in a period, and a second application strips
  that period. Without \<^verbatim>\<open>unidecode\<close>, the title \<^verbatim>\<open>a\<close>, space, U+00E9, comma, space, \<^verbatim>\<open>b\<close>
  becomes \<^verbatim>\<open>a , b\<close>, because the space before the comma appears only when the accented
  letter is dropped, after the punctuation rule has run; a second application gives
  \<^verbatim>\<open>a, b\<close>. With \<^verbatim>\<open>unidecode\<close>, and its table sending U+00BF to \<^verbatim>\<open>?\<close>, the title
  \<^verbatim>\<open>U+00BF Que es esto?\<close> gives \<^verbatim>\<open>?Que es esto\<close>, and a second application removes the question
  mark.
\<close>

theorem sanitize_filename_twice:
  "sanitize_filename t ((replicate 199 CHR ''a'') @ ''.b'') = (replicate 199 CHR ''a'') @ ''.'' \<and>
   sanitize_filename t (sanitize_filename t ((replicate 199 CHR ''a'') @ ''.b'')) =
     (replicate 199 CHR ''a'') \<and>
   sanitize_filename t (sanitize_filename t ((replicate 199 CHR ''a'') @ ''.b'')) \<noteq>
     sanitize_filename t ((replicate 199 CHR ''a'') @ ''.b'') \<and>
   sanitize_filename None [CHR ''a'', CHR '' '', CHR 0xE9, CHR '','', CHR '' '', CHR ''b''] =
     ''a , b'' \<and>
   sanitize_filename None
     (sanitize_filename None [CHR ''a'', CHR '' '', CHR 0xE9, CHR '','', CHR '' '', CHR ''b'']) =
     ''a, b'' \<and>
   (table (CHR 0xBF) = ''?'' \<longrightarrow>
      sanitize_filename (Some table)
        (sanitize_filename (Some table) (CHR 0xBF # ''Que es esto?'')) = ''Que es esto'')"
  using sanitize_question [of table]
  by (simp add: sanitize_many_a_dot_b sanitize_many_a_dot sanitize_accent_none
      sanitize_question_again)

theorem sanitize_filename_twice_witness:
  "sanitize_filename (Some (\<lambda>c. ''?''))
     (sanitize_filename (Some (\<lambda>c. ''?'')) (CHR 0xBF # ''Que es esto?'')) = ''Que es esto'' \<and>
   sanitize_filename None (sanitize_filename None ((replicate 199 CHR ''a'') @ ''.b'')) \<noteq>
     sanitize_filename None ((replicate 199 CHR ''a'') @ ''.b'')"
proof -
  note T = sanitize_filename_twice [of None "\<lambda>c. ''?''"]
  have "sanitize_filename (Some (\<lambda>c. ''?''))
     (sanitize_filename (Some (\<lambda>c. ''?'')) (CHR 0xBF # ''Que es esto?'')) = ''Que es esto''"
    using T [THEN conjunct2, THEN conjunct2, THEN conjunct2, THEN conjunct2, THEN conjunct2]
    by simp
  then show ?thesis
    using T [THEN conjunct2, THEN conjunct2, THEN conjunct1] by (rule conjI)
qed

subsection \<open>Shape of the result\<close>

text \<open>
  Claim C5 says that, for every input, \<^verbatim>\<open>sanitize_filename\<close> returns a string with none of
  the nine characters of \<^verbatim>\<open>illegal_chars\<close>, of at most 200 characters, that is not a reserved
  device name. The function is total, and the bound on the length and the part on reserved
  names hold for every input and every transliteration table. The result is free of the
  listed characters when \<^verbatim>\<open>unidecode\<close> is not installed. With \<^verbatim>\<open>unidecode\<close>, the characters are
  removed before the transliteration and not after it: for every table that sends U+00BF
  (the inverted question mark) to \<^verbatim>\<open>?\<close>, as the table of \<^verbatim>\<open>unidecode\<close> does, the title
  \<^verbatim>\<open>U+00BF Que es esto?\<close> gives \<^verbatim>\<open>?Que es esto\<close>.
\<close>

theorem sanitize_filename_transliterated:
  "(table (CHR 0xBF) = ''?'' \<longrightarrow>
      sanitize_filename (Some table) (CHR 0xBF # ''Que es esto?'') = ''?Que es esto'') \<and>
   CHR ''?'' \<in> set illegal_chars \<and>
   length (sanitize_filename t s) \<le> 200 \<and>
   py_upper (sanitize_filename t s) \<notin> set windows_reserved \<and>
   set (sanitize_filename None s) \<inter> set illegal_chars = {}"
  using sanitize_question [of table] length_sanitize_filename [of t s]
    sanitize_filename_not_reserved [of t s] sanitize_filename_none_legal [of s]
  by (simp add: illegal_chars_def)

theorem sanitize_filename_transliterated_witness:
  "sanitize_filename (Some (\<lambda>c. ''?'')) (CHR 0xBF # ''Que es esto?'') = ''?Que es esto'' \<and>
   CHR ''?'' \<in> set (sanitize_filename (Some (\<lambda>c. ''?'')) (CHR 0xBF # ''Que es esto?'')) \<and>
   CHR ''?'' \<in> set illegal_chars \<and>
   length (sanitize_filename None ''con'') \<le> 200 \<and>
   py_upper (sanitize_filename None ''con'') \<notin> set windows_reserved \<and>
   set (sanitize_filename None ''con'') \<inter> set illegal_chars = {}"
  using sanitize_filename_transliterated [of "\<lambda>c. ''?''" None "''con''"]
  by simp

end
